(* ===== verification/Prelude.thy ===== *)
theory Prelude
  imports Main "HOL-Library.Word"
begin

text \<open>
  Shared vocabulary of the development: names for the machine integers of the C++ code, the
  collections of rewrite rules the component theories fill, the generic facts about lists,
  folds and words they share, the C string helpers (\<open>strncpy\<close>, \<open>strncmp\<close>,
  \<open>std::string::find\<close>, \<open>std::to_string\<close>) the sources call, and the generic notion
  of a labelled transition system used for every state machine of the program.
\<close>

section \<open>Machine integers\<close>

text \<open>
  A fixed-width integer of the source is a word; an \<open>intN_t\<close> is read with \<open>sint\<close>, a
  \<open>uintN_t\<close> with \<open>unat\<close> or \<open>uint\<close>. A plain C++ \<open>int\<close> that only carries a
  file descriptor, an event number or a return code is a HOL \<open>int\<close>.
\<close>

type_synonym u8 = "8 word"
type_synonym u16 = "16 word"
type_synonym u32 = "32 word"
type_synonym u64 = "64 word"
type_synonym i8 = "8 word"
type_synonym i16 = "16 word"
type_synonym i32 = "32 word"

text \<open>What a run-time failure of the C++ code is. The first group are C++ exceptions or
  aborts, the second is undefined behaviour, which the model never gives a value.\<close>

datatype cxx_error =
    Json_type_error nat
  | Json_out_of_range nat
  | Json_parse_error
  | Kj_exception string
  | Kj_disconnected
  | System_error
  | Terminate
  | Null_dereference
  | Use_after_free
  | Uninitialised_read
  | Out_of_bounds
  | Shift_out_of_range
  | Signed_overflow
  | Float_conversion
  | Blocked_forever

type_synonym 'a result = "cxx_error + 'a"

definition bind_result :: "'a result \<Rightarrow> ('a \<Rightarrow> 'b result) \<Rightarrow> 'b result" where
  "bind_result r f = (case r of Inl e \<Rightarrow> Inl e | Inr x \<Rightarrow> f x)"

fun map_result :: "('a \<Rightarrow> 'b result) \<Rightarrow> 'a list \<Rightarrow> 'b list result" where
  "map_result f [] = Inr []"
| "map_result f (x # xs) =
     bind_result (f x) (\<lambda>y. bind_result (map_result f xs) (\<lambda>ys. Inr (y # ys)))"

section \<open>C strings\<close>

text \<open>\<open>strncpy(dst, src, n)\<close> into a buffer of \<open>n\<close> bytes followed by
  \<open>dst[n - 1] = 0\<close>: the C string that is then in the buffer.\<close>

definition strncpy_term :: "string \<Rightarrow> nat \<Rightarrow> string" where
  "strncpy_term src n = takeWhile (\<lambda>c. c \<noteq> CHR 0x00) (take (n - 1) src)"

text \<open>A string read through \<open>c_str()\<close> or \<open>cStr()\<close> ends at its first NUL.\<close>

definition c_str :: "string \<Rightarrow> string" where
  "c_str s = takeWhile (\<lambda>c. c \<noteq> CHR 0x00) s"

text \<open>\<open>strncmp(s, p, strlen(p)) == 0\<close>\<close>

definition has_prefix :: "string \<Rightarrow> string \<Rightarrow> bool" where
  "has_prefix p s \<longleftrightarrow> take (length p) s = p"

text \<open>\<open>s.find(c) != npos\<close> for a character and \<open>s.find(p) != npos\<close> for a string.\<close>

definition contains_char :: "char \<Rightarrow> string \<Rightarrow> bool" where
  "contains_char c s \<longleftrightarrow> c \<in> set s"

fun contains_sub :: "string \<Rightarrow> string \<Rightarrow> bool" where
  "contains_sub p [] = (p = [])"
| "contains_sub p (c # s) = (has_prefix p (c # s) \<or> contains_sub p s)"

section \<open>Decimal printing\<close>

text \<open>\<open>std::to_string\<close> and \<open>operator<<\<close> on integers.\<close>

definition digit_char :: "nat \<Rightarrow> char" where
  "digit_char d = char_of (48 + d)"

fun show_nat :: "nat \<Rightarrow> string" where
  "show_nat n = (if n < 10 then [digit_char n] else show_nat (n div 10) @ [digit_char (n mod 10)])"

declare show_nat.simps [simp del]

definition show_int :: "int \<Rightarrow> string" where
  "show_int i = (if i < 0 then CHR ''-'' # show_nat (nat (- i)) else show_nat (nat i))"

text \<open>\<open>std::setfill('0') << std::setw(w)\<close>: zeros on the left up to the width.\<close>

definition pad_left :: "nat \<Rightarrow> string \<Rightarrow> string" where
  "pad_left w s = replicate (w - length s) (CHR ''0'') @ s"

section \<open>Facts about the shared functions\<close>

named_theorems hist_simps \<open>effect of an operation on the history of system calls\<close>
named_theorems frame_simps \<open>fields an operation leaves alone\<close>

lemma bind_result_simps [simp]:
  "bind_result (Inl e) f = Inl e"
  "bind_result (Inr x) f = f x"
  by (simp_all add: bind_result_def)

lemma bind_result_InrE [elim!]:
  assumes "bind_result r f = Inr y"
  obtains x where "r = Inr x" "f x = Inr y"
  using assms by (cases r) auto

lemma map_result_Inr_iff:
  "map_result f xs = Inr ys \<longleftrightarrow> list_all2 (\<lambda>x y. f x = Inr y) xs ys"
proof (induction xs arbitrary: ys)
  case Nil
  then show ?case by auto
next
  case (Cons x xs)
  have "bind_result (map_result f xs) (\<lambda>ys. Inr (y # ys)) = Inr zs \<longleftrightarrow>
      (\<exists>ys. zs = y # ys \<and> list_all2 (\<lambda>x y. f x = Inr y) xs ys)" for y zs
    by (auto simp flip: Cons.IH)
  then show ?case by (cases "f x") (auto simp: list_all2_Cons1)
qed

lemma map_result_Inr [simp]: "map_result (\<lambda>x. Inr (f x)) xs = Inr (map f xs)"
  by (induction xs) auto

lemma map_result_length: "map_result f xs = Inr ys \<Longrightarrow> length ys = length xs"
  by (auto simp: map_result_Inr_iff dest: list_all2_lengthD)

lemma length_strncpy_term: "0 < n \<Longrightarrow> length (strncpy_term src n) < n"
  unfolding strncpy_term_def
  by (rule le_less_trans [OF length_takeWhile_le]) simp

lemma strncpy_term_no_nul: "CHR 0x00 \<notin> set (strncpy_term src n)"
  by (auto simp: strncpy_term_def dest: set_takeWhileD)

lemma strncpy_term_fits:
  assumes "length src < n" "CHR 0x00 \<notin> set src"
  shows "strncpy_term src n = src"
  using assms by (auto simp: strncpy_term_def takeWhile_eq_all_conv)

lemma strncpy_term_idem [simp]: "strncpy_term (strncpy_term s n) n = strncpy_term s n"
proof (cases n)
  case 0
  then show ?thesis by (simp add: strncpy_term_def)
next
  case (Suc m)
  show ?thesis
    by (rule strncpy_term_fits)
      (simp_all add: Suc length_strncpy_term strncpy_term_no_nul)
qed

text \<open>One unfolding of a counting loop, as the loops over \<open>i < n\<close> of the code need it.\<close>

lemma ex_from_step:
  "(\<exists>l::nat. i \<le> l \<and> l < n \<and> P l) \<longleftrightarrow>
     i < n \<and> (P i \<or> (\<exists>l. i + 1 \<le> l \<and> l < n \<and> P l))"
proof -
  have split: "i \<le> l \<and> l < n \<longleftrightarrow> i < n \<and> (l = i \<or> i + 1 \<le> l \<and> l < n)" for l
    by auto
  have "(\<exists>l. i \<le> l \<and> l < n \<and> P l) \<longleftrightarrow> (\<exists>l. (i \<le> l \<and> l < n) \<and> P l)"
    by blast
  also have "\<dots> \<longleftrightarrow> i < n \<and> (P i \<or> (\<exists>l. i + 1 \<le> l \<and> l < n \<and> P l))"
    unfolding split by blast
  finally show ?thesis .
qed

lemma all_from_step:
  "(\<forall>l::nat. i \<le> l \<and> l < n \<longrightarrow> P l) \<longleftrightarrow>
     (i < n \<longrightarrow> P i \<and> (\<forall>l. i + 1 \<le> l \<and> l < n \<longrightarrow> P l))"
  using ex_from_step [of i n "\<lambda>l. \<not> P l"] by auto

section \<open>Labelled transition systems\<close>

text \<open>
  Every state machine of the program (the recorder's threads, the client connection, the
  kernel's view of a virtual device) is an initial state and a labelled step relation. The
  locale collects what all of them share: runs, reachability and invariants.
\<close>

locale transition_system =
  fixes init :: "'s \<Rightarrow> bool"
    and step :: "'s \<Rightarrow> 'l \<Rightarrow> 's \<Rightarrow> bool"
begin

inductive run :: "'s \<Rightarrow> 'l list \<Rightarrow> 's \<Rightarrow> bool" where
  run_nil: "run s [] s"
| run_cons: "step s l t \<Longrightarrow> run t ls u \<Longrightarrow> run s (l # ls) u"

inductive_simps run_Nil_iff: "run s [] t"
inductive_simps run_Cons_iff: "run s (l # ls) u"

definition reachable :: "'s \<Rightarrow> bool" where
  "reachable s \<longleftrightarrow> (\<exists>s0 ls. init s0 \<and> run s0 ls s)"

lemma run_invariant:
  assumes "run s ls t" "I s" "\<And>u l v. step u l v \<Longrightarrow> I u \<Longrightarrow> I v"
  shows "I t"
  using assms(1,2) by (induction rule: run.induct) (auto intro: assms(3))

lemma run_invariant_labels:
  assumes "run s ls t" "I s" "\<And>u l v. step u l v \<Longrightarrow> P l \<Longrightarrow> I u \<Longrightarrow> I v" "list_all P ls"
  shows "I t"
  using assms(1,2,4) by (induction rule: run.induct) (auto intro: assms(3))

lemma reachable_invariant:
  assumes "reachable s" "\<And>s0. init s0 \<Longrightarrow> I s0" "\<And>u l v. step u l v \<Longrightarrow> I u \<Longrightarrow> I v"
  shows "I s"
  using assms by (auto simp: reachable_def intro: run_invariant)

lemma run_append:
  assumes "run s ls t" "run t ls' u"
  shows "run s (ls @ ls') u"
  using assms by (induction rule: run.induct) (auto intro: run.intros)

lemma run_singleton: "step s l t \<Longrightarrow> run s [l] t"
  by (auto intro: run.intros)

lemma reachable_init: "init s \<Longrightarrow> reachable s"
  unfolding reachable_def using run_nil by blast

lemma reachable_run:
  assumes "reachable s" "run s ls t"
  shows "reachable t"
  using assms run_append unfolding reachable_def by blast

end

end
