(* ===== verification/Input_Events.thy ===== *)
theory Input_Events
  imports Prelude
begin

text \<open>
  The data the server and the recorder exchange with the kernel's input subsystem: the
  event, device and capability numbers of \<open>linux/input-event-codes.h\<close> (a fixed kernel
  interface, given here by value), the structures \<open>input_event\<close>, \<open>input_absinfo\<close>,
  \<open>uinput_setup\<close> and \<open>uinput_abs_setup\<close>, the device types and device records of
  \<open>recorder/TestRunnerRecorder.h\<close>, and the request structures of
  \<open>capnp/test_runner.capnp\<close>.
\<close>

section \<open>Kernel numbers\<close>

abbreviation (input) EV_SYN :: int where "EV_SYN \<equiv> 0"
abbreviation (input) EV_KEY :: int where "EV_KEY \<equiv> 1"
abbreviation (input) EV_REL :: int where "EV_REL \<equiv> 2"
abbreviation (input) EV_ABS :: int where "EV_ABS \<equiv> 3"
abbreviation (input) SYN_REPORT :: int where "SYN_REPORT \<equiv> 0"
abbreviation (input) REL_X :: int where "REL_X \<equiv> 0"
abbreviation (input) REL_Y :: int where "REL_Y \<equiv> 1"
abbreviation (input) REL_Z :: int where "REL_Z \<equiv> 2"
abbreviation (input) REL_HWHEEL :: int where "REL_HWHEEL \<equiv> 6"
abbreviation (input) REL_WHEEL :: int where "REL_WHEEL \<equiv> 8"
abbreviation (input) ABS_X :: int where "ABS_X \<equiv> 0"
abbreviation (input) ABS_Y :: int where "ABS_Y \<equiv> 1"
abbreviation (input) ABS_MT_SLOT :: int where "ABS_MT_SLOT \<equiv> 47"
abbreviation (input) ABS_MT_POSITION_X :: int where "ABS_MT_POSITION_X \<equiv> 53"
abbreviation (input) ABS_MT_POSITION_Y :: int where "ABS_MT_POSITION_Y \<equiv> 54"
abbreviation (input) ABS_MT_TRACKING_ID :: int where "ABS_MT_TRACKING_ID \<equiv> 57"
abbreviation (input) BTN_LEFT :: int where "BTN_LEFT \<equiv> 272"
abbreviation (input) BTN_RIGHT :: int where "BTN_RIGHT \<equiv> 273"
abbreviation (input) BTN_TOUCH :: int where "BTN_TOUCH \<equiv> 330"
abbreviation (input) KEY_ESC :: nat where "KEY_ESC \<equiv> 1"
abbreviation (input) KEY_MAX :: nat where "KEY_MAX \<equiv> 767"
abbreviation (input) BUS_VIRTUAL :: u16 where "BUS_VIRTUAL \<equiv> 6"
abbreviation (input) INPUT_PROP_DIRECT :: int where "INPUT_PROP_DIRECT \<equiv> 1"

text \<open>\<open>VIRTUAL_MULTITOUCH_ABS_X_MAX\<close> and \<open>VIRTUAL_MULTITOUCH_ABS_Y_MAX\<close>, the compile
  definitions of the top-level \<open>CMakeLists.txt\<close>.\<close>

abbreviation (input) VIRTUAL_MULTITOUCH_ABS_X_MAX :: int where
  "VIRTUAL_MULTITOUCH_ABS_X_MAX \<equiv> 16000"
abbreviation (input) VIRTUAL_MULTITOUCH_ABS_Y_MAX :: int where
  "VIRTUAL_MULTITOUCH_ABS_Y_MAX \<equiv> 9000"

section \<open>Kernel structures\<close>

text \<open>The \<open>time\<close> member of \<open>struct input_event\<close> is left out: it is zero in every
  event the server writes and never read from one the recorder receives.\<close>

record input_event =
  ev_type :: u16
  ev_code :: u16
  ev_value :: i32

text \<open>Of \<open>struct input_absinfo\<close> the code reads or writes only the range.\<close>

record input_absinfo =
  minimum :: i32
  maximum :: i32

record uinput_setup =
  us_bustype :: u16
  us_vendor :: u16
  us_product :: u16
  us_version :: u16
  us_name :: string

record uinput_abs_setup =
  as_code :: u16
  as_absinfo :: input_absinfo

text \<open>The event \<open>emit\<close> builds: the C++ \<open>int\<close> arguments are converted to the 16-bit and
  32-bit members of the structure.\<close>

definition mk_event :: "int \<Rightarrow> int \<Rightarrow> int \<Rightarrow> input_event" where
  "mk_event type code val =
     \<lparr>ev_type = word_of_int type, ev_code = word_of_int code, ev_value = word_of_int val\<rparr>"

definition syn_report :: input_event where
  "syn_report = mk_event EV_SYN SYN_REPORT 0"

section \<open>Device records of the recorder\<close>

datatype device_type = MOUSE | KEYBOARD | TOUCHSCREEN | MULTITOUCHSCREEN | UNKNOWN

fun device_type_num :: "device_type \<Rightarrow> nat" where
  "device_type_num MOUSE = 0"
| "device_type_num KEYBOARD = 1"
| "device_type_num TOUCHSCREEN = 2"
| "device_type_num MULTITOUCHSCREEN = 3"
| "device_type_num UNKNOWN = 4"

text \<open>The conversion of the server's \<open>setDevicesToRecord\<close>: any number from
  \<open>UNKNOWN\<close> on is \<open>UNKNOWN\<close>.\<close>

definition device_type_of :: "nat \<Rightarrow> device_type" where
  "device_type_of n =
     (if n \<ge> 4 then UNKNOWN
      else if n = 0 then MOUSE else if n = 1 then KEYBOARD
      else if n = 2 then TOUCHSCREEN else MULTITOUCHSCREEN)"

record in_device_s =
  dev_fd :: int
  dev_name :: string
  dev_type :: device_type
  abs_range_x :: input_absinfo
  abs_range_y :: input_absinfo

definition zero_absinfo :: input_absinfo where
  "zero_absinfo = \<lparr>minimum = 0, maximum = 0\<rparr>"

section \<open>Request structures of the schema\<close>

record MouseMove =
  relX :: i32
  relY :: i32

record MouseClick =
  btn :: u16
  mc_pressed :: bool

datatype key_which = RawCode u16 | KeySym u32 | KeyName string

record KeyPress =
  kp_pressed :: bool
  kp_which :: key_which

record SingleTouch =
  st_absX :: i32
  st_absY :: i32
  st_pressed :: bool

record MultiTouch =
  slot :: i8
  trackingId :: i16
  mt_absX :: i32
  mt_absY :: i32

record PassThrough =
  pt_device :: u32
  pt_type :: u32
  pt_code :: u32
  pt_value :: i32

text \<open>\<open>struct InputDevice\<close>, the device description on the wire.\<close>

record InputDevice =
  id_fd :: u32
  id_name :: string
  id_type :: u8

section \<open>Facts\<close>

lemma device_type_of_num [simp]: "device_type_of (device_type_num t) = t"
  by (cases t) (simp_all add: device_type_of_def)

lemma device_type_num_bound: "device_type_num t \<le> 4"
  by (cases t) simp_all

lemma device_type_num_eq_iff [simp]: "device_type_num s = device_type_num t \<longleftrightarrow> s = t"
  by (metis device_type_of_num)

lemma mk_event_fields [simp]:
  "ev_type (mk_event t c v) = word_of_int t"
  "ev_code (mk_event t c v) = word_of_int c"
  "ev_value (mk_event t c v) = word_of_int v"
  by (simp_all add: mk_event_def)

text \<open>The device types are totally ordered by their C++ numbering, as the comparison
  \<open>dev_in.getType() >= UNKNOWN\<close> of the server uses them.\<close>

instantiation device_type :: linorder
begin

definition less_eq_device_type :: "device_type \<Rightarrow> device_type \<Rightarrow> bool" where
  "less_eq_device_type s t \<longleftrightarrow> device_type_num s \<le> device_type_num t"

definition less_device_type :: "device_type \<Rightarrow> device_type \<Rightarrow> bool" where
  "less_device_type s t \<longleftrightarrow> device_type_num s < device_type_num t"

instance
  by standard (auto simp: less_eq_device_type_def less_device_type_def)

end

lemma unknown_greatest: "t \<le> UNKNOWN"
  using device_type_num_bound [of t] by (simp add: less_eq_device_type_def)

end
