(* ===== verification/Syscalls.thy ===== *)
theory Syscalls
  imports Input_Events
begin

text \<open>
  \<open>recorder/SyscallInterface.h\<close>: the interface through which the server and the recorder
  reach the kernel. A call is a value of \<open>syscall\<close>; the state of the program carries
  the history of the calls it has made, newest first. The kernel itself is not part of the
  repository: it is the parameter \<open>kernel\<close>, which answers a call as it likes, knowing
  the whole history. Standard error output (\<open>spdlog::error\<close>, \<open>spdlog::warn\<close>) is
  kept as a list of message templates, newest first.
\<close>

section \<open>Calls\<close>

text \<open>\<open>Clock\<close> is the one constructor that is not a method of the interface: the reading of
  the system clock in \<open>current_time_ms\<close>; its result is the time in milliseconds.\<close>

datatype open_flags = O_WRONLY | O_RDONLY_NONBLOCK

datatype ioctl_request =
    UI_DEV_SETUP uinput_setup
  | UI_ABS_SETUP uinput_abs_setup
  | UI_DEV_CREATE
  | UI_DEV_DESTROY
  | EVIOCGNAME nat
  | EVIOCGBIT int nat
  | EVIOCGABS int

datatype ioctl_int_request =
    UI_SET_EVBIT
  | UI_SET_KEYBIT
  | UI_SET_RELBIT
  | UI_SET_ABSBIT
  | UI_SET_PROPBIT

datatype syscall =
    Open string open_flags
  | Close int
  | Opendir string
  | Readdir
  | Closedir
  | Ioctl int ioctl_request
  | Ioctl_int int ioctl_int_request int
  | Read int
  | Write int input_event
  | Select "int list"
  | Popen string string
  | Fgets nat
  | Pclose
  | Usleep nat
  | Clock

text \<open>A directory entry as \<open>readdir\<close> returns it: whether it is a character device and
  its name.\<close>

record dirent =
  is_chr :: bool
  d_name :: string

text \<open>
  The kernel's answers to the newest call of a history: the return value (for
  \<open>opendir\<close>, zero is the null pointer), \<open>errno\<close>, and what the call left in its
  output argument: the bytes of a buffer, an axis range, an event, a directory entry, the set
  of ready descriptors. A buffer that a failed call does not fill is uninitialised, and then
  its content is whatever the record says; positions beyond the end of \<open>k_bytes\<close> are zero.
\<close>

record kernel =
  k_ret :: "syscall list \<Rightarrow> int"
  k_errno :: "syscall list \<Rightarrow> int"
  k_bytes :: "syscall list \<Rightarrow> u8 list"
  k_text :: "syscall list \<Rightarrow> string"
  k_abs :: "syscall list \<Rightarrow> input_absinfo"
  k_event :: "syscall list \<Rightarrow> input_event"
  k_dirent :: "syscall list \<Rightarrow> dirent option"
  k_ready :: "syscall list \<Rightarrow> int \<Rightarrow> bool"

section \<open>The state every component shares\<close>

record sys_state =
  hist :: "syscall list"
  errs :: "string list"

definition log_error :: "string \<Rightarrow> 'a sys_state_scheme \<Rightarrow> 'a sys_state_scheme" where
  "log_error msg s = s\<lparr>errs := msg # errs s\<rparr>"

text \<open>One call through the interface: it is recorded, and its result is the kernel's.\<close>

definition sys_call ::
  "kernel \<Rightarrow> syscall \<Rightarrow> 'a sys_state_scheme \<Rightarrow> int \<times> 'a sys_state_scheme" where
  "sys_call k c s = (k_ret k (c # hist s), s\<lparr>hist := c # hist s\<rparr>)"

text \<open>The pattern \<open>result = m_syscalls->ioctl(...); if (result < 0) spdlog::error(msg)\<close>.\<close>

definition call_or_log ::
  "kernel \<Rightarrow> syscall \<Rightarrow> string \<Rightarrow> 'a sys_state_scheme \<Rightarrow> 'a sys_state_scheme" where
  "call_or_log k c msg s =
     (case sys_call k c s of (r, s') \<Rightarrow> if r < 0 then log_error msg s' else s')"

section \<open>Facts\<close>

lemma log_error_sel [simp]:
  "hist (log_error m s) = hist s"
  "errs (log_error m s) = m # errs s"
  "sys_state.more (log_error m s) = sys_state.more s"
  by (simp_all add: log_error_def)

lemma sys_call_simps [simp]:
  "fst (sys_call k c s) = k_ret k (c # hist s)"
  "hist (snd (sys_call k c s)) = c # hist s"
  "errs (snd (sys_call k c s)) = errs s"
  "sys_state.more (snd (sys_call k c s)) = sys_state.more s"
  by (simp_all add: sys_call_def)

lemma call_or_log_hist [hist_simps]: "hist (call_or_log k c msg s) = c # hist s"
  by (simp add: call_or_log_def split: prod.split) (simp add: sys_call_def)

lemma call_or_log_more [frame_simps]:
  "sys_state.more (call_or_log k c msg s) = sys_state.more s"
  by (simp add: call_or_log_def split: prod.split) (simp add: sys_call_def)

lemma call_or_log_errs:
  "errs (call_or_log k c msg s) = (if k_ret k (c # hist s) < 0 then msg # errs s else errs s)"
  by (simp add: call_or_log_def sys_call_def)

text \<open>A loop of such calls adds them to the history in order.\<close>

lemma fold_call_hist:
  assumes "\<And>x s. hist (f x s) = c x # hist s"
  shows "hist (fold f xs s) = rev (map c xs) @ hist s"
  by (induction xs arbitrary: s) (simp_all add: assms)

lemma fold_frame:
  assumes "\<And>x s. g (f x s) = g s"
  shows "g (fold f xs s) = g s"
  by (induction xs arbitrary: s) (simp_all add: assms)

section \<open>The events a history has written\<close>

text \<open>What an input device receives: the events written to its descriptor, oldest first.\<close>

fun written :: "syscall list \<Rightarrow> (int \<times> input_event) list" where
  "written [] = []"
| "written (c # h) = written h @ (case c of Write fd e \<Rightarrow> [(fd, e)] | _ \<Rightarrow> [])"

definition events_on :: "int \<Rightarrow> syscall list \<Rightarrow> input_event list" where
  "events_on fd h = map snd (filter (\<lambda>(f, e). f = fd) (written h))"

lemma written_append [simp]: "written (g @ h) = written h @ written g"
  by (induction g) simp_all

lemma events_on_append [simp]: "events_on fd (g @ h) = events_on fd h @ events_on fd g"
  by (simp add: events_on_def)

lemma events_on_Nil [simp]: "events_on fd [] = []"
  by (simp add: events_on_def)

lemma events_on_Cons [simp]:
  "events_on fd (c # h) = events_on fd h @ (case c of Write f e \<Rightarrow> if f = fd then [e] else [] | _ \<Rightarrow> [])"
  by (auto simp: events_on_def split: syscall.splits)

end
