(* ===== verification/Touch_Transform.thy ===== *)
theory Touch_Transform
  imports Complex_Main Input_Events
begin

text \<open>
  \<open>transform_touch_coordinates\<close> of \<open>recorder/TestRunnerRecorder.cpp\<close>: a raw coordinate
  of a touch device is scaled to the fixed range of the virtual touchscreens, in IEEE double
  arithmetic. A double is the rational number it denotes, and every operation rounds its exact
  result to 53 significant bits, ties to even (the values here are far from the limits of the
  exponent range). Integer overflow and a conversion out of the range of \<open>int\<close> are
  errors. Shown here: the exact result up to the rounding, range and order preservation and the
  cases that yield no value.
\<close>

section \<open>Rounding to 53 bits\<close>

function ilog2 :: "int \<Rightarrow> nat" where
  "ilog2 n = (if n < 2 then 0 else Suc (ilog2 (n div 2)))"
  by pat_completeness auto
termination
  by (relation "measure nat") auto

declare ilog2.simps [simp del]

text \<open>The exponent \<open>e\<close> with \<open>2\<^sup>e \<le> x < 2\<^sup>e\<^sup>+\<^sup>1\<close>, for positive \<open>x\<close>.\<close>

definition binade :: "rat \<Rightarrow> int" where
  "binade x = (case quotient_of x of (a, b) \<Rightarrow>
     let k = int (ilog2 a) - int (ilog2 b) in if x < 2 powi k then k - 1 else k)"

definition round_even :: "rat \<Rightarrow> int" where
  "round_even y = (let f = \<lfloor>y\<rfloor>; r = y - of_int f in
     if r < 1 / 2 then f else if r > 1 / 2 then f + 1 else if even f then f else f + 1)"

definition to_double :: "rat \<Rightarrow> rat" where
  "to_double x =
     (if x = 0 then 0
      else let ulp = 2 powi (binade \<bar>x\<bar> - 52) in sgn x * of_int (round_even (\<bar>x\<bar> / ulp)) * ulp)"

definition double_mult :: "rat \<Rightarrow> rat \<Rightarrow> rat" where
  "double_mult x y = to_double (x * y)"

definition double_div :: "rat \<Rightarrow> rat \<Rightarrow> rat" where
  "double_div x y = to_double (x / y)"

text \<open>The conversion \<open>int(d)\<close>: truncation towards zero, undefined outside the type.\<close>

definition trunc_rat :: "rat \<Rightarrow> int" where
  "trunc_rat d = (if d < 0 then - \<lfloor>- d\<rfloor> else \<lfloor>d\<rfloor>)"

definition in_int32 :: "int \<Rightarrow> bool" where
  "in_int32 i \<longleftrightarrow> - (2 ^ 31) \<le> i \<and> i < 2 ^ 31"

definition int_of_double :: "rat \<Rightarrow> int result" where
  "int_of_double d =
     (if in_int32 (trunc_rat d) then Inr (trunc_rat d) else Inl Float_conversion)"

text \<open>Subtraction of two C++ \<open>int\<close>s.\<close>

definition int_minus :: "i32 \<Rightarrow> i32 \<Rightarrow> int result" where
  "int_minus a b =
     (if in_int32 (sint a - sint b) then Inr (sint a - sint b) else Inl Signed_overflow)"

section \<open>The transformation\<close>

datatype axis = X_AXIS | Y_AXIS

text \<open>The two branches of the function differ in the range they read and in the scale.\<close>

definition axis_range :: "in_device_s \<Rightarrow> axis \<Rightarrow> input_absinfo" where
  "axis_range dev ax = (case ax of X_AXIS \<Rightarrow> abs_range_x dev | Y_AXIS \<Rightarrow> abs_range_y dev)"

definition axis_max :: "axis \<Rightarrow> int" where
  "axis_max ax = (case ax of X_AXIS \<Rightarrow> VIRTUAL_MULTITOUCH_ABS_X_MAX | Y_AXIS \<Rightarrow> VIRTUAL_MULTITOUCH_ABS_Y_MAX)"

definition transform_touch_coordinates :: "in_device_s \<Rightarrow> i32 \<Rightarrow> axis \<Rightarrow> i32 result" where
  "transform_touch_coordinates dev val ax =
     bind_result (int_minus val (minimum (axis_range dev ax))) (\<lambda>v.
     bind_result (int_minus (maximum (axis_range dev ax)) (minimum (axis_range dev ax))) (\<lambda>range.
       let native_range = rat_of_int range;
           transform_val = (if native_range > 0
                            then double_div (rat_of_int (axis_max ax)) native_range else 0)
       in bind_result (int_of_double (double_mult (rat_of_int v) transform_val))
            (\<lambda>i. Inr (word_of_int i))))"

section \<open>Facts about the rounding\<close>

lemma ilog2_bounds:
  assumes "0 < n"
  shows "2 ^ ilog2 n \<le> n \<and> n < 2 ^ Suc (ilog2 n)"
  using assms
proof (induction n rule: ilog2.induct)
  case (1 n)
  show ?case
  proof (cases "n < 2")
    case True
    with 1 show ?thesis by (simp add: ilog2.simps [of n])
  next
    case False
    then have "2 ^ ilog2 (n div 2) \<le> n div 2 \<and> n div 2 < 2 ^ Suc (ilog2 (n div 2))"
      by (intro 1) auto
    with False show ?thesis by (simp add: ilog2.simps [of n]) linarith
  qed
qed

lemma rat_pow2_mono: "(2::int) ^ m \<le> a \<Longrightarrow> (2::rat) ^ m \<le> rat_of_int a"
  and rat_pow2_less: "a < (2::int) ^ m \<Longrightarrow> rat_of_int a \<le> (2::rat) ^ m"
  by (metis of_int_le_iff of_int_numeral of_int_power less_imp_le)+

lemma binade_bounds:
  assumes "0 < x"
  shows "2 powi binade x \<le> x" and "x < 2 powi (binade x + 1)"
proof -
  obtain a b where ab: "quotient_of x = (a, b)" by fastforce
  then have b: "0 < b" by (rule quotient_of_denom_pos)
  have x: "x = rat_of_int a / rat_of_int b" using ab by (rule quotient_of_div)
  with assms b have a: "0 < a" by (simp add: zero_less_divide_iff)
  define k where "k = int (ilog2 a) - int (ilog2 b)"
  have "(2::rat) ^ ilog2 a / 2 ^ Suc (ilog2 b) \<le> x"
    unfolding x using a b ilog2_bounds [OF a] ilog2_bounds [OF b]
    by (intro frac_le rat_pow2_mono rat_pow2_less) simp_all
  then have low: "2 powi (k - 1) \<le> x" by (simp add: power_int_diff k_def)
  have "rat_of_int a < 2 ^ Suc (ilog2 a)"
    using ilog2_bounds [OF a] by (metis of_int_less_iff of_int_numeral of_int_power)
  then have "x < (2::rat) ^ Suc (ilog2 a) / 2 ^ ilog2 b"
    unfolding x using a b ilog2_bounds [OF b] by (intro frac_less rat_pow2_mono) simp_all
  then have high: "x < 2 powi (k + 1)" by (simp add: power_int_diff power_int_add k_def mult.commute)
  show "2 powi binade x \<le> x" "x < 2 powi (binade x + 1)"
    using ab low high by (auto simp: binade_def Let_def k_def)
qed

lemma binade_eqI:
  assumes "2 powi e \<le> x" "x < 2 powi (e + 1)"
  shows "binade x = e"
proof -
  have "(0::rat) < 2 powi e" by simp
  with assms have "0 < x" by linarith
  note b = binade_bounds [OF this]
  have "(2::rat) powi e < 2 powi (binade x + 1)" "(2::rat) powi binade x < 2 powi (e + 1)"
    using assms b by linarith+
  moreover have "(2::rat) powi m < 2 powi n \<Longrightarrow> m < n" for m n
    using power_int_increasing [of n m "2::rat"] by (meson not_le one_le_numeral)
  ultimately have "e < binade x + 1" "binade x < e + 1" by blast+
  then show ?thesis by linarith
qed

lemma round_even_error: "\<bar>rat_of_int (round_even y) - y\<bar> \<le> 1 / 2"
proof -
  have "rat_of_int \<lfloor>y\<rfloor> \<le> y" "y < rat_of_int \<lfloor>y\<rfloor> + 1" by linarith+
  then show ?thesis by (auto simp: round_even_def Let_def)
qed

text \<open>The relative error of one operation is at most \<open>2\<^sup>-\<^sup>5\<^sup>3\<close>.\<close>

lemma to_double_error: "\<bar>to_double x - x\<bar> \<le> \<bar>x\<bar> / 2 ^ 53"
proof (cases "x = 0")
  case False
  define ulp where "ulp = (2::rat) powi (binade \<bar>x\<bar> - 52)"
  have ulp: "0 < ulp" by (simp add: ulp_def)
  have d: "to_double x = sgn x * rat_of_int (round_even (\<bar>x\<bar> / ulp)) * ulp"
    using False by (simp add: to_double_def ulp_def Let_def)
  have "to_double x - x = sgn x * (rat_of_int (round_even (\<bar>x\<bar> / ulp)) - \<bar>x\<bar> / ulp) * ulp"
    using ulp unfolding d by (simp add: field_simps abs_mult_sgn)
  then have "\<bar>to_double x - x\<bar> = \<bar>rat_of_int (round_even (\<bar>x\<bar> / ulp)) - \<bar>x\<bar> / ulp\<bar> * ulp"
    using False ulp by (simp add: abs_mult abs_sgn_eq)
  also have "\<dots> \<le> 1 / 2 * ulp"
    using round_even_error ulp by (intro mult_right_mono) simp_all
  also have "\<dots> = 2 powi binade \<bar>x\<bar> / 2 ^ 53"
    by (simp add: ulp_def power_int_diff)
  also have "\<dots> \<le> \<bar>x\<bar> / 2 ^ 53"
    using binade_bounds(1) [of "\<bar>x\<bar>"] False by (simp add: divide_right_mono)
  finally show ?thesis .
qed (simp add: to_double_def)

lemma to_double_nonneg:
  assumes "0 \<le> x"
  shows "0 \<le> to_double x"
proof -
  have "\<bar>x\<bar> / 2 ^ 53 \<le> \<bar>x\<bar>" by simp
  with to_double_error [of x] assms show ?thesis by linarith
qed

text \<open>Rounding keeps the order.\<close>

lemma round_even_floor: "\<lfloor>y\<rfloor> \<le> round_even y" "round_even y \<le> \<lfloor>y\<rfloor> + 1"
  by (simp_all add: round_even_def Let_def)

lemma round_even_of_int [simp]: "round_even (rat_of_int n) = n"
  by (simp add: round_even_def)

lemma round_even_mono:
  assumes "x \<le> y"
  shows "round_even x \<le> round_even y"
proof (cases "\<lfloor>x\<rfloor> = \<lfloor>y\<rfloor>")
  case True
  with assms show ?thesis by (auto simp: round_even_def Let_def)
next
  case False
  then have "\<lfloor>x\<rfloor> + 1 \<le> \<lfloor>y\<rfloor>" using floor_mono [OF assms] by linarith
  with round_even_floor(2) [of x] round_even_floor(1) [of y] show ?thesis by linarith
qed

lemma to_double_binade:
  assumes "0 < x"
  shows "2 powi binade x \<le> to_double x" "to_double x \<le> 2 powi (binade x + 1)"
proof -
  define ulp where "ulp = (2::rat) powi (binade x - 52)"
  have ulp: "0 < ulp" "2 powi binade x = rat_of_int (2 ^ 52) * ulp" "2 powi (binade x + 1) = rat_of_int (2 ^ 53) * ulp"
    by (simp_all add: ulp_def power_int_diff power_int_add)
  have d: "to_double x = rat_of_int (round_even (x / ulp)) * ulp"
    using assms by (simp add: to_double_def ulp_def Let_def)
  have "rat_of_int (2 ^ 52) \<le> x / ulp" "x / ulp \<le> rat_of_int (2 ^ 53)"
    using binade_bounds [OF assms] ulp by (simp_all only: pos_le_divide_eq pos_divide_le_eq less_imp_le)
  then have "2 ^ 52 \<le> round_even (x / ulp)" "round_even (x / ulp) \<le> 2 ^ 53"
    using round_even_mono round_even_of_int by metis+
  then show "2 powi binade x \<le> to_double x" "to_double x \<le> 2 powi (binade x + 1)"
    unfolding d ulp(2,3) using ulp(1) by (intro mult_right_mono; simp only: of_int_le_iff less_imp_le)+
qed

lemma to_double_mono:
  assumes "0 \<le> x" "x \<le> y"
  shows "to_double x \<le> to_double y"
proof (cases "x = 0")
  case True
  then show ?thesis using assms to_double_nonneg [of y] by (simp add: to_double_def)
next
  case False
  with assms have pos: "0 < x" "0 < y" by linarith+
  show ?thesis
  proof (cases "binade x = binade y")
    case True
    define ulp where "ulp = (2::rat) powi (binade y - 52)"
    have "0 < ulp" by (simp add: ulp_def)
    moreover from this assms have "round_even (x / ulp) \<le> round_even (y / ulp)"
      by (intro round_even_mono divide_right_mono) simp_all
    ultimately show ?thesis
      using pos True by (simp add: to_double_def Let_def flip: ulp_def)
  next
    case False
    have "2 powi binade x < (2::rat) powi (binade y + 1)"
      using binade_bounds(1) [OF pos(1)] binade_bounds(2) [OF pos(2)] assms(2) by linarith
    then have "binade x < binade y + 1"
      using power_int_increasing [of "binade y + 1" "binade x" "2::rat"] by (meson not_le one_le_numeral)
    with False have "(2::rat) powi (binade x + 1) \<le> 2 powi binade y" by (intro power_int_increasing) simp_all
    with to_double_binade(2) [OF pos(1)] to_double_binade(1) [OF pos(2)] show ?thesis by linarith
  qed
qed

section \<open>The scaled value\<close>

text \<open>\<open>v\<close> of \<open>r\<close> units scaled to \<open>M\<close> units: two roundings.\<close>

definition scaled :: "int \<Rightarrow> int \<Rightarrow> int \<Rightarrow> rat" where
  "scaled M r v = double_mult (rat_of_int v) (double_div (rat_of_int M) (rat_of_int r))"

lemma scaled_nonneg: "0 \<le> v \<Longrightarrow> 0 \<le> M \<Longrightarrow> 0 < r \<Longrightarrow> 0 \<le> scaled M r v"
  by (simp add: scaled_def double_mult_def double_div_def to_double_nonneg)

lemma scaled_mono:
  assumes "0 \<le> v" "v \<le> v'" "0 \<le> M" "0 < r"
  shows "scaled M r v \<le> scaled M r v'"
  using assms unfolding scaled_def double_mult_def double_div_def
  by (intro to_double_mono mult_right_mono mult_nonneg_nonneg to_double_nonneg) simp_all

lemma scaled_error:
  assumes v: "0 \<le> v" "v \<le> r" and r: "0 < r" and M: "0 \<le> M" "M \<le> 16384"
  shows "\<bar>scaled M r v - rat_of_int (v * M) / rat_of_int r\<bar> < 1 / 2 ^ 36"
proof -
  define q where "q = rat_of_int M / rat_of_int r"
  define t where "t = to_double q"
  define u where "u = rat_of_int v"
  define eps :: rat where "eps = 16384 / 2 ^ 53"
  have eps: "eps \<le> 1" "3 * eps < 1 / 2 ^ 36" by (simp_all add: eps_def)
  have q: "0 \<le> q" and u: "0 \<le> u" using v r M by (simp_all add: q_def u_def)
  have uq: "u * q \<le> 16384"
  proof -
    have "u * q \<le> rat_of_int r * q" using v q by (intro mult_right_mono) (simp_all add: u_def)
    also have "\<dots> \<le> 16384" using r M by (simp add: q_def)
    finally show ?thesis .
  qed
  have t: "\<bar>t - q\<bar> \<le> q / 2 ^ 53" using to_double_error [of q] q by (simp add: t_def)
  have "\<bar>u * t - u * q\<bar> = u * \<bar>t - q\<bar>"
    using u by (simp add: abs_mult flip: right_diff_distrib)
  also have "\<dots> \<le> u * (q / 2 ^ 53)" using t u by (rule mult_left_mono)
  also have "\<dots> \<le> eps" using uq by (simp add: eps_def mult.commute [of q u])
  finally have e1: "\<bar>u * t - u * q\<bar> \<le> eps" .
  have "0 \<le> u * t" using u q to_double_nonneg [of q] by (simp add: t_def)
  moreover have "u * t \<le> 16384 + 1" using e1 uq eps(1) by linarith
  ultimately have "\<bar>u * t\<bar> / 2 ^ 53 \<le> 2 * eps" by (simp add: eps_def mult.commute [of t u])
  with to_double_error [of "u * t"] e1 eps(2) have "\<bar>to_double (u * t) - u * q\<bar> < 1 / 2 ^ 36"
    by linarith
  then show ?thesis
    by (simp add: scaled_def double_mult_def double_div_def u_def t_def q_def)
qed

lemma floor_of_quotient: "\<lfloor>rat_of_int a / rat_of_int b\<rfloor> = a div b"
  by (rule floor_divide_of_int_eq)

text \<open>The value is the exact quotient rounded down, except that an exact quotient that is an
  integer may come out one too small.\<close>

lemma floor_scaled:
  assumes v: "0 \<le> v" "v \<le> r" and r: "0 < r" "r < 2 ^ 31" and M: "0 \<le> M" "M \<le> 16384"
  shows "\<lfloor>scaled M r v\<rfloor> = v * M div r \<or> (r dvd v * M \<and> \<lfloor>scaled M r v\<rfloor> = v * M div r - 1)"
proof -
  define n where "n = v * M div r"
  define d where "d = v * M mod r"
  have E: "rat_of_int (v * M) / rat_of_int r = rat_of_int n + rat_of_int d / rat_of_int r"
  proof -
    have "rat_of_int (v * M) = rat_of_int (n * r + d)" by (simp only: n_def d_def div_mult_mod_eq)
    then show ?thesis using r by (simp add: add_divide_distrib)
  qed
  have err: "\<bar>scaled M r v - (rat_of_int n + rat_of_int d / rat_of_int r)\<bar> < 1 / 2 ^ 36"
    using scaled_error [OF v r(1) M] by (simp only: E)
  show ?thesis
  proof (cases "d = 0")
    case True
    have "(1::rat) / 2 ^ 36 < 1" by simp
    with err True have "\<bar>scaled M r v - rat_of_int n\<bar> < 1" by simp
    then have "\<lfloor>scaled M r v\<rfloor> = n \<or> \<lfloor>scaled M r v\<rfloor> = n - 1" by linarith
    moreover have "r dvd v * M" using True by (simp add: d_def dvd_eq_mod_eq_0)
    ultimately show ?thesis by (auto simp: n_def)
  next
    case False
    have d: "0 < d" "d < r"
      using False pos_mod_sign [OF r(1), of "v * M"] pos_mod_bound [OF r(1), of "v * M"]
      by (simp_all add: d_def)
    have "rat_of_int r < rat_of_int (2 ^ 31)" using r(2) by (simp only: of_int_less_iff)
    then have "1 / 2 ^ 31 \<le> 1 / rat_of_int r" using r(1) by (intro divide_left_mono) simp_all
    moreover have "1 / rat_of_int r \<le> rat_of_int d / rat_of_int r"
      using d r by (intro divide_right_mono) simp_all
    moreover have "rat_of_int d / rat_of_int r \<le> 1 - 1 / rat_of_int r"
    proof -
      have "rat_of_int d \<le> rat_of_int r - 1" using d by linarith
      then have "rat_of_int d / rat_of_int r \<le> (rat_of_int r - 1) / rat_of_int r"
        using r(1) by (intro divide_right_mono) simp_all
      then show ?thesis using r(1) by (simp add: diff_divide_distrib)
    qed
    moreover have "(1::rat) / 2 ^ 36 < 1 / 2 ^ 31" by simp
    ultimately have "1 / 2 ^ 36 < rat_of_int d / rat_of_int r"
      "rat_of_int d / rat_of_int r < 1 - 1 / 2 ^ 36" by linarith+
    with err have "rat_of_int n \<le> scaled M r v" "scaled M r v < rat_of_int n + 1"
      unfolding abs_less_iff by (simp_all only: add.commute) linarith+
    then have "\<lfloor>scaled M r v\<rfloor> = n" by (simp add: floor_eq_iff)
    then show ?thesis by (simp add: n_def)
  qed
qed

lemma axis_max_bounds: "0 \<le> axis_max ax" "axis_max ax \<le> 16384" "0 < axis_max ax"
  by (cases ax; simp add: axis_max_def)+

lemma int_minus_in_range:
  assumes "0 \<le> sint a - sint b" "sint a - sint b < 2 ^ 31"
  shows "int_minus a b = Inr (sint a - sint b)"
  using assms by (simp add: int_minus_def in_int32_def)

text \<open>The range of a device as the function sees it.\<close>

definition native_range :: "in_device_s \<Rightarrow> axis \<Rightarrow> int" where
  "native_range dev ax = sint (maximum (axis_range dev ax)) - sint (minimum (axis_range dev ax))"

definition native_offset :: "in_device_s \<Rightarrow> i32 \<Rightarrow> axis \<Rightarrow> int" where
  "native_offset dev val ax = sint val - sint (minimum (axis_range dev ax))"

lemma scaled_floor_range:
  assumes v: "0 \<le> v" "v \<le> r" and r: "0 < r" "r < 2 ^ 31" and M: "0 \<le> M" "M \<le> 16384"
  shows "0 \<le> \<lfloor>scaled M r v\<rfloor>" "\<lfloor>scaled M r v\<rfloor> \<le> M"
proof -
  show "0 \<le> \<lfloor>scaled M r v\<rfloor>" using scaled_nonneg [OF v(1) M(1) r(1)] by simp
  have "v * M div r \<le> r * M div r"
    using v r M by (intro zdiv_mono1 mult_right_mono) simp_all
  also have "\<dots> = M" using r by simp
  finally show "\<lfloor>scaled M r v\<rfloor> \<le> M" using floor_scaled [OF v r M] by auto
qed

lemma transform_in_range:
  assumes v: "0 \<le> native_offset dev val ax" "native_offset dev val ax \<le> native_range dev ax"
    and r: "0 < native_range dev ax" "native_range dev ax < 2 ^ 31"
  shows "transform_touch_coordinates dev val ax =
    Inr (word_of_int \<lfloor>scaled (axis_max ax) (native_range dev ax) (native_offset dev val ax)\<rfloor>)"
proof -
  let ?f = "\<lfloor>scaled (axis_max ax) (native_range dev ax) (native_offset dev val ax)\<rfloor>"
  have f: "0 \<le> ?f" "?f \<le> 16384"
    using scaled_floor_range [OF v r axis_max_bounds(1,2), of ax] axis_max_bounds(2) [of ax]
    by linarith+
  have "int_of_double (scaled (axis_max ax) (native_range dev ax) (native_offset dev val ax)) = Inr ?f"
    using f scaled_nonneg [OF v(1) axis_max_bounds(1) [of ax] r(1)]
    by (simp add: int_of_double_def trunc_rat_def in_int32_def)
  moreover have
    "int_minus val (minimum (axis_range dev ax)) = Inr (native_offset dev val ax)"
    "int_minus (maximum (axis_range dev ax)) (minimum (axis_range dev ax)) = Inr (native_range dev ax)"
    unfolding native_offset_def native_range_def
    by (rule int_minus_in_range; use v r in \<open>simp add: native_offset_def native_range_def\<close>)+
  ultimately show ?thesis
    using r(1) unfolding transform_touch_coordinates_def by (simp add: scaled_def)
qed

lemma sint_word_of_small:
  assumes "0 \<le> i" "i \<le> 16384"
  shows "sint (word_of_int i :: i32) = i"
  using assms by (simp add: sint_sbintrunc' signed_take_bit_int_eq_self)

lemma transform_value:
  assumes "0 \<le> native_offset dev val ax" "native_offset dev val ax \<le> native_range dev ax"
    "0 < native_range dev ax" "native_range dev ax < 2 ^ 31"
  obtains w where "transform_touch_coordinates dev val ax = Inr w"
    "sint w = \<lfloor>scaled (axis_max ax) (native_range dev ax) (native_offset dev val ax)\<rfloor>"
    "0 \<le> sint w" "sint w \<le> axis_max ax"
proof -
  let ?f = "\<lfloor>scaled (axis_max ax) (native_range dev ax) (native_offset dev val ax)\<rfloor>"
  have f: "0 \<le> ?f" "?f \<le> axis_max ax"
    using scaled_floor_range [OF assms axis_max_bounds(1,2), of ax] by blast+
  then have "sint (word_of_int ?f :: i32) = ?f"
    using axis_max_bounds(2) [of ax] by (intro sint_word_of_small) linarith+
  with f transform_in_range [OF assms] that show thesis by simp
qed

section \<open>Properties\<close>

text \<open>C19: For a coordinate inside the device's range the transformed value lies in the range of
  the virtual touchscreen and is the exact scaled coordinate rounded down, in spite of two
  floating-point roundings; the only exception is an exact quotient that is an integer, which may
  come out one too small. Coordinates keep their order.\<close>

theorem transform_touch_exact:
  assumes "0 \<le> native_offset dev val ax" and "native_offset dev val ax \<le> native_range dev ax"
    and "0 < native_range dev ax" and "native_range dev ax < 2 ^ 31"
  shows "\<exists>w. transform_touch_coordinates dev val ax = Inr w \<and> 0 \<le> sint w \<and> sint w \<le> axis_max ax \<and>
    (sint w = native_offset dev val ax * axis_max ax div native_range dev ax \<or>
     native_range dev ax dvd native_offset dev val ax * axis_max ax \<and>
     sint w = native_offset dev val ax * axis_max ax div native_range dev ax - 1) \<and>
    (\<forall>val'. sint val \<le> sint val' \<and> native_offset dev val' ax \<le> native_range dev ax \<longrightarrow>
       (\<exists>w'. transform_touch_coordinates dev val' ax = Inr w' \<and> sint w \<le> sint w'))"
proof -
  let ?f = "\<lambda>val. \<lfloor>scaled (axis_max ax) (native_range dev ax) (native_offset dev val ax)\<rfloor>"
  obtain w where w: "transform_touch_coordinates dev val ax = Inr w" "sint w = ?f val" "0 \<le> sint w" "sint w \<le> axis_max ax"
    by (rule transform_value [OF assms])
  have "\<exists>w'. transform_touch_coordinates dev val' ax = Inr w' \<and> sint w \<le> sint w'"
    if le: "sint val \<le> sint val'" and inside: "native_offset dev val' ax \<le> native_range dev ax" for val'
  proof -
    have off: "native_offset dev val ax \<le> native_offset dev val' ax" using le by (simp add: native_offset_def)
    with assms(1) have "0 \<le> native_offset dev val' ax" by linarith
    then obtain w' where "transform_touch_coordinates dev val' ax = Inr w'" "sint w' = ?f val'"
      using transform_value inside assms(3,4) by metis
    moreover have "?f val \<le> ?f val'" by (intro floor_mono scaled_mono assms(1,3) off axis_max_bounds(1))
    ultimately show ?thesis using w(2) by simp
  qed
  with w floor_scaled [OF assms axis_max_bounds(1,2), of ax] show ?thesis by auto
qed

theorem transform_touch_exact_witness:
  "transform_touch_coordinates \<lparr>dev_fd = 3, dev_name = ''panel'', dev_type = TOUCHSCREEN,
      abs_range_x = \<lparr>minimum = 0, maximum = 4095\<rparr>, abs_range_y = \<lparr>minimum = 0, maximum = 4095\<rparr>\<rparr>
     1000 X_AXIS = Inr 3907"
proof -
  let ?d = "\<lparr>dev_fd = 3, dev_name = ''panel'', dev_type = TOUCHSCREEN,
      abs_range_x = \<lparr>minimum = 0, maximum = 4095\<rparr>, abs_range_y = \<lparr>minimum = 0, maximum = 4095\<rparr>\<rparr>"
  have "native_offset ?d 1000 X_AXIS = 1000" "native_range ?d X_AXIS = 4095" "axis_max X_AXIS = 16000"
    by (simp_all add: native_offset_def native_range_def axis_range_def axis_max_def)
  note eqs = this
  have "\<exists>w. transform_touch_coordinates ?d 1000 X_AXIS = Inr w \<and> sint w = 3907"
    using transform_touch_exact [of ?d 1000 X_AXIS] unfolding eqs by simp blast
  then obtain w where "transform_touch_coordinates ?d 1000 X_AXIS = Inr w" "sint w = 3907" by blast
  moreover have "w = word_of_int (sint w)" by simp
  ultimately show ?thesis by simp
qed

text \<open>A device whose reported range is empty or inverted never fails on a representable
  offset: every coordinate becomes 0.\<close>

lemma transform_touch_degenerate:
  assumes "int_minus val (minimum (axis_range dev ax)) = Inr v"
    and "int_minus (maximum (axis_range dev ax)) (minimum (axis_range dev ax)) = Inr r" and "r \<le> 0"
  shows "transform_touch_coordinates dev val ax = Inr 0"
  using assms by (simp add: transform_touch_coordinates_def double_mult_def to_double_def
      int_of_double_def trunc_rat_def in_int32_def)

text \<open>The exception is real: on a panel with 20 positions per axis the last position
  becomes 15999 and not the 16000 that stands for the edge.\<close>

lemma transform_touch_edge_off_by_one:
  "transform_touch_coordinates \<lparr>dev_fd = 3, dev_name = ''panel'', dev_type = TOUCHSCREEN,
      abs_range_x = \<lparr>minimum = 0, maximum = 19\<rparr>, abs_range_y = \<lparr>minimum = 0, maximum = 19\<rparr>\<rparr>
     19 X_AXIS = Inr 15999"
proof -
  let ?d = "\<lparr>dev_fd = 3, dev_name = ''panel'', dev_type = TOUCHSCREEN,
      abs_range_x = \<lparr>minimum = 0, maximum = 19\<rparr>, abs_range_y = \<lparr>minimum = 0, maximum = 19\<rparr>\<rparr>"
  have "binade (16000 / 19) = 9" "binade (140737488355327991 / 8796093022208) = 13"
    by (rule binade_eqI; simp)+
  then have eqs: "to_double (16000 / 19) = 7407236229227789 / 8796093022208"
    "to_double (140737488355327991 / 8796093022208) = 8796093022207999 / 549755813888"
    using floor_of_quotient [of 140737488355328000 19] floor_of_quotient [of 140737488355327991 16]
    by (simp_all add: to_double_def round_even_def)
  have "19 * (7407236229227789 / 8796093022208) = (140737488355327991 / 8796093022208 :: rat)" by simp
  then have s: "scaled 16000 19 19 = 8796093022207999 / 549755813888"
    unfolding scaled_def double_mult_def double_div_def of_int_numeral by (simp only: eqs)
  have "\<lfloor>scaled 16000 19 19\<rfloor> = 15999"
    unfolding s using floor_of_quotient [of 8796093022207999 549755813888] by simp
  moreover have
    "native_offset ?d 19 X_AXIS = 19" "native_range ?d X_AXIS = 19" "axis_max X_AXIS = 16000"
    by (simp_all add: native_offset_def native_range_def axis_range_def axis_max_def)
  ultimately show ?thesis using transform_in_range [of ?d 19 X_AXIS] by simp
qed

end
