(* ===== verification/Device_Discovery.thy ===== *)
theory Device_Discovery
  imports Syscalls Touch_Transform "HOL-Library.Sublist"
begin

text \<open>
  The recorder object of \<open>recorder/TestRunnerRecorder.cpp\<close>: its state (the record
  \<open>recorder\<close>), the constructor with the search for input devices (\<open>findDevices\<close>) and the
  set-up of the keyboard state, the destructor, \<open>listDevices\<close> and
  \<open>setDevicesToRecord\<close>. Shown here: how a device is classified, that names always fit their
  50 bytes, that the device table only holds descriptors the search opened, that the search
  returns whenever the directory ends, and what the destructor closes.
\<close>

section \<open>State\<close>

text \<open>\<open>struct input_record_s\<close>\<close>

record input_record_s =
  ts_abs :: int
  rec_dev_type :: device_type
  input_type :: u16
  input_code :: u16
  input_val :: i32
  keysym :: u32

text \<open>
  libxkbcommon's side of the recorder: whether the context, the keymap and the keyboard state can
  be created, and the symbol of a key. The keyboard state is represented by the key updates it
  has received, newest first, so \<open>rx_sym\<close> is any function of them.
\<close>

record rec_xkb =
  rx_context :: bool
  rx_keymap :: bool
  rx_state :: bool
  rx_sym :: "(nat \<times> bool) list \<Rightarrow> nat \<Rightarrow> u32"

text \<open>The members of the class. A file is the string written to it, by path; the three XKB
  pointers are two flags and the keyboard state; \<open>xkb_released\<close> says that the destructor has
  given the objects behind them back.\<close>

record recorder = sys_state +
  available_devices :: "in_device_s list"
  m_input_buf :: "input_record_s list"
  input_dir :: string
  m_filename :: string
  m_recording_path :: string
  m_stop :: bool
  m_recording_length :: u32
  m_continuous :: bool
  m_start_time :: int
  m_stop_time :: int
  m_device_mask :: u64
  rec_xkb_ctx :: bool
  rec_xkb_keymap :: bool
  m_xkb_state :: "(nat \<times> bool) list option"
  xkb_released :: bool
  files :: "string \<Rightarrow> string option"

section \<open>Classification\<close>

definition byte_at :: "u8 list \<Rightarrow> nat \<Rightarrow> u8" where
  "byte_at bs i = (if i < length bs then bs ! i else 0)"

text \<open>\<open>(bytes[n / 8] >> (n % 8)) & 1\<close>, which is the same test as
  \<open>bytes[n / 8] & (1 << (n % 8))\<close>.\<close>

definition has_bit :: "u8 list \<Rightarrow> int \<Rightarrow> bool" where
  "has_bit bs n = bit (byte_at bs (nat n div 8)) (nat n mod 8)"

text \<open>The type of a device from its event capabilities and its axis capabilities; \<open>None\<close> is
  a skipped device. The tests for \<open>ABS_X\<close> and \<open>ABS_Y\<close> read the event capabilities, as
  the code does.\<close>

definition classify_device :: "u8 list \<Rightarrow> u8 list \<Rightarrow> device_type option" where
  "classify_device device_capabilities abs_capabilities =
     (if has_bit device_capabilities EV_ABS then
        (let has_mt_slot = has_bit abs_capabilities ABS_MT_SLOT;
             has_mt_tracking_id = has_bit abs_capabilities ABS_MT_TRACKING_ID;
             has_abs_x = has_bit device_capabilities ABS_X;
             has_abs_y = has_bit device_capabilities ABS_Y
         in if has_mt_slot \<and> has_mt_tracking_id then Some MULTITOUCHSCREEN
            else if has_abs_x \<and> has_abs_y then Some TOUCHSCREEN
            else None)
      else if has_bit device_capabilities EV_REL then Some MOUSE
      else if has_bit device_capabilities EV_KEY then Some KEYBOARD
      else None)"

section \<open>Searching for devices\<close>

text \<open>\<open>ioctl(fd, EVIOCGABS(axis), &range)\<close> into a zeroed structure, with or without a warning
  when it fails.\<close>

definition get_abs ::
  "kernel \<Rightarrow> int \<Rightarrow> int \<Rightarrow> string option \<Rightarrow> 'a recorder_scheme \<Rightarrow> input_absinfo \<times> 'a recorder_scheme" where
  "get_abs k fd ax warning s =
     (case sys_call k (Ioctl fd (EVIOCGABS ax)) s of (result, s1) \<Rightarrow>
        if result < 0
        then (zero_absinfo, case warning of Some m \<Rightarrow> log_error m s1 | None \<Rightarrow> s1)
        else (k_abs k (hist s1), s1))"

text \<open>The axis ranges that are read for each type of device.\<close>

definition get_ranges ::
  "kernel \<Rightarrow> int \<Rightarrow> device_type \<Rightarrow> 'a recorder_scheme \<Rightarrow> (input_absinfo \<times> input_absinfo) \<times> 'a recorder_scheme" where
  "get_ranges k fd t s =
     (case t of
        MULTITOUCHSCREEN \<Rightarrow>
          (case get_abs k fd ABS_MT_POSITION_X (Some ''Couldn't retrieve device abs range x'') s of
             (rx, s1) \<Rightarrow>
               (case get_abs k fd ABS_MT_POSITION_Y (Some ''Couldn't retrieve device abs range y'') s1 of
                  (ry, s2) \<Rightarrow> ((rx, ry), s2)))
      | TOUCHSCREEN \<Rightarrow>
          (case get_abs k fd ABS_X (Some ''Couldn't retrieve device abs range x'') s of
             (rx, s1) \<Rightarrow>
               (case get_abs k fd ABS_Y (Some ''Couldn't retrieve device abs range y'') s1 of
                  (ry, s2) \<Rightarrow> ((rx, ry), s2)))
      | MOUSE \<Rightarrow> (case get_abs k fd ABS_X None s of (rx, s1) \<Rightarrow> ((rx, zero_absinfo), s1))
      | _ \<Rightarrow> ((zero_absinfo, zero_absinfo), s))"

text \<open>What is done with an opened device: read its name and capabilities, classify it and add
  it to the table, or skip it.\<close>

definition probe_device :: "kernel \<Rightarrow> int \<Rightarrow> 'a recorder_scheme \<Rightarrow> 'a recorder_scheme" where
  "probe_device k fd s =
     (let s1 = call_or_log k (Ioctl fd (EVIOCGNAME 50)) ''Couldn't retrieve device name'' s;
          name = strncpy_term (k_text k (hist s1)) 50;
          s2 = call_or_log k (Ioctl fd (EVIOCGBIT 0 150)) ''Couldn't retrieve device capabilities'' s1;
          device_capabilities = k_bytes k (hist s2);
          s3 = call_or_log k (Ioctl fd (EVIOCGBIT EV_ABS 150)) ''Couldn't retrieve device abs capabilities'' s2;
          abs_capabilities = k_bytes k (hist s3)
      in case classify_device device_capabilities abs_capabilities of
           None \<Rightarrow> s3
         | Some t \<Rightarrow>
             (case get_ranges k fd t s3 of ((rx, ry), s4) \<Rightarrow>
                s4\<lparr>available_devices := available_devices s4 @
                     [\<lparr>dev_fd = fd, dev_name = name, dev_type = t, abs_range_x = rx, abs_range_y = ry\<rparr>]\<rparr>))"

text \<open>One directory entry.\<close>

definition process_entry :: "kernel \<Rightarrow> dirent \<Rightarrow> 'a recorder_scheme \<Rightarrow> 'a recorder_scheme" where
  "process_entry k ent s =
     (if is_chr ent \<and> has_prefix ''event'' (d_name ent)
      then (case sys_call k (Open (input_dir s @ ''/'' @ d_name ent) O_RDONLY_NONBLOCK) s of (fd, s1) \<Rightarrow>
              if fd \<noteq> - 1 then probe_device k fd s1
              else log_error ''Error opening '' s1)
      else s)"

text \<open>The loop \<open>while ((ent = readdir(dir)) != nullptr)\<close>. Whether it ends is up to the
  directory.\<close>

partial_function (option) entry_loop :: "kernel \<Rightarrow> 'a recorder_scheme \<Rightarrow> 'a recorder_scheme option" where
  "entry_loop k s =
     (case sys_call k Readdir s of (r, s1) \<Rightarrow>
        (case k_dirent k (hist s1) of
           None \<Rightarrow> Some s1
         | Some ent \<Rightarrow> entry_loop k (process_entry k ent s1)))"

definition findDevices :: "kernel \<Rightarrow> 'a recorder_scheme \<Rightarrow> 'a recorder_scheme option" where
  "findDevices k s =
     (case sys_call k (Opendir (input_dir s)) s of (dir, s1) \<Rightarrow>
        if dir \<noteq> 0
        then (case entry_loop k s1 of None \<Rightarrow> None | Some s2 \<Rightarrow> Some (snd (sys_call k Closedir s2)))
        else Some (log_error ''Error opening directory '' s1))"

section \<open>Constructor and destructor\<close>

definition rec_setup_xkb :: "rec_xkb \<Rightarrow> 'a recorder_scheme \<Rightarrow> 'a recorder_scheme" where
  "rec_setup_xkb x s =
     (if \<not> rx_context x then log_error ''Failed to create XKB context'' s
      else if \<not> rx_keymap x
      then log_error ''XKB keymap compilation failed'' (s\<lparr>rec_xkb_ctx := False, rec_xkb_keymap := False\<rparr>)
      else if \<not> rx_state x
      then log_error ''Failed to create XKB state'' (s\<lparr>rec_xkb_ctx := False, rec_xkb_keymap := False\<rparr>)
      else s\<lparr>rec_xkb_ctx := True, rec_xkb_keymap := True, m_xkb_state := Some []\<rparr>)"

text \<open>\<open>std::filesystem::path(p).filename()\<close>: what follows the last slash.\<close>

definition path_filename :: "string \<Rightarrow> string" where
  "path_filename p = rev (takeWhile (\<lambda>c. c \<noteq> CHR ''/'') (rev p))"

text \<open>The member initialisers. The product \<open>length * 1000\<close> is a 32-bit unsigned one.\<close>

definition recorder_init :: "u32 \<Rightarrow> bool \<Rightarrow> string \<Rightarrow> recorder" where
  "recorder_init len cont dir =
     \<lparr>hist = [], errs = [], available_devices = [], m_input_buf = [], input_dir = dir,
      m_filename = [], m_recording_path = [], m_stop = True, m_recording_length = len * 1000,
      m_continuous = cont, m_start_time = 0, m_stop_time = 0,
      m_device_mask = 0xFFFFFFFFFFFFFFFF, rec_xkb_ctx = False, rec_xkb_keymap = False,
      m_xkb_state = None, xkb_released = False, files = (\<lambda>_. None)\<rparr>"

definition set_filename :: "string \<Rightarrow> 'a recorder_scheme \<Rightarrow> 'a recorder_scheme" where
  "set_filename filename s =
     (if \<not> m_continuous s
      then (let f = ''/tmp/'' @ path_filename filename @ ''.rrc''
            in s\<lparr>m_filename := f, m_recording_path := f\<rparr>)
      else s\<lparr>m_filename := filename\<rparr>)"

definition construct_recorder ::
  "kernel \<Rightarrow> rec_xkb \<Rightarrow> string \<Rightarrow> u32 \<Rightarrow> bool \<Rightarrow> string \<Rightarrow> recorder option" where
  "construct_recorder k x filename len cont dir =
     (case findDevices k (recorder_init len cont dir) of
        None \<Rightarrow> None
      | Some s \<Rightarrow> Some (set_filename filename (rec_setup_xkb x s)))"

text \<open>The end of the destructor; stopping a running recording is in the theory of the threads.\<close>

definition close_devices :: "kernel \<Rightarrow> 'a recorder_scheme \<Rightarrow> 'a recorder_scheme" where
  "close_devices k s = fold (\<lambda>d s. snd (sys_call k (Close (dev_fd d)) s)) (available_devices s) s"

text \<open>The pointers are not cleared; a null pointer is not released, nor is it ever used.\<close>

definition release_xkb :: "'a recorder_scheme \<Rightarrow> 'a recorder_scheme" where
  "release_xkb s = s\<lparr>xkb_released := True\<rparr>"

section \<open>Choosing devices\<close>

definition listDevices :: "'a recorder_scheme \<Rightarrow> in_device_s list" where
  "listDevices s = available_devices s"

text \<open>The inner loop of \<open>setDevicesToRecord\<close>.\<close>

definition record_device :: "in_device_s list \<Rightarrow> in_device_s \<Rightarrow> bool" where
  "record_device devices d =
     fold (\<lambda>device rec. if dev_fd d = dev_fd device then True else rec) devices False"

text \<open>The outer loop from index \<open>i\<close> on. Shifting the 64-bit one by 64 or more is
  undefined.\<close>

fun mask_loop :: "in_device_s list \<Rightarrow> nat \<Rightarrow> in_device_s list \<Rightarrow> u64 \<Rightarrow> u64 result" where
  "mask_loop devices i [] msk = Inr msk"
| "mask_loop devices i (d # ds) msk =
     (if record_device devices d
      then (if i < 64 then mask_loop devices (Suc i) ds (or msk (push_bit i 1))
            else Inl Shift_out_of_range)
      else mask_loop devices (Suc i) ds msk)"

definition rec_setDevicesToRecord ::
  "in_device_s list \<Rightarrow> 'a recorder_scheme \<Rightarrow> 'a recorder_scheme result" where
  "rec_setDevicesToRecord devices s =
     bind_result (mask_loop devices 0 (available_devices s) 0) (\<lambda>msk. Inr (s\<lparr>m_device_mask := msk\<rparr>))"

text \<open>The loop of \<open>Record\<close> that collects the devices the msk selects, from index
  \<open>i\<close> on.\<close>

fun select_devices :: "u64 \<Rightarrow> nat \<Rightarrow> in_device_s list \<Rightarrow> in_device_s list result" where
  "select_devices msk i [] = Inr []"
| "select_devices msk i (d # ds) =
     (if i < 64
      then bind_result (select_devices msk (Suc i) ds) (\<lambda>sel. Inr (if bit msk i then d # sel else sel))
      else Inl Shift_out_of_range)"

section \<open>Facts about the search\<close>

declare entry_loop.simps [code]

text \<open>The descriptors a history has opened and closed, oldest first.\<close>

fun opened :: "kernel \<Rightarrow> syscall list \<Rightarrow> int list" where
  "opened k [] = []"
| "opened k (c # h) =
     opened k h @ (case c of Open p f \<Rightarrow> if k_ret k (c # h) = - 1 then [] else [k_ret k (c # h)] | _ \<Rightarrow> [])"

fun closed :: "syscall list \<Rightarrow> int list" where
  "closed [] = []"
| "closed (c # h) = closed h @ (case c of Close fd \<Rightarrow> [fd] | _ \<Rightarrow> [])"

text \<open>A well-formed entry of the device table.\<close>

definition device_ok :: "in_device_s \<Rightarrow> bool" where
  "device_ok d \<longleftrightarrow> dev_type d \<noteq> UNKNOWN \<and> length (dev_name d) < 50 \<and> CHR 0x00 \<notin> set (dev_name d) \<and>
     (dev_type d = KEYBOARD \<longrightarrow> abs_range_x d = zero_absinfo \<and> abs_range_y d = zero_absinfo)"

definition table_inv :: "kernel \<Rightarrow> 'a recorder_scheme \<Rightarrow> bool" where
  "table_inv k s \<longleftrightarrow>
     (\<forall>d \<in> set (available_devices s). device_ok d) \<and>
     subseq (map dev_fd (available_devices s)) (opened k (hist s)) \<and> closed (hist s) = []"

lemma classify_device_known: "classify_device dc ac = Some t \<Longrightarrow> t \<noteq> UNKNOWN"
  by (auto simp: classify_device_def Let_def split: if_splits)

lemma call_or_log_rec [frame_simps]:
  "available_devices (call_or_log k c m s) = available_devices s"
  "input_dir (call_or_log k c m s) = input_dir s"
  by (simp_all add: call_or_log_def sys_call_def log_error_def)

lemma get_abs_effect [simp]:
  "hist (snd (get_abs k fd ax w s)) = Ioctl fd (EVIOCGABS ax) # hist s"
  "available_devices (snd (get_abs k fd ax w s)) = available_devices s"
  by (simp_all add: get_abs_def sys_call_def log_error_def split: option.split)

text \<open>The axes whose ranges are read, last one first.\<close>

definition range_axes :: "device_type \<Rightarrow> int list" where
  "range_axes t =
     (case t of MULTITOUCHSCREEN \<Rightarrow> [ABS_MT_POSITION_Y, ABS_MT_POSITION_X]
      | TOUCHSCREEN \<Rightarrow> [ABS_Y, ABS_X] | MOUSE \<Rightarrow> [ABS_X] | _ \<Rightarrow> [])"

lemma get_ranges_effect:
  "hist (snd (get_ranges k fd t s)) = map (\<lambda>a. Ioctl fd (EVIOCGABS a)) (range_axes t) @ hist s"
  "available_devices (snd (get_ranges k fd t s)) = available_devices s"
  "t = KEYBOARD \<Longrightarrow> fst (get_ranges k fd t s) = (zero_absinfo, zero_absinfo)"
  by (cases t; simp add: get_ranges_def range_axes_def case_prod_beta)+

lemma ioctls_neutral:
  "opened k (map (\<lambda>a. Ioctl fd (q a)) as @ h) = opened k h"
  "closed (map (\<lambda>a. Ioctl fd (q a)) as @ h) = closed h"
  by (induction as) simp_all

text \<open>Probing a device makes no call but \<open>ioctl\<close> and adds the device or not.\<close>

lemma probe_device_effect:
  obtains (skip) "available_devices (probe_device k fd s) = available_devices s"
    "opened k (hist (probe_device k fd s)) = opened k (hist s)"
    "closed (hist (probe_device k fd s)) = closed (hist s)"
  | (add) d where "available_devices (probe_device k fd s) = available_devices s @ [d]"
    "device_ok d" "dev_fd d = fd" "opened k (hist (probe_device k fd s)) = opened k (hist s)"
    "closed (hist (probe_device k fd s)) = closed (hist s)"
proof -
  define s1 where "s1 = call_or_log k (Ioctl fd (EVIOCGNAME 50)) ''Couldn't retrieve device name'' s"
  define s2 where "s2 = call_or_log k (Ioctl fd (EVIOCGBIT 0 150)) ''Couldn't retrieve device capabilities'' s1"
  define s3 where "s3 = call_or_log k (Ioctl fd (EVIOCGBIT EV_ABS 150))
    ''Couldn't retrieve device abs capabilities'' s2"
  have s3: "opened k (hist s3) = opened k (hist s)" "closed (hist s3) = closed (hist s)"
    "available_devices s3 = available_devices s"
    by (simp_all add: s1_def s2_def s3_def hist_simps frame_simps)
  define name where "name = strncpy_term (k_text k (hist s1)) 50"
  have name: "length name < 50" "CHR 0x00 \<notin> set name"
    by (simp_all add: name_def length_strncpy_term strncpy_term_no_nul)
  have probe: "probe_device k fd s =
      (case classify_device (k_bytes k (hist s2)) (k_bytes k (hist s3)) of None \<Rightarrow> s3
       | Some t \<Rightarrow> (case get_ranges k fd t s3 of ((rx, ry), s4) \<Rightarrow>
           s4\<lparr>available_devices := available_devices s4 @
             [\<lparr>dev_fd = fd, dev_name = name, dev_type = t, abs_range_x = rx, abs_range_y = ry\<rparr>]\<rparr>))"
    by (simp only: probe_device_def Let_def s1_def s2_def s3_def name_def)
  show thesis
  proof (cases "classify_device (k_bytes k (hist s2)) (k_bytes k (hist s3))")
    case None
    with s3 show thesis by (intro skip) (simp_all add: probe)
  next
    case (Some t)
    obtain rx ry s4 where r: "get_ranges k fd t s3 = ((rx, ry), s4)" by (metis prod.collapse)
    have "t = KEYBOARD \<longrightarrow> rx = zero_absinfo \<and> ry = zero_absinfo"
      using get_ranges_effect(3) [of t k fd s3] r by auto
    then show thesis
      by (intro add [of "\<lparr>dev_fd = fd, dev_name = name, dev_type = t, abs_range_x = rx, abs_range_y = ry\<rparr>"])
        (use get_ranges_effect(1,2) [of k fd t s3] in \<open>simp_all add: probe Some r s3 name device_ok_def
          ioctls_neutral classify_device_known [OF Some]\<close>)
  qed
qed

lemma process_entry_inv:
  assumes "table_inv k s"
  shows "table_inv k (process_entry k ent s)"
proof -
  have "table_inv k (probe_device k fd (s\<lparr>hist := Open p f # hist s\<rparr>))"
    if "k_ret k (Open p f # hist s) = fd" "fd \<noteq> - 1" for p f fd
    by (rule probe_device_effect [of k fd "s\<lparr>hist := Open p f # hist s\<rparr>"])
      (use assms that in \<open>auto simp: table_inv_def intro: list_emb_append_mono subseq_rev_drop_many\<close>)
  with assms show ?thesis
    by (auto simp: process_entry_def sys_call_def table_inv_def log_error_def)
qed

text \<open>A loop that returns has kept the invariant.\<close>

lemma entry_loop_inv:
  assumes "entry_loop k s = Some s'" "table_inv k s"
  shows "table_inv k s'"
proof -
  have "table_inv k s \<longrightarrow> table_inv k s'"
  proof (rule entry_loop.raw_induct [OF _ assms(1)])
    fix loop :: "kernel \<Rightarrow> 'a recorder_scheme \<Rightarrow> 'a recorder_scheme option" and k s s'
    assume IH: "\<And>k s s'. loop k s = Some s' \<Longrightarrow> table_inv k s \<longrightarrow> table_inv k s'"
      and body: "(case sys_call k Readdir s of (r, s1) \<Rightarrow>
        (case k_dirent k (hist s1) of None \<Rightarrow> Some s1 | Some ent \<Rightarrow> loop k (process_entry k ent s1))) = Some s'"
    show "table_inv k s \<longrightarrow> table_inv k s'"
    proof
      assume "table_inv k s"
      then have "table_inv k (s\<lparr>hist := Readdir # hist s\<rparr>)" by (simp add: table_inv_def)
      with body IH show "table_inv k s'"
        by (auto simp: sys_call_def dest: process_entry_inv split: option.splits)
    qed
  qed
  with assms(2) show ?thesis by blast
qed

lemma findDevices_inv:
  assumes "findDevices k s = Some s'" "table_inv k s"
  shows "table_inv k s'"
proof -
  have s: "table_inv k (s\<lparr>hist := Opendir d # hist s\<rparr>)" for d
    using assms(2) by (simp add: table_inv_def)
  have "table_inv k (u\<lparr>hist := Closedir # hist u\<rparr>)"
    if "entry_loop k (s\<lparr>hist := Opendir d # hist s\<rparr>) = Some u" for u d
    using entry_loop_inv [OF that s] by (simp add: table_inv_def)
  with assms show ?thesis
    by (auto simp: findDevices_def sys_call_def table_inv_def log_error_def split: if_splits option.splits)
qed

lemma set_up_frame [frame_simps]:
  "available_devices (set_filename f (rec_setup_xkb x s)) = available_devices s"
  "hist (set_filename f (rec_setup_xkb x s)) = hist s"
  by (simp_all add: set_filename_def rec_setup_xkb_def log_error_def Let_def)

lemma construct_recorder_inv:
  assumes "construct_recorder k x filename len cont dir = Some s"
  shows "table_inv k s"
proof -
  obtain u where "findDevices k (recorder_init len cont dir) = Some u"
    "s = set_filename filename (rec_setup_xkb x u)"
    using assms by (auto simp: construct_recorder_def split: option.splits)
  moreover have "table_inv k (recorder_init len cont dir)"
    by (simp add: table_inv_def recorder_init_def)
  ultimately show ?thesis
    using findDevices_inv by (fastforce simp: table_inv_def frame_simps)
qed

lemma close_devices_hist:
  "hist (close_devices k s) = rev (map (Close \<circ> dev_fd) (available_devices s)) @ hist s"
  unfolding close_devices_def by (rule fold_call_hist) (simp add: o_def)

lemma closed_append: "closed (g @ h) = closed h @ closed g"
  by (induction g) simp_all

lemma closed_closes: "closed (rev (map (Close \<circ> dev_fd) ds)) = map dev_fd ds"
  by (induction ds) (simp_all add: closed_append)

section \<open>The search ends when the directory ends\<close>

definition readdirs :: "syscall list \<Rightarrow> nat" where
  "readdirs h = length (filter (\<lambda>c. c = Readdir) h)"

text \<open>A directory stream that is exhausted after at most \<open>n\<close> reads.\<close>

definition readdir_ends :: "kernel \<Rightarrow> nat \<Rightarrow> bool" where
  "readdir_ends k n \<longleftrightarrow> (\<forall>h. n \<le> readdirs h \<longrightarrow> k_dirent k h = None)"

lemma probe_device_readdirs: "readdirs (hist (probe_device k fd s)) = readdirs (hist s)"
  by (simp add: probe_device_def Let_def hist_simps readdirs_def get_ranges_effect case_prod_beta
      split: option.split)

lemma process_entry_readdirs: "readdirs (hist (process_entry k ent s)) = readdirs (hist s)"
  by (simp add: process_entry_def sys_call_def probe_device_readdirs) (simp add: readdirs_def)

lemma entry_loop_returns:
  assumes "readdir_ends k n"
  shows "\<exists>s'. entry_loop k s = Some s'"
proof (induction "n - readdirs (hist s)" arbitrary: s rule: less_induct)
  case less
  let ?s1 = "s\<lparr>hist := Readdir # hist s\<rparr>"
  show ?case
  proof (cases "k_dirent k (hist ?s1)")
    case None
    then show ?thesis by (subst entry_loop.simps) (simp add: sys_call_def)
  next
    case (Some ent)
    with assms have "readdirs (hist ?s1) < n" by (force simp: readdir_ends_def not_le [symmetric])
    moreover have "readdirs (hist ?s1) = Suc (readdirs (hist s))" by (simp add: readdirs_def)
    ultimately have "\<exists>s'. entry_loop k (process_entry k ent ?s1) = Some s'"
      by (intro less) (simp add: process_entry_readdirs)
    with Some show ?thesis by (subst entry_loop.simps) (simp add: sys_call_def)
  qed
qed

lemma construct_recorder_returns:
  assumes "readdir_ends k n"
  shows "\<exists>s. construct_recorder k x filename len cont dir = Some s"
proof -
  let ?s = "recorder_init len cont dir"
  obtain u where "entry_loop k (?s\<lparr>hist := Opendir (input_dir ?s) # hist ?s\<rparr>) = Some u"
    using entry_loop_returns [OF assms] by blast
  then show ?thesis
    by (simp add: construct_recorder_def findDevices_def sys_call_def split: option.split)
qed

section \<open>The selection of devices\<close>

lemma record_device_iff: "record_device devices d \<longleftrightarrow> dev_fd d \<in> dev_fd ` set devices"
proof -
  have "fold (\<lambda>device r. if dev_fd d = dev_fd device then True else r) devices b \<longleftrightarrow>
      b \<or> dev_fd d \<in> dev_fd ` set devices" for b
    by (induction devices arbitrary: b) auto
  then show ?thesis by (simp add: record_device_def)
qed

lemma mask_loop_bits:
  assumes "i + length ds \<le> 64"
  shows "\<exists>m. mask_loop devices i ds acc = Inr m \<and>
    (\<forall>j. bit m j \<longleftrightarrow> bit acc j \<or> (i \<le> j \<and> j < i + length ds \<and> record_device devices (ds ! (j - i))))"
  using assms
proof (induction ds arbitrary: i acc)
  case (Cons d ds)
  let ?acc = "if record_device devices d then or acc (push_bit i 1) else acc"
  obtain m where m: "mask_loop devices (Suc i) ds ?acc = Inr m"
    "\<forall>j. bit m j \<longleftrightarrow> bit ?acc j \<or>
      (Suc i \<le> j \<and> j < Suc i + length ds \<and> record_device devices (ds ! (j - Suc i)))"
    using Cons.IH [of "Suc i" ?acc] Cons.prems by auto
  have acc: "bit ?acc j \<longleftrightarrow> bit acc j \<or> (j = i \<and> record_device devices d)" for j
    using Cons.prems by (auto simp: bit_or_iff bit_exp_iff)
  have step: "i \<le> j \<and> j < i + length (d # ds) \<and> record_device devices ((d # ds) ! (j - i)) \<longleftrightarrow>
      j = i \<and> record_device devices d \<or>
      Suc i \<le> j \<and> j < Suc i + length ds \<and> record_device devices (ds ! (j - Suc i))" for j
  proof (cases "j = i")
    case False
    then have "i \<le> j \<Longrightarrow> (d # ds) ! (j - i) = ds ! (j - Suc i)" by (simp add: nth_Cons')
    with False show ?thesis by auto
  qed simp
  have "mask_loop devices i (d # ds) acc = Inr m"
    using m(1) Cons.prems by (auto split: if_splits)
  with m(2) acc step show ?case by blast
qed auto

lemma select_devices_filter:
  assumes "i + length ds \<le> 64" "\<And>j. j < length ds \<Longrightarrow> bit m (i + j) \<longleftrightarrow> P (ds ! j)"
  shows "select_devices m i ds = Inr (filter P ds)"
  using assms
proof (induction ds arbitrary: i)
  case (Cons d ds)
  have "bit m i \<longleftrightarrow> P d" using Cons.prems(2) [of 0] by simp
  moreover have "select_devices m (Suc i) ds = Inr (filter P ds)"
    by (rule Cons.IH) (use Cons.prems(1) Cons.prems(2) [of "Suc _"] in simp_all)
  ultimately show ?case using Cons.prems(1) by simp
qed simp

lemma set_devices_filter:
  assumes "length (available_devices s) \<le> 64"
  shows "\<exists>m. rec_setDevicesToRecord devices s = Inr (s\<lparr>m_device_mask := m\<rparr>) \<and>
    select_devices m 0 (available_devices s) =
      Inr (filter (\<lambda>d. dev_fd d \<in> dev_fd ` set devices) (available_devices s))"
proof -
  obtain m where m: "mask_loop devices 0 (available_devices s) 0 = Inr m"
    "\<forall>j. bit m j \<longleftrightarrow> bit (0 :: u64) j \<or>
      (0 \<le> j \<and> j < 0 + length (available_devices s) \<and> record_device devices (available_devices s ! (j - 0)))"
    using mask_loop_bits [of 0 "available_devices s" devices 0] assms by auto
  have "select_devices m 0 (available_devices s) =
      Inr (filter (\<lambda>d. dev_fd d \<in> dev_fd ` set devices) (available_devices s))"
    using assms m(2) by (intro select_devices_filter) (auto simp: record_device_iff)
  with m(1) show ?thesis by (intro exI [of _ m]) (simp add: rec_setDevicesToRecord_def)
qed

section \<open>A small directory\<close>

text \<open>A directory with a keyboard, a device without capabilities and a file that is no event
  device; descriptors are 3 and 4.\<close>

definition desk_kernel :: kernel where
  "desk_kernel = \<lparr>k_ret = (\<lambda>h. case h of Open _ _ # _ \<Rightarrow> int (readdirs h) + 2 | Opendir _ # _ \<Rightarrow> 1 | _ \<Rightarrow> 0),
     k_errno = (\<lambda>_. 0),
     k_bytes = (\<lambda>h. case h of Ioctl fd (EVIOCGBIT _ _) # _ \<Rightarrow> if fd = 3 then [2] else [] | _ \<Rightarrow> []),
     k_text = (\<lambda>_. ''desk''), k_abs = (\<lambda>_. zero_absinfo), k_event = (\<lambda>_. syn_report),
     k_dirent = (\<lambda>h. if readdirs h = 1 then Some \<lparr>is_chr = True, d_name = ''event0''\<rparr>
                     else if readdirs h = 2 then Some \<lparr>is_chr = True, d_name = ''event1''\<rparr>
                     else if readdirs h = 3 then Some \<lparr>is_chr = True, d_name = ''mice''\<rparr> else None),
     k_ready = (\<lambda>_ _. False)\<rparr>"

definition blind_xkb :: rec_xkb where
  "blind_xkb = \<lparr>rx_context = False, rx_keymap = False, rx_state = False, rx_sym = (\<lambda>_ _. 0)\<rparr>"

lemma desk_readdir_ends: "readdir_ends desk_kernel 4"
  by (auto simp: readdir_ends_def desk_kernel_def)

lemma desk_construct:
  "map_option (\<lambda>s. (map dev_fd (available_devices s), opened desk_kernel (hist s)))
     (construct_recorder desk_kernel blind_xkb ''x'' 1 False ''/dev/input'') = Some ([3], [3, 4])"
  by code_simp

section \<open>Properties\<close>

text \<open>C22: The search for devices, and with it the constructor, returns whenever the directory
  stream ends; then every entry of the device table is well formed (a known type, a terminated
  name shorter than its 50 bytes, no axis range on a keyboard), the table holds descriptors the
  search opened, in order, and the destructor closes exactly the descriptors of the table, each
  once.\<close>

theorem recorder_device_table:
  assumes "readdir_ends k n"
  shows "\<exists>s. construct_recorder k x filename len cont dir = Some s \<and>
    (\<forall>i < length (available_devices s). device_ok (available_devices s ! i)) \<and>
    subseq (map dev_fd (available_devices s)) (opened k (hist s)) \<and>
    closed (hist (close_devices k s)) = map dev_fd (available_devices s)"
proof -
  obtain s where s: "construct_recorder k x filename len cont dir = Some s"
    using construct_recorder_returns [OF assms] by blast
  have "table_inv k s" by (rule construct_recorder_inv [OF s])
  then show ?thesis
    by (intro exI [of _ s]) (simp add: s table_inv_def close_devices_hist closed_append closed_closes)
qed

theorem recorder_device_table_witness:
  "\<exists>s. construct_recorder desk_kernel blind_xkb ''x'' 1 False ''/dev/input'' = Some s \<and>
    (\<forall>i < length (available_devices s). device_ok (available_devices s ! i)) \<and>
    subseq (map dev_fd (available_devices s)) (opened desk_kernel (hist s)) \<and>
    closed (hist (close_devices desk_kernel s)) = map dev_fd (available_devices s)"
  by (rule recorder_device_table [OF desk_readdir_ends])

text \<open>A descriptor of a skipped device is never closed: with a keyboard and a device without
  capabilities in the directory the search opens the descriptors 3 and 4, keeps 3, and the whole
  life of the recorder closes only 3.\<close>

lemma skipped_device_leaks:
  "map_option (\<lambda>s. (opened desk_kernel (hist (close_devices desk_kernel s)), closed (hist (close_devices desk_kernel s))))
     (construct_recorder desk_kernel blind_xkb ''x'' 1 False ''/dev/input'') = Some ([3, 4], [3])"
  by code_simp

text \<open>A device whose event capabilities report an absolute axis and no multi-touch axis is
  classified by the event types \<open>EV_SYN\<close> and \<open>EV_KEY\<close>, not by the axes \<open>ABS_X\<close> and
  \<open>ABS_Y\<close> it has: its axis capabilities have no influence.\<close>

lemma classify_ignores_axes:
  assumes "has_bit dc EV_ABS" and "\<not> (has_bit ac ABS_MT_SLOT \<and> has_bit ac ABS_MT_TRACKING_ID)"
  shows "classify_device dc ac = (if has_bit dc EV_SYN \<and> has_bit dc EV_KEY then Some TOUCHSCREEN else None)"
  using assms by (auto simp: classify_device_def)

end
