(* ===== verification/Time_Format.thy ===== *)
theory Time_Format
  imports Prelude "HOL-Library.Signed_Division"
begin

text \<open>
  The time stamps of a recording: \<open>current_time_str\<close> of
  \<open>recorder/TestRunnerRecorder.cpp\<close> prints the time of day of an absolute time in
  milliseconds. The arithmetic of \<open>std::chrono\<close> truncates towards zero, as the signed
  division of the language does. Shown here: the printed form has a fixed shape and reading it
  gives the time of day back.
\<close>

section \<open>The printed form\<close>

text \<open>\<open>duration_cast\<close> and \<open>%=\<close> are the truncating division and remainder.\<close>

definition current_time_str :: "int \<Rightarrow> string" where
  "current_time_str ms0 =
     (let hours = (ms0 sdiv 3600000) smod 24;
          ms1 = ms0 smod 3600000;
          minutes = ms1 sdiv 60000;
          ms2 = ms1 smod 60000;
          seconds = ms2 sdiv 1000;
          ms3 = ms2 smod 1000
      in pad_left 2 (show_int hours) @ '':'' @ pad_left 2 (show_int minutes) @ '':'' @
         pad_left 2 (show_int seconds) @ ''.'' @ pad_left 3 (show_int ms3))"

section \<open>Reading it back\<close>

definition digit_val :: "char \<Rightarrow> nat" where
  "digit_val c = of_char c - 48"

definition parse_nat :: "string \<Rightarrow> nat" where
  "parse_nat s = foldl (\<lambda>n c. 10 * n + digit_val c) 0 s"

text \<open>A reader of the fixed layout \<open>hh:mm:ss.mmm\<close>.\<close>

definition parse_time :: "string \<Rightarrow> int option" where
  "parse_time s =
     (if length s = 12 \<and> s ! 2 = CHR '':'' \<and> s ! 5 = CHR '':'' \<and> s ! 8 = CHR ''.''
      then Some (int (parse_nat (take 2 s)) * 3600000 + int (parse_nat (take 2 (drop 3 s))) * 60000 +
                 int (parse_nat (take 2 (drop 6 s))) * 1000 + int (parse_nat (drop 9 s)))
      else None)"

section \<open>Decimal numerals\<close>

lemma show_int_of_nat [simp]: "show_int (int n) = show_nat n"
  by (simp add: show_int_def)

lemma of_char_digit: "d < 10 \<Longrightarrow> (of_char (digit_char d) :: nat) = 48 + d"
  by (simp add: digit_char_def)

lemma digit_val_digit [simp]: "d < 10 \<Longrightarrow> digit_val (digit_char d) = d"
  by (simp add: digit_val_def of_char_digit)

lemma parse_nat_snoc [simp]: "parse_nat (s @ [c]) = 10 * parse_nat s + digit_val c"
  by (simp add: parse_nat_def)

lemma parse_show_nat [simp]: "parse_nat (show_nat n) = n"
proof (induction n rule: show_nat.induct)
  case (1 n)
  show ?case
  proof (cases "n < 10")
    case True
    then show ?thesis by (simp add: show_nat.simps [of n] parse_nat_def)
  next
    case False
    with 1 show ?thesis by (simp add: show_nat.simps [of n])
  qed
qed

lemma digit_val_zero [simp]: "digit_val (CHR ''0'') = 0"
  by (simp add: digit_val_def)

lemma parse_nat_pad [simp]: "parse_nat (pad_left w s) = parse_nat s"
proof -
  have "foldl (\<lambda>n c. 10 * n + digit_val c) 0 (replicate k (CHR ''0'')) = 0" for k
    by (induction k) simp_all
  then show ?thesis by (simp add: parse_nat_def pad_left_def)
qed

lemma length_show_nat_le: "0 < w \<Longrightarrow> n < 10 ^ w \<Longrightarrow> length (show_nat n) \<le> w"
proof (induction w arbitrary: n)
  case (Suc w)
  show ?case
  proof (cases "n < 10")
    case True
    then show ?thesis by (simp add: show_nat.simps [of n])
  next
    case False
    with Suc.prems have "0 < w" by (cases w) auto
    moreover have "n div 10 < 10 ^ w" using Suc.prems by (simp add: less_mult_imp_div_less mult.commute)
    ultimately show ?thesis using Suc.IH False by (simp add: show_nat.simps [of n])
  qed
qed simp

lemma length_pad_left: "length (pad_left w s) = max w (length s)"
  by (simp add: pad_left_def)

lemma length_pad_show: "0 < w \<Longrightarrow> n < 10 ^ w \<Longrightarrow> length (pad_left w (show_nat n)) = w"
  using length_show_nat_le [of w n] by (simp add: length_pad_left max_def)

section \<open>The time of day\<close>

text \<open>For a time after the epoch the truncating operations are the usual ones.\<close>

lemma trunc_ops_nonneg:
  fixes k l :: int
  assumes "0 \<le> k" "0 < l"
  shows "k sdiv l = k div l" "k smod l = k mod l"
  using assms by (cases "k = 0"; simp add: signed_divide_int_def signed_modulo_int_def)+

lemma current_time_str_nonneg:
  assumes "0 \<le> ms"
  shows "current_time_str ms =
     pad_left 2 (show_nat (nat ms div 3600000 mod 24)) @ '':'' @
     pad_left 2 (show_nat (nat ms mod 3600000 div 60000)) @ '':'' @
     pad_left 2 (show_nat (nat ms mod 60000 div 1000)) @ ''.'' @
     pad_left 3 (show_nat (nat ms mod 1000))"
proof -
  have "current_time_str (int n) =
     pad_left 2 (show_nat (n div 3600000 mod 24)) @ '':'' @
     pad_left 2 (show_nat (n mod 3600000 div 60000)) @ '':'' @
     pad_left 2 (show_nat (n mod 60000 div 1000)) @ ''.'' @
     pad_left 3 (show_nat (n mod 1000))" for n
  proof -
    have trunc: "int n sdiv 3600000 smod 24 = int n div 3600000 mod 24"
      "int n smod 3600000 = int n mod 3600000"
      "(int n mod 3600000) sdiv 60000 = int n mod 3600000 div 60000"
      "(int n mod 3600000) smod 60000 = int n mod 60000"
      "(int n mod 60000) sdiv 1000 = int n mod 60000 div 1000"
      "(int n mod 60000) smod 1000 = int n mod 1000"
      by (simp_all add: trunc_ops_nonneg pos_imp_zdiv_nonneg_iff mod_mod_cancel)
    have nats: "int n div 3600000 mod 24 = int (n div 3600000 mod 24)"
      "int n mod 3600000 div 60000 = int (n mod 3600000 div 60000)"
      "int n mod 60000 div 1000 = int (n mod 60000 div 1000)" "int n mod 1000 = int (n mod 1000)"
      by (simp_all add: zdiv_int zmod_int)
    show ?thesis
      by (simp only: current_time_str_def Let_def trunc) (simp only: nats show_int_of_nat)
  qed
  moreover obtain n where "ms = int n" using assms by (rule nonneg_int_cases)
  ultimately show ?thesis by (simp only: nat_int)
qed

lemma parse_time_layout:
  assumes "length a = 2" "length b = 2" "length c = 2" "length d = 3"
  shows "parse_time (a @ '':'' @ b @ '':'' @ c @ ''.'' @ d) =
    Some (int (parse_nat a) * 3600000 + int (parse_nat b) * 60000 + int (parse_nat c) * 1000 +
          int (parse_nat d))"
  using assms by (simp add: parse_time_def nth_append numeral_eq_Suc)

lemma time_of_day_sum:
  fixes n :: nat
  shows "n div 3600000 mod 24 * 3600000 + n mod 3600000 div 60000 * 60000 + n mod 60000 div 1000 * 1000 +
    n mod 1000 = n mod 86400000"
proof -
  have "n mod 86400000 = n mod (3600000 * 24)" "n mod 3600000 = n mod (60000 * 60)" by simp_all
  then have "n mod 86400000 = 3600000 * (n div 3600000 mod 24) + n mod 3600000"
    by (simp only: mod_mult2_eq)
  moreover have "n mod 3600000 = n mod 3600000 div 60000 * 60000 + n mod 60000"
    using div_mult_mod_eq [of "n mod 3600000" 60000] by (simp add: mod_mod_cancel)
  moreover have "n mod 60000 = n mod 60000 div 1000 * 1000 + n mod 1000"
    using div_mult_mod_eq [of "n mod 60000" 1000] by (simp add: mod_mod_cancel)
  ultimately show ?thesis by linarith
qed

lemma length_current_time_str:
  assumes "0 \<le> ms"
  shows "length (current_time_str ms) = 12"
  using assms by (simp add: current_time_str_nonneg length_pad_show less_mult_imp_div_less)

lemma parse_time_current:
  assumes "0 \<le> ms"
  shows "parse_time (current_time_str ms) = Some (ms mod 86400000)"
proof -
  have "parse_time (current_time_str ms) = Some (int (nat ms mod 86400000))"
    unfolding current_time_str_nonneg [OF assms]
    by (subst parse_time_layout)
      (simp_all add: length_pad_show less_mult_imp_div_less flip: time_of_day_sum)
  with assms show ?thesis by (simp add: zmod_int)
qed

end
