(* ===== verification/Recording_Format.thy ===== *)
theory Recording_Format
  imports Recording
begin

text \<open>
  A reader for the files the recorder writes, as a specification of the format, and the proof
  that nothing of a recording is lost: the header, the time of day of every event, its device,
  type, code, value and key symbol are read back from the text.
\<close>

section \<open>The reader\<close>

fun split_on :: "char \<Rightarrow> string \<Rightarrow> string list" where
  "split_on d [] = [[]]"
| "split_on d (c # s) =
     (if c = d then [] # split_on d s
      else (case split_on d s of [] \<Rightarrow> [[c]] | w # ws \<Rightarrow> (c # w) # ws))"

definition parse_int :: "string \<Rightarrow> int" where
  "parse_int s =
     (if s \<noteq> [] \<and> hd s = CHR ''-'' then - int (parse_nat (tl s)) else int (parse_nat s))"

text \<open>\<open>[hh:mm:ss.mmm]\<close>\<close>

definition parse_stamp :: "string \<Rightarrow> int option" where
  "parse_stamp s =
     (if s \<noteq> [] \<and> hd s = CHR ''['' \<and> last s = CHR '']'' then parse_time (butlast (tl s)) else None)"

definition parse_line :: "string \<Rightarrow> input_record_s option" where
  "parse_line s =
     (case split_on (CHR '' '') s of
        t # cmd # d # ty # c # v # rest \<Rightarrow>
          if cmd = ''passThrough'' then
            map_option (\<lambda>ts. \<lparr>ts_abs = ts, rec_dev_type = device_type_of (parse_nat d),
              input_type = word_of_nat (parse_nat ty), input_code = word_of_nat (parse_nat c),
              input_val = word_of_int (parse_int v),
              keysym = (case rest of [] \<Rightarrow> 0 | ks # _ \<Rightarrow> word_of_nat (parse_nat ks))\<rparr>) (parse_stamp t)
          else None
      | _ \<Rightarrow> None)"

text \<open>A file: the version, the start time and the events.\<close>

definition parse_recording :: "string \<Rightarrow> (int \<times> input_record_s list) option" where
  "parse_recording s =
     (case split_on (CHR 0x0A) s of
        v # st # ls \<Rightarrow>
          if v = ''version 2'' \<and> ls \<noteq> [] \<and> last ls = [] then
            (case parse_stamp st of
               None \<Rightarrow> None
             | Some start \<Rightarrow> map_option (Pair start) (those (map parse_line (butlast ls))))
          else None
      | _ \<Rightarrow> None)"

section \<open>Facts\<close>

lemma split_on_append:
  assumes "d \<notin> set a"
  shows "split_on d (a @ d # b) = a # split_on d b"
  using assms by (induction a) auto

lemma split_on_none: "d \<notin> set a \<Longrightarrow> split_on d a = [a]"
  by (induction a) auto

text \<open>The characters of printed numbers and times lie between the minus sign and the colon.\<close>

definition printed_char :: "char \<Rightarrow> bool" where
  "printed_char c \<longleftrightarrow> 45 \<le> (of_char c :: nat) \<and> (of_char c :: nat) \<le> 58"

lemma printed_separators [simp]:
  "\<not> printed_char (CHR '' '')" "\<not> printed_char (CHR 0x0A)" "\<not> printed_char (CHR ''['')"
  "\<not> printed_char (CHR '']'')" "printed_char (CHR '':'')" "printed_char (CHR ''.'')"
  "printed_char (CHR ''-'')" "printed_char (CHR ''0'')"
  by (simp_all add: printed_char_def)

lemma printed_show_nat [simp]: "list_all printed_char (show_nat n)"
proof (induction n rule: show_nat.induct)
  case (1 n)
  have "d < 10 \<Longrightarrow> printed_char (digit_char d)" for d
    by (simp add: printed_char_def of_char_digit)
  with 1 show ?case by (subst show_nat.simps) simp
qed

lemma printed_show_int [simp]: "list_all printed_char (show_int i)"
  by (simp add: show_int_def)

lemma printed_pad [simp]: "list_all printed_char (pad_left w s) \<longleftrightarrow> list_all printed_char s"
  by (auto simp: pad_left_def list_all_iff)

lemma printed_time [simp]: "list_all printed_char (current_time_str ms)"
  by (simp add: current_time_str_def Let_def)

lemma printed_not_in: "list_all printed_char s \<Longrightarrow> \<not> printed_char c \<Longrightarrow> c \<notin> set s"
  by (auto simp: list_all_iff)

lemma show_nat_not_Nil [simp]: "show_nat n \<noteq> []"
  by (subst show_nat.simps) simp

lemma digit_not_minus: "d < 10 \<Longrightarrow> digit_char d \<noteq> CHR ''-''"
  using of_char_digit [of d] by auto

lemma hd_show_nat: "hd (show_nat n) \<noteq> CHR ''-''"
proof (induction n rule: show_nat.induct)
  case (1 n)
  then show ?case by (subst show_nat.simps) (simp add: digit_not_minus)
qed

lemma parse_int_nat: "parse_int (show_nat n) = int n"
  by (simp add: parse_int_def hd_show_nat)

lemma parse_show_int [simp]: "parse_int (show_int i) = i"
  by (cases "i < 0") (simp_all add: show_int_def parse_int_nat, simp add: parse_int_def)

lemma parse_stamp_current:
  assumes "0 \<le> ms"
  shows "parse_stamp (CHR ''['' # current_time_str ms @ '']'') = Some (ms mod 86400000)"
  using parse_time_current [OF assms] by (simp add: parse_stamp_def butlast_append)

lemma split_line:
  "split_on (CHR '' '') (record_text r) =
     [CHR ''['' # current_time_str (ts_abs r) @ '']'', ''passThrough'',
      show_nat (device_type_num (rec_dev_type r)), show_nat (unat (input_type r)),
      show_nat (unat (input_code r)), show_int (sint (input_val r))] @
     (if keysym r \<noteq> 0 then [show_nat (unat (keysym r))] else [])"
proof -
  have sp: "CHR '' '' \<notin> set (CHR ''['' # current_time_str t @ '']'')" "CHR '' '' \<notin> set ''passThrough''"
    "CHR '' '' \<notin> set (show_nat n)" "CHR '' '' \<notin> set (show_int i)" for t n i
    using printed_not_in [OF printed_time] printed_not_in [OF printed_show_nat]
      printed_not_in [OF printed_show_int] by auto
  have "record_text r = (CHR ''['' # current_time_str (ts_abs r) @ '']'') @ CHR '' '' # ''passThrough'' @ CHR '' '' #
      show_nat (device_type_num (rec_dev_type r)) @ CHR '' '' # show_nat (unat (input_type r)) @ CHR '' '' #
      show_nat (unat (input_code r)) @ CHR '' '' # show_int (sint (input_val r)) @
      (if keysym r \<noteq> 0 then CHR '' '' # show_nat (unat (keysym r)) else [])"
    by (simp add: record_text_def)
  then show ?thesis
    by (simp only: split_on_append [OF sp(1)] split_on_append [OF sp(2)] split_on_append [OF sp(3)])
      (simp add: split_on_append [OF sp(4)] split_on_none [OF sp(3)] split_on_none [OF sp(4)])
qed

lemma parse_record_text:
  assumes "0 \<le> ts_abs r"
  shows "parse_line (record_text r) = Some (r\<lparr>ts_abs := ts_abs r mod 86400000\<rparr>)"
  using parse_stamp_current [OF assms] by (simp add: parse_line_def split_line)

lemma newline_not_in_text: "CHR 0x0A \<notin> set (record_text r)"
  using printed_not_in [OF printed_time, of "CHR 0x0A"] printed_not_in [OF printed_show_nat, of "CHR 0x0A"]
    printed_not_in [OF printed_show_int, of "CHR 0x0A"]
  by (simp add: record_text_def)

lemma split_lines:
  "split_on (CHR 0x0A) (concat (map record_line rs)) = map record_text rs @ [[]]"
  by (induction rs) (simp_all add: record_line_def split_on_append newline_not_in_text)

lemma split_header:
  "split_on (CHR 0x0A) (recording_header start @ t) =
     ''version 2'' # (CHR ''['' # current_time_str start @ '']'') # split_on (CHR 0x0A) t"
proof -
  have nl: "CHR 0x0A \<notin> set ''version 2''" "CHR 0x0A \<notin> set (CHR ''['' # current_time_str start @ '']'')"
    using printed_not_in [OF printed_time, of "CHR 0x0A"] by auto
  have "split_on (CHR 0x0A) (''version 2'' @ CHR 0x0A # (CHR ''['' # current_time_str start @ '']'') @ CHR 0x0A # t) =
     ''version 2'' # (CHR ''['' # current_time_str start @ '']'') # split_on (CHR 0x0A) t"
    by (simp only: split_on_append [OF nl(1)] split_on_append [OF nl(2)])
  then show ?thesis by (simp add: recording_header_def)
qed

lemma those_map_Some: "(\<And>x. x \<in> set xs \<Longrightarrow> f x = Some (g x)) \<Longrightarrow> those (map f xs) = Some (map g xs)"
  by (induction xs) auto

lemma parse_recording_file:
  assumes "0 \<le> start" and "\<forall>r \<in> set rs. 0 \<le> ts_abs r"
  shows "parse_recording (recording_header start @ concat (map record_line rs)) =
    Some (start mod 86400000, map (\<lambda>r. r\<lparr>ts_abs := ts_abs r mod 86400000\<rparr>) rs)"
proof -
  have "those (map parse_line (map record_text rs)) =
      Some (map (\<lambda>r. r\<lparr>ts_abs := ts_abs r mod 86400000\<rparr>) rs)"
    unfolding map_map by (rule those_map_Some) (use assms(2) in \<open>simp add: parse_record_text\<close>)
  with parse_stamp_current [OF assms(1)] show ?thesis
    by (simp add: parse_recording_def split_header split_lines)
qed

section \<open>Properties\<close>

text \<open>C17: Nothing of a recording is lost in its text: reading a file with the header and the lines
  of any list of events gives the start time (as time of day) and the same list, device, type,
  code, value and key symbol of every event unchanged and its time as time of day.\<close>

theorem recording_roundtrip:
  assumes "0 \<le> start" and "\<forall>r \<in> set rs. 0 \<le> ts_abs r"
  shows "parse_recording (recording_header start @ concat (map record_line rs)) =
    Some (start mod 86400000, map (\<lambda>r. r\<lparr>ts_abs := ts_abs r mod 86400000\<rparr>) rs)"
  using assms by (rule parse_recording_file)

theorem recording_roundtrip_witness:
  "parse_recording (recording_header 90061001 @ concat (map record_line
      [\<lparr>ts_abs = 90061002, rec_dev_type = KEYBOARD, input_type = 1, input_code = 30,
        input_val = - 1, keysym = 97\<rparr>])) =
    Some (3661001, [\<lparr>ts_abs = 3661002, rec_dev_type = KEYBOARD, input_type = 1, input_code = 30,
        input_val = - 1, keysym = 97\<rparr>])"
  using recording_roundtrip [of 90061001 "[\<lparr>ts_abs = 90061002, rec_dev_type = KEYBOARD, input_type = 1,
        input_code = 30, input_val = - 1, keysym = 97\<rparr>]"] by simp

end
