(* ===== verification/Recorder_Threads.thy ===== *)
theory Recorder_Threads
  imports Recording_Format
begin

text \<open>
  The recorder as a concurrent program: the caller's thread (\<open>Start\<close>, \<open>Stop\<close>,
  \<open>isActive\<close> and the destructor), the recording thread (\<open>Record\<close>) and the buffer thread
  of a continuous recording (\<open>processBuffer\<close>). The threads interleave at their lock
  operations and at their accesses to shared members outside a lock: the test at the head of a loop with
  the call of \<open>select\<close>, the reading of one device, and each of the two assignments of a stop request are
  steps of their own; while a thread is between these assignments it holds \<open>stop_mtx\<close>. Shown here: that the step relation is the graph of
  an executable function, what trimming does to a buffer in the order of time, and what a step
  of the recording thread adds to a recording.
\<close>

section \<open>The machine\<close>

text \<open>\<open>Rec_reading\<close> has the ready devices that are still to be read in this round.\<close>

datatype rec_pc = Rec_none | Rec_spawned | Rec_loop | Rec_reading "in_device_s list" | Rec_wait_buf | Rec_exited

fun reading :: "rec_pc \<Rightarrow> bool" where
  "reading (Rec_reading ds) = True"
| "reading _ = False"

datatype buf_pc = Buf_none | Buf_check | Buf_wait | Buf_exited

text \<open>\<open>Stop\<close> sets the flag, then the stop time (\<open>Main_stopping\<close> is between the two), and waits
  (\<open>Main_joining\<close>). The destructor of a recorder whose thread is joinable first gives the keyboard state
  back (\<open>Main_releasing\<close>), then requests the stop in the same two assignments (\<open>Main_halting\<close>) and
  waits (\<open>Main_destroying\<close>).\<close>

datatype main_pc =
    Main_idle | Main_stopping | Main_joining | Main_releasing | Main_halting | Main_destroying
  | Main_dead cxx_error | Main_gone

text \<open>
  \<open>rst\<close> is the object, \<open>devs\<close> the local list \<open>devices_to_record\<close>, \<open>outcome\<close>
  what the last call of \<open>Stop\<close> gave. \<open>glog\<close> is a history variable: every record that was
  ever put into the buffer.
\<close>

record rmach =
  rst :: recorder
  rpc :: rec_pc
  bpc :: buf_pc
  mpc :: main_pc
  devs :: "in_device_s list"
  outcome :: "string result option"
  glog :: "input_record_s list"

datatype rlabel =
    L_start | L_stop | L_stop_time | L_join | L_destroy | L_destroy_stop | L_destroy_join
  | L_begin | L_round | L_read | L_done | L_join_buf
  | L_buf_go | L_buf_trim | L_buf_dump

definition isActive :: "'a recorder_scheme \<Rightarrow> bool" where
  "isActive s = (\<not> m_stop s)"

text \<open>The two assignments of the critical section of \<open>Stop\<close>.\<close>

definition raise_stop :: "recorder \<Rightarrow> recorder" where
  "raise_stop s = s\<lparr>m_stop := True\<rparr>"

definition stamp_stop :: "kernel \<Rightarrow> recorder \<Rightarrow> recorder" where
  "stamp_stop k s = (case current_time_ms k s of (now, s1) \<Rightarrow> s1\<lparr>m_stop_time := now\<rparr>)"

definition request_stop :: "kernel \<Rightarrow> recorder \<Rightarrow> recorder" where
  "request_stop k s = stamp_stop k (raise_stop s)"

text \<open>Where the recording thread goes when it leaves its loop.\<close>

definition after_loop :: "recorder \<Rightarrow> rec_pc" where
  "after_loop s = (if m_continuous s then Rec_wait_buf else Rec_exited)"

text \<open>The records a step has added to the buffer.\<close>

definition new_records :: "recorder \<Rightarrow> recorder \<Rightarrow> input_record_s list" where
  "new_records s s' = drop (length (m_input_buf s)) (m_input_buf s')"

text \<open>The threads run until the process or the object ends.\<close>

definition threads_alive :: "rmach \<Rightarrow> bool" where
  "threads_alive m \<longleftrightarrow>
     mpc m \<in> {Main_idle, Main_stopping, Main_joining, Main_releasing, Main_halting, Main_destroying}"

lemma threads_alive_mpc [simp]:
  "mpc m = Main_idle \<Longrightarrow> threads_alive m" "mpc m = Main_joining \<Longrightarrow> threads_alive m"
  "mpc m = Main_releasing \<Longrightarrow> threads_alive m" "mpc m = Main_destroying \<Longrightarrow> threads_alive m"
  "mpc m = Main_stopping \<Longrightarrow> threads_alive m" "mpc m = Main_halting \<Longrightarrow> threads_alive m"
  by (simp_all add: threads_alive_def)

text \<open>The caller holds \<open>stop_mtx\<close> between its two assignments. The start of \<open>Record\<close>, the wait of the buffer
  thread and the stop by the escape key need the lock; \<open>is_done\<close> needs it only when the flag is not set.\<close>

definition stop_mtx_free :: "rmach \<Rightarrow> bool" where
  "stop_mtx_free m \<longleftrightarrow> mpc m \<notin> {Main_stopping, Main_halting}"

definition reads_escape :: "kernel \<Rightarrow> in_device_s \<Rightarrow> recorder \<Rightarrow> bool" where
  "reads_escape k dev s =
     (case sys_call k (Read (dev_fd dev)) s of (bytes_read, s1) \<Rightarrow>
        bytes_read > 0 \<and> uint (ev_type (k_event k (hist s1))) = EV_KEY \<and> unat (ev_code (k_event k (hist s1))) = KEY_ESC)"

definition may_read :: "kernel \<Rightarrow> in_device_s \<Rightarrow> rmach \<Rightarrow> bool" where
  "may_read k dev m \<longleftrightarrow> threads_alive m \<and> (stop_mtx_free m \<or> \<not> reads_escape k dev (rst m))"

lemma stop_mtx_free_mpc [simp]:
  "mpc m = Main_idle \<Longrightarrow> stop_mtx_free m" "mpc m = Main_joining \<Longrightarrow> stop_mtx_free m"
  "mpc m = Main_releasing \<Longrightarrow> stop_mtx_free m" "mpc m = Main_destroying \<Longrightarrow> stop_mtx_free m"
  by (simp_all add: stop_mtx_free_def)

inductive rstep :: "kernel \<Rightarrow> rec_xkb \<Rightarrow> rmach \<Rightarrow> rlabel \<Rightarrow> rmach \<Rightarrow> bool"
  for k :: kernel and x :: rec_xkb
where
  start_active: "mpc m = Main_idle \<Longrightarrow> isActive (rst m) \<Longrightarrow> rstep k x m L_start m"
| start_new: "mpc m = Main_idle \<Longrightarrow> \<not> isActive (rst m) \<Longrightarrow> rpc m = Rec_none \<Longrightarrow>
    rstep k x m L_start (m\<lparr>rpc := Rec_spawned\<rparr>)"
| start_joinable: "mpc m = Main_idle \<Longrightarrow> \<not> isActive (rst m) \<Longrightarrow> rpc m \<noteq> Rec_none \<Longrightarrow>
    rstep k x m L_start (m\<lparr>mpc := Main_dead Terminate\<rparr>)"
| stop: "mpc m = Main_idle \<Longrightarrow> rpc m \<noteq> Rec_none \<Longrightarrow>
    rstep k x m L_stop (m\<lparr>rst := raise_stop (rst m), mpc := Main_stopping\<rparr>)"
| stop_time: "mpc m = Main_stopping \<Longrightarrow>
    rstep k x m L_stop_time (m\<lparr>rst := stamp_stop k (rst m), mpc := Main_joining\<rparr>)"
| stop_no_thread: "mpc m = Main_idle \<Longrightarrow> rpc m = Rec_none \<Longrightarrow>
    rstep k x m L_stop (m\<lparr>rst := request_stop k (rst m), outcome := Some (Inl System_error)\<rparr>)"
| join: "mpc m = Main_joining \<Longrightarrow> rpc m = Rec_exited \<Longrightarrow>
    rstep k x m L_join (m\<lparr>mpc := Main_idle, rpc := Rec_none, outcome := Some (Inr (m_recording_path (rst m)))\<rparr>)"
| destroy: "mpc m = Main_idle \<Longrightarrow> rpc m = Rec_none \<Longrightarrow>
    rstep k x m L_destroy (m\<lparr>rst := close_devices k (release_xkb (rst m)), mpc := Main_gone\<rparr>)"
| destroy_release: "mpc m = Main_idle \<Longrightarrow> rpc m \<noteq> Rec_none \<Longrightarrow>
    rstep k x m L_destroy (m\<lparr>rst := release_xkb (rst m), mpc := Main_releasing\<rparr>)"
| destroy_stop: "mpc m = Main_releasing \<Longrightarrow>
    rstep k x m L_destroy_stop (m\<lparr>rst := raise_stop (rst m), mpc := Main_halting\<rparr>)"
| destroy_time: "mpc m = Main_halting \<Longrightarrow>
    rstep k x m L_stop_time (m\<lparr>rst := stamp_stop k (rst m), mpc := Main_destroying\<rparr>)"
| destroy_join: "mpc m = Main_destroying \<Longrightarrow> rpc m = Rec_exited \<Longrightarrow>
    rstep k x m L_destroy_join (m\<lparr>rst := close_devices k (rst m), rpc := Rec_none, mpc := Main_gone\<rparr>)"
| begin_ok: "threads_alive m \<Longrightarrow> stop_mtx_free m \<Longrightarrow> rpc m = Rec_spawned \<Longrightarrow>
    record_begin k (rst m) = Inr (ds, s) \<Longrightarrow>
    rstep k x m L_begin (m\<lparr>rst := s, devs := ds, rpc := Rec_loop,
      bpc := (if m_continuous s then Buf_check else Buf_none)\<rparr>)"
| begin_err: "threads_alive m \<Longrightarrow> stop_mtx_free m \<Longrightarrow> rpc m = Rec_spawned \<Longrightarrow>
    record_begin k (rst m) = Inl e \<Longrightarrow>
    rstep k x m L_begin (m\<lparr>mpc := Main_dead e\<rparr>)"
| round: "threads_alive m \<Longrightarrow> rpc m = Rec_loop \<Longrightarrow> is_done k (rst m) = (False, s) \<Longrightarrow>
    record_select k (devs m) s = (sel, s') \<Longrightarrow>
    rstep k x m L_round (m\<lparr>rst := s', rpc := (case sel of None \<Rightarrow> after_loop s' | Some ds \<Rightarrow> Rec_reading ds)\<rparr>)"
| read: "may_read k d m \<Longrightarrow> rpc m = Rec_reading (d # ds) \<Longrightarrow> read_device k x d (rst m) = Inr s' \<Longrightarrow>
    rstep k x m L_read (m\<lparr>rst := s', rpc := Rec_reading ds, glog := glog m @ new_records (rst m) s'\<rparr>)"
| read_err: "may_read k d m \<Longrightarrow> rpc m = Rec_reading (d # ds) \<Longrightarrow> read_device k x d (rst m) = Inl e \<Longrightarrow>
    rstep k x m L_read (m\<lparr>mpc := Main_dead e\<rparr>)"
| read_end: "threads_alive m \<Longrightarrow> rpc m = Rec_reading [] \<Longrightarrow> rstep k x m L_read (m\<lparr>rpc := Rec_loop\<rparr>)"
| rec_done: "threads_alive m \<Longrightarrow> rpc m = Rec_loop \<Longrightarrow> is_done k (rst m) = (True, s) \<Longrightarrow>
    rstep k x m L_done (m\<lparr>rst := s, rpc := after_loop s\<rparr>)"
| join_buf: "threads_alive m \<Longrightarrow> rpc m = Rec_wait_buf \<Longrightarrow> bpc m = Buf_exited \<Longrightarrow>
    rstep k x m L_join_buf (m\<lparr>rpc := Rec_exited, bpc := Buf_none\<rparr>)"
| buf_go: "threads_alive m \<Longrightarrow> bpc m = Buf_check \<Longrightarrow> is_done k (rst m) = (False, s) \<Longrightarrow>
    rstep k x m L_buf_go (m\<lparr>rst := s, bpc := Buf_wait\<rparr>)"
| buf_trim: "threads_alive m \<Longrightarrow> stop_mtx_free m \<Longrightarrow> bpc m = Buf_wait \<Longrightarrow>
    rstep k x m L_buf_trim (m\<lparr>rst := trim_round k (rst m), bpc := Buf_check\<rparr>)"
| buf_dump: "threads_alive m \<Longrightarrow> bpc m = Buf_check \<Longrightarrow> is_done k (rst m) = (True, s) \<Longrightarrow>
    rstep k x m L_buf_dump (m\<lparr>rst := dump_buffer k s, bpc := Buf_exited\<rparr>)"

text \<open>The same machine as a function: a label is enabled in at most one way.\<close>

fun rec_exec :: "kernel \<Rightarrow> rec_xkb \<Rightarrow> rlabel \<Rightarrow> rmach \<Rightarrow> rmach option" where
  "rec_exec k x L_start m =
     (if mpc m = Main_idle
      then Some (if isActive (rst m) then m
                 else if rpc m = Rec_none then m\<lparr>rpc := Rec_spawned\<rparr>
                 else m\<lparr>mpc := Main_dead Terminate\<rparr>)
      else None)"
| "rec_exec k x L_stop m =
     (if mpc m = Main_idle
      then Some (if rpc m \<noteq> Rec_none
                 then m\<lparr>rst := raise_stop (rst m), mpc := Main_stopping\<rparr>
                 else m\<lparr>rst := request_stop k (rst m), outcome := Some (Inl System_error)\<rparr>)
      else None)"
| "rec_exec k x L_stop_time m =
     (if mpc m = Main_stopping then Some (m\<lparr>rst := stamp_stop k (rst m), mpc := Main_joining\<rparr>)
      else if mpc m = Main_halting then Some (m\<lparr>rst := stamp_stop k (rst m), mpc := Main_destroying\<rparr>)
      else None)"
| "rec_exec k x L_join m =
     (if mpc m = Main_joining \<and> rpc m = Rec_exited
      then Some (m\<lparr>mpc := Main_idle, rpc := Rec_none, outcome := Some (Inr (m_recording_path (rst m)))\<rparr>)
      else None)"
| "rec_exec k x L_destroy m =
     (if mpc m = Main_idle
      then Some (if rpc m = Rec_none
                 then m\<lparr>rst := close_devices k (release_xkb (rst m)), mpc := Main_gone\<rparr>
                 else m\<lparr>rst := release_xkb (rst m), mpc := Main_releasing\<rparr>)
      else None)"
| "rec_exec k x L_destroy_stop m =
     (if mpc m = Main_releasing
      then Some (m\<lparr>rst := raise_stop (rst m), mpc := Main_halting\<rparr>) else None)"
| "rec_exec k x L_destroy_join m =
     (if mpc m = Main_destroying \<and> rpc m = Rec_exited
      then Some (m\<lparr>rst := close_devices k (rst m), rpc := Rec_none, mpc := Main_gone\<rparr>) else None)"
| "rec_exec k x L_begin m =
     (if threads_alive m \<and> stop_mtx_free m \<and> rpc m = Rec_spawned
      then Some (case record_begin k (rst m) of
             Inr (ds, s) \<Rightarrow> m\<lparr>rst := s, devs := ds, rpc := Rec_loop,
               bpc := (if m_continuous s then Buf_check else Buf_none)\<rparr>
           | Inl e \<Rightarrow> m\<lparr>mpc := Main_dead e\<rparr>)
      else None)"
| "rec_exec k x L_round m =
     (if threads_alive m \<and> rpc m = Rec_loop
      then (case is_done k (rst m) of
              (True, s) \<Rightarrow> None
            | (False, s) \<Rightarrow> (case record_select k (devs m) s of (sel, s') \<Rightarrow>
                  Some (m\<lparr>rst := s', rpc := (case sel of None \<Rightarrow> after_loop s' | Some ds \<Rightarrow> Rec_reading ds)\<rparr>)))
      else None)"
| "rec_exec k x L_read m =
     (case rpc m of
        Rec_reading [] \<Rightarrow> (if threads_alive m then Some (m\<lparr>rpc := Rec_loop\<rparr>) else None)
      | Rec_reading (d # ds) \<Rightarrow>
          (if may_read k d m
           then Some (case read_device k x d (rst m) of
                  Inr s' \<Rightarrow> m\<lparr>rst := s', rpc := Rec_reading ds, glog := glog m @ new_records (rst m) s'\<rparr>
                | Inl e \<Rightarrow> m\<lparr>mpc := Main_dead e\<rparr>)
           else None)
      | _ \<Rightarrow> None)"
| "rec_exec k x L_done m =
     (if threads_alive m \<and> rpc m = Rec_loop
      then (case is_done k (rst m) of
              (True, s) \<Rightarrow> Some (m\<lparr>rst := s, rpc := after_loop s\<rparr>) | (False, s) \<Rightarrow> None)
      else None)"
| "rec_exec k x L_join_buf m =
     (if threads_alive m \<and> rpc m = Rec_wait_buf \<and> bpc m = Buf_exited
      then Some (m\<lparr>rpc := Rec_exited, bpc := Buf_none\<rparr>) else None)"
| "rec_exec k x L_buf_go m =
     (if threads_alive m \<and> bpc m = Buf_check
      then (case is_done k (rst m) of
              (True, s) \<Rightarrow> None | (False, s) \<Rightarrow> Some (m\<lparr>rst := s, bpc := Buf_wait\<rparr>))
      else None)"
| "rec_exec k x L_buf_trim m =
     (if threads_alive m \<and> stop_mtx_free m \<and> bpc m = Buf_wait
      then Some (m\<lparr>rst := trim_round k (rst m), bpc := Buf_check\<rparr>) else None)"
| "rec_exec k x L_buf_dump m =
     (if threads_alive m \<and> bpc m = Buf_check
      then (case is_done k (rst m) of
              (True, s) \<Rightarrow> Some (m\<lparr>rst := dump_buffer k s, bpc := Buf_exited\<rparr>) | (False, s) \<Rightarrow> None)
      else None)"

lemma rec_exec_of_step: "rstep k x m l m' \<Longrightarrow> rec_exec k x l m = Some m'"
  by (induction rule: rstep.induct) auto

lemma rstep_of_exec:
  assumes "rec_exec k x l m = Some m'"
  shows "rstep k x m l m'"
proof (cases l)
  case L_begin
  with assms have alive: "threads_alive m" "stop_mtx_free m" "rpc m = Rec_spawned"
    by (auto split: if_splits)
  show ?thesis
  proof (cases "record_begin k (rst m)")
    case (Inl e)
    with rstep.begin_err [OF alive Inl] assms L_begin show ?thesis by (simp split: if_splits)
  next
    case (Inr b)
    then obtain ds s where b: "record_begin k (rst m) = Inr (ds, s)" by (cases b) simp
    with rstep.begin_ok [OF alive b] assms L_begin show ?thesis by (simp split: if_splits)
  qed
next
  case L_round
  with assms obtain s where alive: "threads_alive m" "rpc m = Rec_loop"
      "is_done k (rst m) = (False, s)"
    by (auto split: if_splits prod.splits bool.splits)
  obtain sel s' where sel: "record_select k (devs m) s = (sel, s')" by fastforce
  with rstep.round [OF alive sel] assms L_round alive show ?thesis by simp
next
  case L_read
  with assms obtain ds where ds: "rpc m = Rec_reading ds" by (cases "rpc m") auto
  show ?thesis
  proof (cases ds)
    case Nil
    with rstep.read_end [of m] ds assms L_read show ?thesis by (simp split: if_splits)
  next
    case (Cons d ds')
    with assms ds L_read have may: "may_read k d m" by (simp split: if_splits)
    with assms ds Cons L_read show ?thesis
      using rstep.read [OF may, of ds'] rstep.read_err [OF may, of ds']
      by (cases "read_device k x d (rst m)") auto
  qed
qed (use assms in \<open>auto split: if_splits sum.splits prod.splits bool.splits
      intro: rstep.intros\<close>)

lemma rstep_iff_exec: "rstep k x m l m' \<longleftrightarrow> rec_exec k x l m = Some m'"
  using rec_exec_of_step rstep_of_exec by blast

definition rmach_init :: "recorder \<Rightarrow> rmach" where
  "rmach_init s = \<lparr>rst = s, rpc = Rec_none, bpc = Buf_none, mpc = Main_idle, devs = [],
     outcome = None, glog = []\<rparr>"

definition rmach_start ::
  "kernel \<Rightarrow> rec_xkb \<Rightarrow> string \<Rightarrow> u32 \<Rightarrow> bool \<Rightarrow> string \<Rightarrow> rmach \<Rightarrow> bool" where
  "rmach_start k x filename len cont dir m \<longleftrightarrow>
     (\<exists>s. construct_recorder k x filename len cont dir = Some s \<and> m = rmach_init s)"

interpretation rec_sys: transition_system "rmach_start k x filename len cont dir" "rstep k x"
  for k x filename len cont dir .

text \<open>What has ended the process.\<close>

definition death :: "rmach \<Rightarrow> cxx_error option" where
  "death m = (case mpc m of Main_dead e \<Rightarrow> Some e | _ \<Rightarrow> None)"

lemma death_mpc [simp]:
  "mpc m = Main_idle \<Longrightarrow> death m = None" "mpc m = Main_joining \<Longrightarrow> death m = None"
  "mpc m = Main_releasing \<Longrightarrow> death m = None" "mpc m = Main_destroying \<Longrightarrow> death m = None"
  "mpc m = Main_stopping \<Longrightarrow> death m = None" "mpc m = Main_halting \<Longrightarrow> death m = None"
  "mpc m = Main_gone \<Longrightarrow> death m = None" "mpc m = Main_dead e \<Longrightarrow> death m = Some e"
  by (simp_all add: death_def)

text \<open>A schedule, executed step by step.\<close>

fun exec_all :: "kernel \<Rightarrow> rec_xkb \<Rightarrow> rlabel list \<Rightarrow> rmach \<Rightarrow> rmach option" where
  "exec_all k x [] m = Some m"
| "exec_all k x (l # ls) m = (case rec_exec k x l m of None \<Rightarrow> None | Some m' \<Rightarrow> exec_all k x ls m')"

lemma exec_all_run: "exec_all k x ls m = Some m' \<longleftrightarrow> rec_sys.run k x m ls m'"
  by (induction ls arbitrary: m)
    (auto simp: rec_sys.run_Nil_iff rec_sys.run_Cons_iff rstep_iff_exec simp del: rec_exec.simps
      split: option.splits)

inductive_cases round_stepE: "rstep k x m L_round m'"

section \<open>The clock\<close>

text \<open>A system clock that is past the epoch and does not run backwards.\<close>

definition clock_ok :: "kernel \<Rightarrow> bool" where
  "clock_ok k \<longleftrightarrow> (\<forall>h. 0 \<le> k_ret k (Clock # h)) \<and>
     (\<forall>g h. k_ret k (Clock # h) \<le> k_ret k (Clock # g @ Clock # h))"

text \<open>No reading after the history \<open>h\<close> is below \<open>t\<close>.\<close>

definition not_before :: "kernel \<Rightarrow> syscall list \<Rightarrow> int \<Rightarrow> bool" where
  "not_before k h t \<longleftrightarrow> (\<forall>g. t \<le> k_ret k (Clock # g @ h))"

lemma not_before_later: "not_before k h t \<Longrightarrow> not_before k (g @ h) t"
  unfolding not_before_def by (metis append_assoc)

lemma not_before_clock: "clock_ok k \<Longrightarrow> not_before k (Clock # h) (k_ret k (Clock # h))"
  by (simp add: not_before_def clock_ok_def)

lemma not_before_zero: "clock_ok k \<Longrightarrow> not_before k h 0"
  by (simp add: not_before_def clock_ok_def)

lemma not_before_now: "not_before k h t \<Longrightarrow> t \<le> k_ret k (Clock # h)"
  unfolding not_before_def by (metis append_Nil)

lemma not_before_le: "not_before k h t \<Longrightarrow> u \<le> t \<Longrightarrow> not_before k h u"
  unfolding not_before_def by (meson order_trans)

section \<open>The sliding window\<close>

text \<open>What a trimming operation promises on a buffer in the order of time: it keeps the records
  from the cutoff on, as long as the buffer does not exceed its capacity.\<close>

locale sliding_window =
  fixes time_of :: "'r \<Rightarrow> int"
    and trim_at :: "int \<Rightarrow> 'r list \<Rightarrow> 'r list"
    and fits :: "nat \<Rightarrow> bool"
  assumes trim_filter:
      "sorted (map time_of b) \<Longrightarrow> fits (length b) \<Longrightarrow> trim_at c b = filter (\<lambda>r. c \<le> time_of r) b"
    and fits_mono: "fits n \<Longrightarrow> m \<le> n \<Longrightarrow> fits m"
begin

text \<open>Trimming a window of the log gives the window that starts at the later cutoff.\<close>

lemma trim_window:
  assumes "sorted (map time_of recs)" "fits (length recs)"
  shows "trim_at c' (filter (\<lambda>r. c \<le> time_of r) recs) = filter (\<lambda>r. max c c' \<le> time_of r) recs"
proof -
  have "sorted (map time_of (filter (\<lambda>r. c \<le> time_of r) recs))"
    using assms(1) by (rule sorted_filter)
  moreover have "fits (length (filter (\<lambda>r. c \<le> time_of r) recs))"
    using assms(2) by (rule fits_mono) (rule length_filter_le)
  ultimately show ?thesis
    by (simp add: trim_filter conj_commute cong: filter_cong)
qed

end

lemma filter_from_cutoff:
  "sorted (map ts_abs (r # b)) \<Longrightarrow> c \<le> ts_abs r \<Longrightarrow> filter (\<lambda>r. c \<le> ts_abs r) (r # b) = r # b"
  unfolding filter_id_conv by fastforce

lemma trim_loop_filter:
  assumes "sorted (map ts_abs b)"
  shows "trim_loop c b = filter (\<lambda>r. c \<le> ts_abs r) (drop (length b - FILE_MAX_LINES) b)"
  using assms
proof (induction b)
  case (Cons r b)
  then have IH: "trim_loop c b = filter (\<lambda>r. c \<le> ts_abs r) (drop (length b - FILE_MAX_LINES) b)" by simp
  consider "FILE_MAX_LINES \<le> length b" | "length b < FILE_MAX_LINES" "ts_abs r < c"
    | "length b < FILE_MAX_LINES" "c \<le> ts_abs r" by linarith
  then show ?case
  proof cases
    case 1
    then obtain n where "length b = FILE_MAX_LINES + n" using le_Suc_ex by blast
    with IH show ?thesis by simp
  next
    case 2
    with IH show ?thesis by simp
  next
    case 3
    then show ?thesis using filter_from_cutoff [OF Cons.prems, of c] by (simp del: filter.simps)
  qed
qed simp

lemma final_trim_filter: "sorted (map ts_abs b) \<Longrightarrow> final_trim c b = filter (\<lambda>r. c \<le> ts_abs r) b"
proof (induction b)
  case (Cons r b)
  then show ?case
    using filter_from_cutoff [OF Cons.prems, of c] by (cases "ts_abs r < c") (simp_all add: not_less)
qed simp

interpretation live_trim: sliding_window ts_abs trim_loop "\<lambda>n. n \<le> FILE_MAX_LINES"
  by unfold_locales (simp_all add: trim_loop_filter)

interpretation dump_trim: sliding_window ts_abs final_trim "\<lambda>n. True"
  by unfold_locales (simp_all add: final_trim_filter)

section \<open>What the steps of the recording thread do\<close>

text \<open>\<open>advances k s rs s'\<close>: from \<open>s\<close> to \<open>s'\<close> the recording has grown by the records
  \<open>rs\<close>, in the order of time; a continuous recording keeps them in its buffer, another one
  writes a line for each to its file.\<close>

definition same_config :: "recorder \<Rightarrow> recorder \<Rightarrow> bool" where
  "same_config s s' \<longleftrightarrow> m_continuous s' = m_continuous s \<and> m_recording_length s' = m_recording_length s \<and>
     m_filename s' = m_filename s \<and> m_start_time s' = m_start_time s \<and>
     available_devices s' = available_devices s \<and> m_recording_path s' = m_recording_path s \<and>
     xkb_released s' = xkb_released s \<and> (m_stop s \<longrightarrow> m_stop s')"

definition advances :: "kernel \<Rightarrow> recorder \<Rightarrow> input_record_s list \<Rightarrow> recorder \<Rightarrow> bool" where
  "advances k s rs s' \<longleftrightarrow>
     (\<exists>g. hist s' = g @ hist s) \<and> same_config s s' \<and>
     sorted (map ts_abs rs) \<and> (\<forall>r \<in> set rs. not_before k (hist s') (ts_abs r)) \<and>
     (\<forall>t. not_before k (hist s) t \<longrightarrow> (\<forall>r \<in> set rs. t \<le> ts_abs r)) \<and>
     (not_before k (hist s) (m_stop_time s) \<longrightarrow> not_before k (hist s') (m_stop_time s')) \<and>
     (if m_continuous s then m_input_buf s' = m_input_buf s @ rs \<and> files s' = files s
      else m_input_buf s' = m_input_buf s \<and> (\<forall>p. p \<noteq> m_filename s \<longrightarrow> files s' p = files s p) \<and>
        (\<forall>f. files s (m_filename s) = Some f \<longrightarrow>
           files s' (m_filename s) = Some (f @ concat (map record_line rs))))"

lemma same_config_refl [simp]: "same_config s s"
  by (simp add: same_config_def)

lemma same_config_trans: "same_config s t \<Longrightarrow> same_config t u \<Longrightarrow> same_config s u"
  by (simp add: same_config_def)

lemma advances_refl: "advances k s [] s"
  by (simp add: advances_def)

lemma advances_trans:
  assumes "advances k s rs t" "advances k t rs' u"
  shows "advances k s (rs @ rs') u"
proof -
  obtain g g' where h: "hist t = g @ hist s" "hist u = g' @ hist t"
    using assms by (auto simp: advances_def)
  have "sorted (map ts_abs (rs @ rs'))"
    using assms by (auto simp: advances_def sorted_append)
  moreover have "\<forall>r \<in> set (rs @ rs'). not_before k (hist u) (ts_abs r)"
    using assms h by (auto simp: advances_def intro: not_before_later)
  moreover have "\<forall>t. not_before k (hist s) t \<longrightarrow> (\<forall>r \<in> set (rs @ rs'). t \<le> ts_abs r)"
    using assms not_before_later [of k "hist s" _ g] by (auto simp: advances_def h(1))
  ultimately show ?thesis
    using assms h by (auto simp: advances_def same_config_def)
qed

text \<open>Steps that only look at the system.\<close>

lemma advances_hist:
  "advances k s [] (s\<lparr>hist := g @ hist s\<rparr>)"
  "advances k s [] (s\<lparr>hist := c # hist s\<rparr>)"
  by (auto simp: advances_def same_config_def intro: not_before_later not_before_later [of _ _ _ "[c]", simplified])

lemma advances_log: "advances k s [] (log_error m s)"
  by (simp add: advances_def same_config_def log_error_def)

lemma advances_keyboard:
  "resolve_event_keysym x dev ev s = Inr (ks, s') \<Longrightarrow> advances k s [] s' \<and> hist s' = hist s"
  by (auto simp: resolve_event_keysym_def advances_def same_config_def Let_def split: option.splits if_splits)

lemma advances_stop:
  assumes "clock_ok k"
  shows "advances k s [] (s\<lparr>hist := Clock # hist s, m_stop := True, m_stop_time := k_ret k (Clock # hist s)\<rparr>)"
  using not_before_clock [OF assms] by (auto simp: advances_def same_config_def)

lemma advances_record:
  assumes "not_before k (hist s) (ts_abs r)" "\<And>t. not_before k h t \<Longrightarrow> t \<le> ts_abs r" "hist s = g @ h"
    "advances k s0 [] s" "hist s0 = h"
  shows "advances k s0 [r] (if \<not> m_continuous s then write_file (m_filename s) (record_line r) s
     else s\<lparr>m_input_buf := m_input_buf s @ [r]\<rparr>)"
  using assms by (auto simp: advances_def same_config_def write_file_def)

lemma process_event_advances:
  assumes "clock_ok k" "process_event k x dev ev s = Inr s'"
  shows "\<exists>rs. advances k s rs s'"
proof -
  let ?s1 = "s\<lparr>hist := Clock # hist s\<rparr>"
  obtain ev' where ev: "transform_event dev ev = Inr ev'"
    using assms(2) by (auto simp: process_event_def current_time_ms_def sys_call_def)
  show ?thesis
  proof (cases "uint (ev_type ev') = EV_KEY \<and> unat (ev_code ev') = KEY_ESC")
    case True
    then have "s' = ?s1\<lparr>hist := Clock # hist ?s1, m_stop := True, m_stop_time := k_ret k (Clock # hist ?s1)\<rparr>"
      using assms(2) ev by (simp add: process_event_def current_time_ms_def sys_call_def)
    with advances_trans [OF advances_hist(2) advances_stop [OF assms(1)]] show ?thesis by blast
  next
    case False
    then obtain ks s2 where s2: "resolve_event_keysym x dev ev' ?s1 = Inr (ks, s2)"
      using assms(2) ev by (auto simp: process_event_def current_time_ms_def sys_call_def)
    define r where "r = \<lparr>ts_abs = k_ret k (Clock # hist s), rec_dev_type = dev_type dev, input_type = ev_type ev',
      input_code = ev_code ev', input_val = ev_value ev', keysym = ks\<rparr>"
    have "s' = (if \<not> m_continuous s2 then write_file (m_filename s2) (record_line r) s2
        else s2\<lparr>m_input_buf := m_input_buf s2 @ [r]\<rparr>)"
      using assms(2) ev False s2
      by (auto simp: process_event_def current_time_ms_def sys_call_def r_def Let_def split: if_splits)
    moreover have s: "advances k s [] s2" "hist s2 = [Clock] @ hist s"
      using advances_keyboard [OF s2] advances_trans [OF advances_hist(2) [of k s Clock]] by force+
    moreover have nb: "not_before k (hist s2) (ts_abs r)"
      using not_before_clock [OF assms(1)] advances_keyboard [OF s2] by (simp add: r_def)
    moreover have "not_before k (hist s) t \<Longrightarrow> t \<le> ts_abs r" for t
      using not_before_now by (simp add: r_def)
    ultimately have "advances k s [r] s'"
      by (simp only: advances_record [OF nb _ s(2) s(1) refl])
    then show ?thesis by blast
  qed
qed

lemma read_device_advances:
  assumes "clock_ok k" "read_device k x dev s = Inr s'"
  shows "\<exists>rs. advances k s rs s'"
proof -
  let ?s1 = "s\<lparr>hist := Read (dev_fd dev) # hist s\<rparr>"
  have "s' = ?s1 \<or> s' = log_error ''Error reading from fd {}: {}'' ?s1 \<or>
      (\<exists>ev. process_event k x dev ev ?s1 = Inr s')"
    using assms(2) by (auto simp: read_device_def sys_call_def split: if_splits)
  then consider "s' = ?s1" | "s' = log_error ''Error reading from fd {}: {}'' ?s1"
    | (ev) "\<exists>ev. process_event k x dev ev ?s1 = Inr s'" by blast
  then show ?thesis
  proof cases
    case ev
    then show ?thesis
      using process_event_advances [OF assms(1)] advances_trans [OF advances_hist(2)] by blast
  qed (use advances_hist(2) advances_trans [OF advances_hist(2) advances_log] in blast)+
qed

lemma record_select_advances:
  assumes "record_select k ds s = (sel, s')"
  shows "advances k s [] s'"
proof -
  let ?s1 = "s\<lparr>hist := Select (map dev_fd ds) # hist s\<rparr>"
  have "s' = ?s1 \<or> s' = log_error ''Error in select: {}'' ?s1"
    using assms by (auto simp: record_select_def sys_call_def split: if_splits)
  with advances_hist(2) advances_trans [OF advances_hist(2) advances_log] show ?thesis by fastforce
qed

lemma is_done_advances: "is_done k s = (b, s') \<Longrightarrow> advances k s [] s'"
  using advances_refl [of k s] advances_hist(2) [of k s Clock]
  by (auto simp: is_done_def current_time_ms_def sys_call_def advances_def same_config_def split: if_splits)

end
