(* ===== verification/Recorder_Invariants.thy ===== *)
theory Recorder_Invariants
  imports Recorder_Threads
begin

text \<open>
  Invariants of the recorder machine over every interleaving: which combinations of control
  points occur, what the buffer of a continuous recording holds, and that every path
  \<open>Stop\<close> returns names a complete recording.
\<close>

section \<open>Effects of the remaining operations\<close>

lemma record_begin_effect:
  assumes "record_begin k s = Inr (ds, s')"
  shows "hist s' = Clock # hist s" "m_continuous s' = m_continuous s"
    "m_recording_length s' = m_recording_length s" "m_filename s' = m_filename s"
    "m_recording_path s' = m_recording_path s" "m_input_buf s' = m_input_buf s" "\<not> m_stop s'"
    "m_start_time s' = k_ret k (Clock # hist s)" "m_stop_time s' = m_stop_time s"
    "files s' = (if m_continuous s then files s
       else (files s)(m_filename s \<mapsto> recording_header (k_ret k (Clock # hist s))))"
  using assms
  by (auto simp: record_begin_def current_time_ms_def sys_call_def Let_def open_file_def write_file_def
      fun_eq_iff split: if_splits)

lemma trim_round_effect:
  "hist (trim_round k s) = Clock # hist s" "m_continuous (trim_round k s) = m_continuous s"
  "m_recording_length (trim_round k s) = m_recording_length s" "m_filename (trim_round k s) = m_filename s"
  "m_recording_path (trim_round k s) = m_recording_path s" "m_stop (trim_round k s) = m_stop s"
  "m_start_time (trim_round k s) = m_start_time s" "m_stop_time (trim_round k s) = m_stop_time s"
  "files (trim_round k s) = files s"
  "m_input_buf (trim_round k s) = trim_loop (k_ret k (Clock # hist s) - rec_length s) (m_input_buf s)"
  by (simp_all add: trim_round_def current_time_ms_def sys_call_def rec_length_def)

lemma request_stop_effect:
  "hist (request_stop k s) = Clock # hist s" "m_continuous (request_stop k s) = m_continuous s"
  "m_recording_length (request_stop k s) = m_recording_length s"
  "m_filename (request_stop k s) = m_filename s" "m_recording_path (request_stop k s) = m_recording_path s"
  "m_stop (request_stop k s)" "m_start_time (request_stop k s) = m_start_time s"
  "m_stop_time (request_stop k s) = k_ret k (Clock # hist s)" "files (request_stop k s) = files s"
  "m_input_buf (request_stop k s) = m_input_buf s"
  by (simp_all add: request_stop_def raise_stop_def stamp_stop_def current_time_ms_def sys_call_def)

lemma raise_stop_effect:
  "hist (raise_stop s) = hist s" "m_continuous (raise_stop s) = m_continuous s"
  "m_recording_length (raise_stop s) = m_recording_length s"
  "m_filename (raise_stop s) = m_filename s" "m_recording_path (raise_stop s) = m_recording_path s"
  "m_stop (raise_stop s)" "m_start_time (raise_stop s) = m_start_time s"
  "m_stop_time (raise_stop s) = m_stop_time s" "files (raise_stop s) = files s"
  "m_input_buf (raise_stop s) = m_input_buf s"
  by (simp_all add: raise_stop_def)

lemma stamp_stop_effect:
  "hist (stamp_stop k s) = Clock # hist s" "m_continuous (stamp_stop k s) = m_continuous s"
  "m_recording_length (stamp_stop k s) = m_recording_length s"
  "m_filename (stamp_stop k s) = m_filename s" "m_recording_path (stamp_stop k s) = m_recording_path s"
  "m_stop (stamp_stop k s) = m_stop s" "m_start_time (stamp_stop k s) = m_start_time s"
  "m_stop_time (stamp_stop k s) = k_ret k (Clock # hist s)" "files (stamp_stop k s) = files s"
  "m_input_buf (stamp_stop k s) = m_input_buf s"
  by (simp_all add: stamp_stop_def current_time_ms_def sys_call_def)

lemma is_done_effect:
  assumes "is_done k s = (b, s')"
  shows "m_stop s' \<longleftrightarrow> b" "m_continuous s \<Longrightarrow> s' = s" "files s' = files s" "m_input_buf s' = m_input_buf s"
    "m_stop_time s' = m_stop_time s" "m_start_time s' = m_start_time s" "m_filename s' = m_filename s"
    "m_recording_path s' = m_recording_path s" "m_continuous s' = m_continuous s"
    "m_recording_length s' = m_recording_length s"
  using assms by (auto simp: is_done_def current_time_ms_def sys_call_def split: if_splits)

lemma is_done_running: "is_done k s = (False, s') \<Longrightarrow> \<not> m_stop s"
  by (auto simp: is_done_def)

lemma is_done_stopped: "m_stop s \<Longrightarrow> is_done k s = (True, s)"
  by (simp add: is_done_def)

text \<open>The file of a dump.\<close>

definition dump_start :: "recorder \<Rightarrow> int" where
  "dump_start s = (if m_stop_time s - m_start_time s \<ge> rec_length s then m_stop_time s - rec_length s
     else m_start_time s)"

definition dump_path :: "kernel \<Rightarrow> recorder \<Rightarrow> string" where
  "dump_path k s = ''/tmp/'' @ m_filename s @ ''_'' @ k_text k (Clock # hist s) @ ''.rrc''"

lemma fold_write_lines:
  assumes "files s p = Some f"
  shows "fold (\<lambda>r s. write_file p (record_line r) s) rs s =
    s\<lparr>files := (files s)(p \<mapsto> f @ concat (map record_line rs))\<rparr>"
  using assms
proof (induction rs arbitrary: s f)
  case Nil
  then have "(files s)(p \<mapsto> f) = files s" by (simp add: fun_upd_idem)
  then show ?case by simp
qed (simp add: write_file_def)

lemma dump_buffer_eq:
  "dump_buffer k s =
     s\<lparr>hist := Clock # hist s, m_input_buf := final_trim (m_stop_time s - rec_length s) (m_input_buf s),
       m_recording_path := dump_path k s,
       files := (files s)(dump_path k s \<mapsto> recording_header (dump_start s) @
         concat (map record_line (final_trim (m_stop_time s - rec_length s) (m_input_buf s))))\<rparr>"
  by (simp add: dump_buffer_def file_timestamp_def sys_call_def open_file_def Let_def
      write_file_def [of _ "recording_header _"] fold_write_lines dump_path_def dump_start_def rec_length_def)

section \<open>Control points\<close>

definition control_inv :: "rmach \<Rightarrow> bool" where
  "control_inv m \<longleftrightarrow>
     (bpc m \<noteq> Buf_none \<longleftrightarrow> m_continuous (rst m) \<and> (rpc m \<in> {Rec_loop, Rec_wait_buf} \<or> reading (rpc m))) \<and>
     (rpc m = Rec_wait_buf \<longrightarrow> m_continuous (rst m)) \<and>
     (mpc m \<in> {Main_stopping, Main_joining, Main_releasing, Main_halting, Main_destroying} \<longrightarrow> rpc m \<noteq> Rec_none) \<and>
     (mpc m \<in> {Main_stopping, Main_halting} \<longrightarrow> m_stop (rst m)) \<and>
     (mpc m = Main_gone \<longrightarrow> rpc m = Rec_none) \<and>
     (bpc m = Buf_exited \<or> m_continuous (rst m) \<and> rpc m = Rec_exited \<longrightarrow> m_stop (rst m))"

lemma control_buffer: "control_inv m \<Longrightarrow> bpc m \<noteq> Buf_none \<Longrightarrow> m_continuous (rst m)"
  by (simp add: control_inv_def)

lemma control_gone: "control_inv m \<Longrightarrow> mpc m = Main_gone \<Longrightarrow> rpc m = Rec_none \<and> bpc m = Buf_none"
  unfolding control_inv_def by (elim conjE) simp

lemma record_select_config: "record_select k ds s = (sel, s') \<Longrightarrow> same_config s s'"
  using record_select_advances by (auto simp: advances_def)

lemma read_device_config:
  assumes "clock_ok k" "read_device k x d s = Inr s'"
  shows "same_config s s'"
  using read_device_advances [OF assms] by (auto simp: advances_def)

lemma close_devices_frame:
  "m_continuous (close_devices k s) = m_continuous s" "m_stop (close_devices k s) = m_stop s"
  "files (close_devices k s) = files s" "m_filename (close_devices k s) = m_filename s"
  "m_recording_path (close_devices k s) = m_recording_path s" "m_input_buf (close_devices k s) = m_input_buf s"
  "m_stop_time (close_devices k s) = m_stop_time s" "m_start_time (close_devices k s) = m_start_time s"
  "m_recording_length (close_devices k s) = m_recording_length s"
  unfolding close_devices_def by (rule fold_frame, simp add: sys_call_def)+

lemma release_xkb_frame:
  "hist (release_xkb s) = hist s" "m_continuous (release_xkb s) = m_continuous s"
  "m_stop (release_xkb s) = m_stop s" "files (release_xkb s) = files s"
  "m_filename (release_xkb s) = m_filename s" "m_recording_path (release_xkb s) = m_recording_path s"
  "m_input_buf (release_xkb s) = m_input_buf s" "m_stop_time (release_xkb s) = m_stop_time s"
  "m_start_time (release_xkb s) = m_start_time s" "m_recording_length (release_xkb s) = m_recording_length s"
  by (simp_all add: release_xkb_def)

lemmas op_effects = record_begin_effect trim_round_effect request_stop_effect raise_stop_effect stamp_stop_effect is_done_effect
  close_devices_frame release_xkb_frame dump_buffer_eq

lemma control_inv_step:
  assumes "clock_ok k" "rstep k x m l m'" "control_inv m"
  shows "control_inv m'"
  using assms(2)
proof cases
  case (round s sel s')
  with assms(3) record_select_config [OF round(6)] show ?thesis
    by (auto simp: control_inv_def after_loop_def same_config_def is_done_effect threads_alive_def
        dest: is_done_running split: option.splits)
next
  case (read d ds s')
  with assms(3) read_device_config [OF assms(1) read(5)] show ?thesis
    by (auto simp: control_inv_def same_config_def)
next
  case (rec_done s)
  with assms(3) is_done_effect(1,9) [OF rec_done(5)] show ?thesis
    by (simp add: control_inv_def after_loop_def)
next
  case (buf_go s)
  then have "s = rst m" using assms(3) is_done_effect(2) [OF buf_go(5)] by (simp add: control_inv_def)
  with assms(3) buf_go show ?thesis by (simp add: control_inv_def)
qed (use assms(3) in \<open>auto simp: control_inv_def op_effects threads_alive_def stop_mtx_free_def may_read_def
    dest: is_done_effect(1)\<close>)

lemma reachable_control:
  assumes "clock_ok k" "rec_sys.reachable k x filename len cont dir m"
  shows "control_inv m"
  using assms(2)
proof (rule rec_sys.reachable_invariant)
  show "rmach_start k x filename len cont dir m0 \<Longrightarrow> control_inv m0" for m0
    by (auto simp: rmach_start_def rmach_init_def control_inv_def)
qed (rule control_inv_step [OF assms(1)])

section \<open>The window of a continuous recording\<close>

definition window :: "kernel \<Rightarrow> syscall list \<Rightarrow> int \<Rightarrow> input_record_s list \<Rightarrow> input_record_s list \<Rightarrow> bool" where
  "window k h len buf recs \<longleftrightarrow>
     sorted (map ts_abs recs) \<and> (\<forall>r \<in> set recs. not_before k h (ts_abs r)) \<and>
     (length recs \<le> FILE_MAX_LINES \<longrightarrow>
        (\<exists>c. not_before k h (c + len) \<and> buf = filter (\<lambda>r. c \<le> ts_abs r) recs))"

lemma window_later: "window k h len buf recs \<Longrightarrow> window k (g @ h) len buf recs"
  unfolding window_def using not_before_later by blast

lemma window_Cons: "window k h len buf recs \<Longrightarrow> window k (c # h) len buf recs"
  using window_later [of k h len buf recs "[c]"] by simp

lemma window_push:
  assumes "advances k s rs s'" "m_continuous s" "0 \<le> len" "window k (hist s) len (m_input_buf s) recs"
  shows "window k (hist s') len (m_input_buf s') (recs @ rs)"
proof -
  obtain g where g: "hist s' = g @ hist s" using assms(1) by (auto simp: advances_def)
  have "sorted (map ts_abs (recs @ rs))"
    using assms(1,4) by (auto simp: window_def advances_def sorted_append)
  moreover have "\<forall>r \<in> set (recs @ rs). not_before k (hist s') (ts_abs r)"
    using assms(1,4) g by (auto simp: window_def advances_def intro: not_before_later)
  moreover have "\<exists>c. not_before k (hist s') (c + len) \<and>
      m_input_buf s' = filter (\<lambda>r. c \<le> ts_abs r) (recs @ rs)"
    if small: "length (recs @ rs) \<le> FILE_MAX_LINES"
  proof -
    obtain c where c: "not_before k (hist s) (c + len)" "m_input_buf s = filter (\<lambda>r. c \<le> ts_abs r) recs"
      using assms(4) small by (auto simp: window_def)
    with assms(1) have "\<forall>r \<in> set rs. c + len \<le> ts_abs r" by (simp add: advances_def)
    then have "filter (\<lambda>r. c \<le> ts_abs r) rs = rs" using assms(3) by (auto simp: filter_id_conv)
    with c assms(1,2) g show ?thesis by (auto simp: advances_def intro!: exI [of _ c] not_before_later)
  qed
  ultimately show ?thesis by (simp add: window_def)
qed

lemma window_trim:
  assumes "clock_ok k" "window k h len buf recs"
  shows "window k (Clock # h) len (trim_loop (k_ret k (Clock # h) - len) buf) recs"
proof -
  have "\<exists>c. not_before k (Clock # h) (c + len) \<and>
      trim_loop (k_ret k (Clock # h) - len) buf = filter (\<lambda>r. c \<le> ts_abs r) recs"
    if small: "length recs \<le> FILE_MAX_LINES"
  proof -
    obtain c where c: "not_before k h (c + len)" "buf = filter (\<lambda>r. c \<le> ts_abs r) recs"
      using assms(2) small by (auto simp: window_def)
    let ?c = "max c (k_ret k (Clock # h) - len)"
    have "not_before k (Clock # h) (?c + len)"
      using not_before_clock [OF assms(1), of h] not_before_now [OF c(1)] by (simp add: max_def)
    moreover have "trim_loop (k_ret k (Clock # h) - len) buf = filter (\<lambda>r. ?c \<le> ts_abs r) recs"
      unfolding c(2) using assms(2) small by (intro live_trim.trim_window) (simp_all add: window_def)
    ultimately show ?thesis by blast
  qed
  with window_Cons [OF assms(2)] show ?thesis by (simp add: window_def)
qed

lemma window_final:
  assumes "window k h len buf recs" "not_before k h stop" "length recs \<le> FILE_MAX_LINES"
  obtains c where "stop - len \<le> c" "not_before k h (c + len)"
    "final_trim (stop - len) buf = filter (\<lambda>r. c \<le> ts_abs r) recs"
proof -
  obtain c where c: "not_before k h (c + len)" "buf = filter (\<lambda>r. c \<le> ts_abs r) recs"
    using assms(1,3) by (auto simp: window_def)
  have "final_trim (stop - len) buf = filter (\<lambda>r. max c (stop - len) \<le> ts_abs r) recs"
    unfolding c(2) using assms(1) by (intro dump_trim.trim_window) (simp_all add: window_def)
  moreover have "not_before k h (max c (stop - len) + len)"
    using assms(2) c(1) by (simp add: max_def)
  ultimately show thesis using that by (metis max.cobounded2)
qed

lemma window_dump:
  assumes "window k h len buf recs" "not_before k h stop"
  shows "window k (Clock # h) len (final_trim (stop - len) buf) recs"
proof -
  have "\<exists>c. not_before k (Clock # h) (c + len) \<and> final_trim (stop - len) buf = filter (\<lambda>r. c \<le> ts_abs r) recs"
    if "length recs \<le> FILE_MAX_LINES"
    by (rule window_final [OF assms that]) (metis not_before_later append_Cons append_Nil)
  with window_Cons [OF assms(1)] show ?thesis by (simp add: window_def)
qed

definition window_inv :: "kernel \<Rightarrow> rmach \<Rightarrow> bool" where
  "window_inv k m \<longleftrightarrow> m_continuous (rst m) \<and> not_before k (hist (rst m)) (m_stop_time (rst m)) \<and>
     window k (hist (rst m)) (rec_length (rst m)) (m_input_buf (rst m)) (glog m)"

lemma new_records_advances:
  assumes "advances k s rs s'"
  shows "new_records s s' = (if m_continuous s then rs else [])"
  using assms by (simp add: advances_def new_records_def)

lemma window_inv_advances:
  assumes "advances k (rst m) rs s'" "window_inv k m"
  shows "window_inv k (m\<lparr>rst := s', glog := glog m @ rs\<rparr>)"
  using assms window_push [OF assms(1), of "rec_length (rst m)" "glog m"]
  by (auto simp: window_inv_def advances_def same_config_def rec_length_def)

lemma window_inv_hist:
  "window_inv k m \<Longrightarrow> hist s' = g @ hist (rst m) \<Longrightarrow> m_continuous s' = m_continuous (rst m) \<Longrightarrow>
   m_stop_time s' = m_stop_time (rst m) \<Longrightarrow> m_recording_length s' = m_recording_length (rst m) \<Longrightarrow>
   m_input_buf s' = m_input_buf (rst m) \<Longrightarrow> window_inv k (m\<lparr>rst := s'\<rparr>)"
  by (simp add: window_inv_def rec_length_def window_later not_before_later)

lemma window_inv_control [simp]:
  "window_inv k (m\<lparr>rpc := a\<rparr>) = window_inv k m" "window_inv k (m\<lparr>bpc := b\<rparr>) = window_inv k m"
  "window_inv k (m\<lparr>mpc := c\<rparr>) = window_inv k m" "window_inv k (m\<lparr>devs := d\<rparr>) = window_inv k m"
  "window_inv k (m\<lparr>outcome := e\<rparr>) = window_inv k m"
  by (simp_all add: window_inv_def)

text \<open>Each operation on the object keeps the window.\<close>

lemma window_inv_stop:
  assumes "clock_ok k" "window_inv k m" "hist s = hist (rst m)" "m_continuous s = m_continuous (rst m)"
    "m_recording_length s = m_recording_length (rst m)" "m_input_buf s = m_input_buf (rst m)"
  shows "window_inv k (m\<lparr>rst := request_stop k s\<rparr>)"
  using assms not_before_clock [OF assms(1)]
  by (simp add: window_inv_def request_stop_effect rec_length_def window_Cons)

lemma window_inv_raise: "window_inv k m \<Longrightarrow> window_inv k (m\<lparr>rst := raise_stop (rst m)\<rparr>)"
  by (rule window_inv_hist [of _ _ _ "[]"]) (simp_all add: raise_stop_effect)

lemma window_inv_stamp:
  "clock_ok k \<Longrightarrow> window_inv k m \<Longrightarrow> window_inv k (m\<lparr>rst := stamp_stop k (rst m)\<rparr>)"
  using not_before_clock [of k] by (simp add: window_inv_def stamp_stop_effect rec_length_def window_Cons)

lemma window_inv_close:
  "window_inv k (m\<lparr>rst := s\<rparr>) \<Longrightarrow> window_inv k (m\<lparr>rst := close_devices k s\<rparr>)"
  using window_inv_hist [of k "m\<lparr>rst := s\<rparr>" "close_devices k s"]
  by (simp add: close_devices_hist close_devices_frame)

lemma window_inv_trim:
  assumes "clock_ok k" "window_inv k m"
  shows "window_inv k (m\<lparr>rst := trim_round k (rst m)\<rparr>)"
  using assms window_trim [OF assms(1)] not_before_later [of k "hist (rst m)" _ "[Clock]"]
  by (simp add: window_inv_def trim_round_effect rec_length_def)

lemma window_inv_dump:
  assumes "window_inv k m"
  shows "window_inv k (m\<lparr>rst := dump_buffer k (rst m)\<rparr>)"
  using assms window_dump not_before_later [of k "hist (rst m)" _ "[Clock]"]
  by (simp add: window_inv_def dump_buffer_eq rec_length_def)

lemma window_inv_step:
  assumes ok: "clock_ok k" and step: "rstep k x m l m'" and inv: "window_inv k m"
  shows "window_inv k m'"
proof -
  have cont: "m_continuous (rst m)" using inv by (simp add: window_inv_def)
  show ?thesis
    using step
  proof cases
    case (round s sel s')
    have "s = rst m" using is_done_effect(2) [OF round(5) cont] .
    with record_select_advances [OF round(6)] have "advances k (rst m) [] s'" by simp
    from window_inv_advances [OF this inv] have "window_inv k (m\<lparr>rst := s'\<rparr>)" by (simp add: window_inv_def)
    with round(2) show ?thesis by (simp add: window_inv_def)
  next
    case (read d ds s')
    obtain rs where rs: "advances k (rst m) rs s'" "new_records (rst m) s' = rs"
      using read_device_advances [OF ok read(5)] cont new_records_advances by (metis (full_types))
    have "window_inv k (m\<lparr>rst := s', glog := glog m @ rs\<rparr>)"
      by (rule window_inv_advances [OF rs(1) inv])
    with read(2) rs(2) show ?thesis by (simp add: window_inv_def)
  next
    case (begin_ok ds s)
    have "window_inv k (m\<lparr>rst := s\<rparr>)"
      by (rule window_inv_hist [OF inv, of s "[Clock]"]) (simp_all add: record_begin_effect [OF begin_ok(6)])
    with begin_ok(2) show ?thesis by (simp add: window_inv_def)
  next
    case destroy
    have "window_inv k (m\<lparr>rst := release_xkb (rst m)\<rparr>)"
      by (rule window_inv_hist [OF inv, of _ "[]"]) (simp_all add: release_xkb_frame)
    from window_inv_close [OF this] destroy(2) show ?thesis by (simp add: window_inv_def)
  next
    case destroy_release
    with inv show ?thesis by (simp add: window_inv_def release_xkb_frame rec_length_def)
  next
    case destroy_join
    with inv window_inv_close [where k = k and m = m and s = "rst m"] show ?thesis by (simp add: window_inv_def)
  qed (use inv cont window_inv_stop [OF ok inv refl refl refl refl] window_inv_trim [OF ok inv]
      window_inv_raise [OF inv] window_inv_stamp [OF ok inv]
      window_inv_dump [OF inv] in \<open>auto simp: window_inv_def dest!: is_done_effect(2)\<close>)
qed

section \<open>The freshly constructed recorder\<close>

text \<open>The search for devices changes nothing but the table, the history and the messages.\<close>

definition unscanned :: "recorder \<Rightarrow> recorder" where
  "unscanned s = s\<lparr>hist := [], errs := [], available_devices := []\<rparr>"

lemma unscanned_prims [simp]:
  "unscanned (s\<lparr>hist := h\<rparr>) = unscanned s" "unscanned (log_error m s) = unscanned s"
  "unscanned (call_or_log k c m s) = unscanned s" "unscanned (s\<lparr>available_devices := ds\<rparr>) = unscanned s"
  by (simp_all add: unscanned_def log_error_def call_or_log_def sys_call_def)

lemma unscanned_get_abs [simp]: "unscanned (snd (get_abs k fd ax w s)) = unscanned s"
  by (simp add: get_abs_def sys_call_def split: option.split)

lemma unscanned_get_ranges [simp]: "unscanned (snd (get_ranges k fd t s)) = unscanned s"
  by (cases t) (simp_all add: get_ranges_def case_prod_beta)

lemma unscanned_probe [simp]: "unscanned (probe_device k fd s) = unscanned s"
  by (simp add: probe_device_def Let_def case_prod_beta split: option.split)

lemma unscanned_entry [simp]: "unscanned (process_entry k ent s) = unscanned s"
  by (simp add: process_entry_def sys_call_def)

lemma unscanned_loop:
  assumes "entry_loop k s = Some s'"
  shows "unscanned s' = unscanned s"
proof (rule entry_loop.raw_induct [OF _ assms])
  fix loop :: "kernel \<Rightarrow> recorder \<Rightarrow> recorder option" and k s s'
  assume "\<And>k s s'. loop k s = Some s' \<Longrightarrow> unscanned s' = unscanned s"
    and "(case sys_call k Readdir s of (r, s1) \<Rightarrow>
      (case k_dirent k (hist s1) of None \<Rightarrow> Some s1 | Some ent \<Rightarrow> loop k (process_entry k ent s1))) = Some s'"
  then show "unscanned s' = unscanned s"
    by (auto simp: sys_call_def split: option.splits)
qed

lemma unscanned_find: "findDevices k s = Some s' \<Longrightarrow> unscanned s' = unscanned s"
  by (auto simp: findDevices_def sys_call_def dest!: unscanned_loop split: if_splits option.splits)

lemma unscanned_fields:
  assumes "unscanned s' = unscanned s"
  shows "m_continuous s' = m_continuous s" "m_input_buf s' = m_input_buf s" "m_stop s' = m_stop s"
    "m_stop_time s' = m_stop_time s" "m_start_time s' = m_start_time s"
    "m_recording_length s' = m_recording_length s" "xkb_released s' = xkb_released s"
  using arg_cong [OF assms, of m_continuous] arg_cong [OF assms, of m_input_buf]
    arg_cong [OF assms, of m_stop] arg_cong [OF assms, of m_stop_time]
    arg_cong [OF assms, of m_start_time] arg_cong [OF assms, of m_recording_length]
    arg_cong [OF assms, of xkb_released]
  by (simp_all add: unscanned_def)

lemma construct_recorder_fields:
  assumes "construct_recorder k x filename len cont dir = Some s"
  shows "m_continuous s = cont" "m_input_buf s = []" "m_stop s" "m_stop_time s = 0" "m_start_time s = 0"
    "m_recording_length s = len * 1000" "\<not> cont \<Longrightarrow> m_recording_path s = m_filename s" "\<not> xkb_released s"
proof -
  obtain u where u: "findDevices k (recorder_init len cont dir) = Some u"
    "s = set_filename filename (rec_setup_xkb x u)"
    using assms by (auto simp: construct_recorder_def split: option.splits)
  note fields = unscanned_fields [OF unscanned_find [OF u(1)]]
  show "m_continuous s = cont" "m_input_buf s = []" "m_stop s" "m_stop_time s = 0" "m_start_time s = 0"
    "m_recording_length s = len * 1000" "\<not> cont \<Longrightarrow> m_recording_path s = m_filename s" "\<not> xkb_released s"
    by (simp_all add: u(2) set_filename_def rec_setup_xkb_def log_error_def Let_def fields)
      (simp_all add: recorder_init_def)
qed

lemma reachable_window:
  assumes "clock_ok k" "rec_sys.reachable k x filename len True dir m"
  shows "window_inv k m"
  using assms(2)
proof (rule rec_sys.reachable_invariant)
  fix m0
  assume "rmach_start k x filename len True dir m0"
  then obtain s where s: "construct_recorder k x filename len True dir = Some s" "m0 = rmach_init s"
    by (auto simp: rmach_start_def)
  have "window k (hist s) (rec_length s) [] []"
    using not_before_zero [OF assms(1)] by (auto simp: window_def intro: exI [of _ "- rec_length s"])
  then show "window_inv k m0"
    using construct_recorder_fields [OF s(1)] not_before_zero [OF assms(1)]
    by (simp add: s(2) rmach_init_def window_inv_def)
qed (rule window_inv_step [OF assms(1)])

end
