(* ===== verification/Recorder_Properties.thy ===== *)
theory Recorder_Properties
  imports Recorder_Invariants
begin

text \<open>
  The properties of the recorder: what \<open>Stop\<close> returns and when, what a continuous
  recording contains, and the schedules in which \<open>Start\<close> and \<open>Stop\<close> do not do what their
  caller expects.
\<close>

section \<open>Files\<close>

definition good_file :: "recorder \<Rightarrow> string \<Rightarrow> bool" where
  "good_file s p \<longleftrightarrow> (\<exists>start rs. 0 \<le> start \<and> (\<forall>r \<in> set rs. 0 \<le> ts_abs r) \<and>
     files s p = Some (recording_header start @ concat (map record_line rs)))"

lemma good_file_cong: "files s' = files s \<Longrightarrow> good_file s' p = good_file s p"
  by (simp add: good_file_def)

lemma good_fileI:
  "files s p = Some (recording_header start @ concat (map record_line rs)) \<Longrightarrow> 0 \<le> start \<Longrightarrow>
   \<forall>r \<in> set rs. 0 \<le> ts_abs r \<Longrightarrow> good_file s p"
  unfolding good_file_def by blast

lemma advances_nonneg: "clock_ok k \<Longrightarrow> advances k s rs s' \<Longrightarrow> \<forall>r \<in> set rs. 0 \<le> ts_abs r"
  using not_before_zero by (auto simp: advances_def)

lemma good_file_advances:
  assumes "clock_ok k" "advances k s rs s'" "good_file s p" "\<not> m_continuous s \<Longrightarrow> p = m_filename s"
  shows "good_file s' p"
proof (cases "m_continuous s")
  case True
  with assms(2) have "files s' = files s" by (simp add: advances_def)
  with assms(3) show ?thesis by (simp add: good_file_def)
next
  case False
  then obtain start rs0 where f: "0 \<le> start" "\<forall>r \<in> set rs0. 0 \<le> ts_abs r"
      "files s (m_filename s) = Some (recording_header start @ concat (map record_line rs0))"
    using assms(3,4) by (auto simp: good_file_def)
  with False assms(2) have "files s' p = Some (recording_header start @ concat (map record_line (rs0 @ rs)))"
    using assms(4) by (simp add: advances_def)
  then show ?thesis
    using f advances_nonneg [OF assms(1,2)] by (intro good_fileI [where rs = "rs0 @ rs"]) auto
qed

definition file_inv :: "rmach \<Rightarrow> bool" where
  "file_inv m \<longleftrightarrow>
     0 \<le> m_start_time (rst m) \<and> (\<forall>r \<in> set (m_input_buf (rst m)). 0 \<le> ts_abs r) \<and>
     (\<not> m_continuous (rst m) \<longrightarrow> m_recording_path (rst m) = m_filename (rst m) \<and>
        (rpc m \<in> {Rec_loop, Rec_exited} \<or> reading (rpc m) \<longrightarrow> good_file (rst m) (m_filename (rst m))) \<and>
        (\<forall>p. outcome m = Some (Inr p) \<longrightarrow> p = m_filename (rst m))) \<and>
     (m_continuous (rst m) \<and> (bpc m = Buf_exited \<or> rpc m = Rec_exited) \<longrightarrow>
        good_file (rst m) (m_recording_path (rst m))) \<and>
     (\<forall>p. outcome m = Some (Inr p) \<longrightarrow> good_file (rst m) p)"

lemma set_trims: "set (trim_loop c b) \<subseteq> set b" "set (final_trim c b) \<subseteq> set b"
  by (induction b) auto

lemma good_file_dump:
  assumes "good_file s p \<or> p = dump_path k s" "0 \<le> m_start_time s" "\<forall>r \<in> set (m_input_buf s). 0 \<le> ts_abs r"
  shows "good_file (dump_buffer k s) p"
proof (cases "p = dump_path k s")
  case True
  have "0 \<le> dump_start s" using assms(2) by (simp add: dump_start_def)
  moreover have "\<forall>r \<in> set (final_trim (m_stop_time s - rec_length s) (m_input_buf s)). 0 \<le> ts_abs r"
    using set_trims(2) assms(3) by blast
  ultimately show ?thesis
    by (intro good_fileI [where start = "dump_start s" and
          rs = "final_trim (m_stop_time s - rec_length s) (m_input_buf s)"])
      (simp_all add: True dump_buffer_eq)
next
  case False
  with assms(1) show ?thesis by (simp add: good_file_def dump_buffer_eq)
qed

text \<open>The invariant moves along steps that keep the files and the configuration.\<close>

lemma file_inv_frame:
  assumes "file_inv m" "files s = files (rst m)" "m_start_time s = m_start_time (rst m)"
    "set (m_input_buf s) \<subseteq> set (m_input_buf (rst m))" "m_continuous s = m_continuous (rst m)"
    "m_recording_path s = m_recording_path (rst m)" "m_filename s = m_filename (rst m)"
  shows "file_inv (m\<lparr>rst := s\<rparr>)"
  using assms by (auto simp: file_inv_def good_file_def)

lemma file_inv_round:
  assumes "clock_ok k" "advances k (rst m) rs s'" "file_inv m" "rpc m = Rec_loop \<or> reading (rpc m)"
    "r = after_loop s' \<or> reading r"
  shows "file_inv (m\<lparr>rst := s', rpc := r, glog := gl\<rparr>)"
proof -
  have path: "m_continuous s' = m_continuous (rst m)" "m_filename s' = m_filename (rst m)"
    "m_recording_path s' = m_recording_path (rst m)" "m_start_time s' = m_start_time (rst m)"
    using assms(2) by (auto simp: advances_def same_config_def)
  have "\<forall>q \<in> set (m_input_buf s'). 0 \<le> ts_abs q"
    using assms(2,3) advances_nonneg [OF assms(1,2)] by (auto simp: advances_def file_inv_def split: if_splits)
  moreover have "good_file (rst m) p \<Longrightarrow> (\<not> m_continuous (rst m) \<Longrightarrow> p = m_filename (rst m)) \<Longrightarrow> good_file s' p" for p
    using good_file_advances [OF assms(1,2)] by blast
  ultimately show ?thesis
    using assms(3-5) by (auto simp: file_inv_def path after_loop_def)
qed

lemma file_inv_begin:
  assumes "clock_ok k" "file_inv m" "record_begin k (rst m) = Inr (ds, s)"
  shows "file_inv (m\<lparr>rst := s, devs := ds, rpc := Rec_loop, bpc := (if m_continuous s then Buf_check else Buf_none)\<rparr>)"
proof -
  have now: "0 \<le> k_ret k (Clock # hist (rst m))" using assms(1) by (simp add: clock_ok_def)
  have "good_file s (m_filename s)" if "\<not> m_continuous (rst m)"
    using that now record_begin_effect [OF assms(3)]
    by (intro good_fileI [where start = "k_ret k (Clock # hist (rst m))" and rs = "[]"]) simp_all
  moreover have "good_file (rst m) p \<Longrightarrow> good_file s p" if "m_continuous (rst m)" for p
    using that record_begin_effect(10) [OF assms(3)] by (simp add: good_file_def)
  ultimately show ?thesis
    using assms(2) now record_begin_effect [OF assms(3)] by (auto simp: file_inv_def)
qed

lemma file_inv_done:
  assumes "is_done k (rst m) = (b, s)" "file_inv m"
  shows "file_inv (m\<lparr>rst := s\<rparr>)"
  by (rule file_inv_frame [OF assms(2)]) (simp_all add: is_done_effect [OF assms(1)])

lemma file_inv_step:
  assumes ok: "clock_ok k" and step: "rstep k x m l m'" and ctl: "control_inv m" and inv: "file_inv m"
  shows "file_inv m'"
  using step
proof cases
  case (round s sel s')
  have adv: "advances k (rst m) ([] @ []) s'"
    by (rule advances_trans [OF is_done_advances [OF round(5)] record_select_advances [OF round(6)]])
  have "file_inv (m\<lparr>rst := s', rpc := (case sel of None \<Rightarrow> after_loop s' | Some ds \<Rightarrow> Rec_reading ds), glog := glog m\<rparr>)"
    by (rule file_inv_round [OF ok adv inv]) (use round(4) in \<open>simp, cases sel, simp_all\<close>)
  then show ?thesis unfolding round(2) by (simp add: file_inv_def)
next
  case (read d ds s')
  obtain rs where "advances k (rst m) rs s'" using read_device_advances [OF ok read(5)] by blast
  then show ?thesis unfolding read(2) by (rule file_inv_round [OF ok _ inv]) (simp_all add: read(4))
next
  case (begin_ok ds s)
  with file_inv_begin [OF ok inv] show ?thesis by simp
next
  case (rec_done s)
  have "bpc m = Buf_exited \<longrightarrow> m_continuous (rst m)" using control_buffer [OF ctl] by simp
  with file_inv_done [OF rec_done(5) inv] rec_done is_done_effect(9) [OF rec_done(5)] show ?thesis
    by (auto simp: file_inv_def after_loop_def)
next
  case (buf_go s)
  with file_inv_done [OF _ inv] show ?thesis by (fastforce simp: file_inv_def)
next
  case buf_trim
  have "file_inv (m\<lparr>rst := trim_round k (rst m)\<rparr>)"
    by (rule file_inv_frame [OF inv]) (simp_all add: trim_round_effect set_trims)
  with buf_trim show ?thesis by (simp add: file_inv_def)
next
  case (buf_dump s)
  have cont: "m_continuous (rst m)" using control_buffer [OF ctl] buf_dump(4) by simp
  then have s: "s = rst m" using is_done_effect(2) [OF buf_dump(5)] by simp
  have "good_file (rst m) p \<or> p = dump_path k (rst m) \<Longrightarrow> good_file (dump_buffer k (rst m)) p" for p
    using good_file_dump inv by (simp add: file_inv_def)
  moreover have "\<forall>r \<in> set (m_input_buf (dump_buffer k (rst m))). 0 \<le> ts_abs r"
    using inv subsetD [OF set_trims(2)] by (fastforce simp: file_inv_def dump_buffer_eq)
  moreover have "m_continuous (dump_buffer k (rst m))" "m_recording_path (dump_buffer k (rst m)) = dump_path k (rst m)"
    "m_start_time (dump_buffer k (rst m)) = m_start_time (rst m)"
    using cont by (simp_all add: dump_buffer_eq)
  ultimately show ?thesis
    using inv unfolding buf_dump(2) s by (auto simp: file_inv_def)
next
  case destroy
  have "file_inv (m\<lparr>rst := close_devices k (release_xkb (rst m))\<rparr>)"
    by (rule file_inv_frame [OF inv]) (simp_all add: close_devices_frame release_xkb_frame)
  with destroy show ?thesis by (simp add: file_inv_def)
next
  case destroy_release
  have "file_inv (m\<lparr>rst := release_xkb (rst m)\<rparr>)"
    by (rule file_inv_frame [OF inv]) (simp_all add: release_xkb_frame)
  with destroy_release show ?thesis by (simp add: file_inv_def)
next
  case destroy_stop
  have "file_inv (m\<lparr>rst := raise_stop (rst m)\<rparr>)"
    by (rule file_inv_frame [OF inv]) (simp_all add: raise_stop_effect)
  with destroy_stop show ?thesis by (simp add: file_inv_def)
next
  case destroy_join
  have "file_inv (m\<lparr>rst := close_devices k (rst m)\<rparr>)"
    by (rule file_inv_frame [OF inv]) (simp_all add: close_devices_frame)
  with destroy_join show ?thesis by (simp add: file_inv_def)
next
  case stop
  have "file_inv (m\<lparr>rst := raise_stop (rst m)\<rparr>)"
    by (rule file_inv_frame [OF inv]) (simp_all add: raise_stop_effect)
  with stop show ?thesis by (simp add: file_inv_def)
next
  case stop_time
  have "file_inv (m\<lparr>rst := stamp_stop k (rst m)\<rparr>)"
    by (rule file_inv_frame [OF inv]) (simp_all add: stamp_stop_effect)
  with stop_time show ?thesis by (simp add: file_inv_def)
next
  case destroy_time
  have "file_inv (m\<lparr>rst := stamp_stop k (rst m)\<rparr>)"
    by (rule file_inv_frame [OF inv]) (simp_all add: stamp_stop_effect)
  with destroy_time show ?thesis by (simp add: file_inv_def)
next
  case stop_no_thread
  have "file_inv (m\<lparr>rst := request_stop k (rst m)\<rparr>)"
    by (rule file_inv_frame [OF inv]) (simp_all add: request_stop_effect)
  with stop_no_thread show ?thesis by (simp add: file_inv_def)
next
  case join_buf
  have "m_continuous (rst m)" using ctl join_buf(5) by (auto simp: control_inv_def)
  with join_buf inv show ?thesis by (auto simp: file_inv_def)
qed (use inv in \<open>auto simp: file_inv_def\<close>)

lemma reachable_files:
  assumes "clock_ok k" "rec_sys.reachable k x filename len cont dir m"
  shows "file_inv m"
proof -
  have "control_inv m \<and> file_inv m"
    using assms(2)
  proof (rule rec_sys.reachable_invariant)
    fix m0
    assume "rmach_start k x filename len cont dir m0"
    then obtain s where s: "construct_recorder k x filename len cont dir = Some s" "m0 = rmach_init s"
      by (auto simp: rmach_start_def)
    show "control_inv m0 \<and> file_inv m0"
      using construct_recorder_fields [OF s(1)]
      by (simp add: s(2) rmach_init_def file_inv_def control_inv_def)
  qed (use control_inv_step [OF assms(1)] file_inv_step [OF assms(1)] in blast)
  then show ?thesis by blast
qed

section \<open>Termination of Stop and of the destructor\<close>

text \<open>A call of \<open>Stop\<close>, or a destructor, that has raised the flag after the recording thread began, and the
  number of steps that can still be made before the thread can be joined.\<close>

definition waiting :: "rmach \<Rightarrow> bool" where
  "waiting m \<longleftrightarrow> mpc m \<in> {Main_stopping, Main_joining, Main_halting, Main_destroying}"

definition stop_pending :: "rmach \<Rightarrow> bool" where
  "stop_pending m \<longleftrightarrow> waiting m \<and> m_stop (rst m) \<and> rpc m \<noteq> Rec_spawned"

fun unread :: "rec_pc \<Rightarrow> in_device_s list" where
  "unread (Rec_reading ds) = ds"
| "unread _ = []"

definition steps_left :: "rmach \<Rightarrow> nat" where
  "steps_left m =
     (case rpc m of Rec_reading ds \<Rightarrow> 3 + length ds | Rec_loop \<Rightarrow> 2 | Rec_wait_buf \<Rightarrow> 1 | _ \<Rightarrow> 0) +
     (case bpc m of Buf_wait \<Rightarrow> 2 | Buf_check \<Rightarrow> 1 | _ \<Rightarrow> 0) +
     (if mpc m \<in> {Main_stopping, Main_halting} then 1 else 0)"

lemma steps_left_bound: "steps_left m \<le> 6 + length (unread (rpc m))"
  by (auto simp: steps_left_def split: rec_pc.split buf_pc.split)

lemma stop_pending_step:
  assumes "clock_ok k" "rstep k x m l m'" "stop_pending m" "l \<notin> {L_join, L_destroy_join}"
  shows "stop_pending m' \<and> steps_left m' < steps_left m \<or> death m' \<noteq> None \<and> 0 < steps_left m"
  using assms(2)
proof cases
  case (rec_done s)
  with assms(3) have "s = rst m" by (simp add: stop_pending_def is_done_stopped)
  with rec_done assms(3) show ?thesis by (auto simp: stop_pending_def waiting_def steps_left_def after_loop_def)
next
  case (buf_dump s)
  with assms(3) have "s = rst m" by (simp add: stop_pending_def is_done_stopped)
  with buf_dump assms(3) show ?thesis by (auto simp: stop_pending_def waiting_def steps_left_def dump_buffer_eq)
next
  case (read d ds s')
  with read_device_config [OF assms(1) read(5)] assms(3) show ?thesis
    by (auto simp: stop_pending_def waiting_def steps_left_def same_config_def)
qed (use assms(3,4) in \<open>auto simp: stop_pending_def waiting_def steps_left_def is_done_stopped trim_round_effect
    stamp_stop_effect\<close>)

lemma dead_stays: "rec_sys.run k x m ls m' \<Longrightarrow> death m \<noteq> None \<Longrightarrow> ls = [] \<and> m' = m"
  by (induction rule: rec_sys.run.induct)
    (auto simp: threads_alive_def may_read_def death_def split: main_pc.splits elim: rstep.cases)

lemma stop_pending_run:
  assumes "clock_ok k" "rec_sys.run k x m ls m'" "stop_pending m" "set ls \<inter> {L_join, L_destroy_join} = {}"
  shows "(stop_pending m' \<or> death m' \<noteq> None) \<and> length ls \<le> steps_left m"
  using assms(2-4)
proof (induction rule: rec_sys.run.induct)
  case (run_cons s l t ls u)
  then consider "stop_pending t" "steps_left t < steps_left s" | (dead) "death t \<noteq> None" "0 < steps_left s"
    using stop_pending_step [OF assms(1) run_cons(1)] by auto
  then show ?case
  proof cases
    case dead
    then show ?thesis using dead_stays [OF run_cons(2)] by simp
  qed (use run_cons in auto)
qed simp

lemma stop_pending_progress:
  assumes "stop_pending m" "control_inv m"
  shows "\<exists>l m'. rstep k x m l m'"
proof -
  have run: "threads_alive m" and stopped: "is_done k (rst m) = (True, rst m)"
    using assms(1) by (auto simp: stop_pending_def waiting_def is_done_stopped threads_alive_def)
  consider "mpc m = Main_stopping" | "mpc m = Main_halting" | (joining) "mpc m \<in> {Main_joining, Main_destroying}"
    using assms(1) by (auto simp: stop_pending_def waiting_def)
  then show ?thesis
  proof cases
    case joining
    then have free: "stop_mtx_free m" by auto
    show ?thesis
    proof (cases "rpc m")
      case Rec_loop
      then show ?thesis using rec_done [OF run Rec_loop stopped] by blast
    next
      case (Rec_reading ds)
      show ?thesis
      proof (cases ds)
        case Nil
        with Rec_reading rstep.read_end [OF run] show ?thesis by blast
      next
        case (Cons d ds')
        have may: "may_read k d m" using run free by (simp add: may_read_def)
        from Rec_reading Cons rstep.read [OF may] rstep.read_err [OF may] show ?thesis
          by (cases "read_device k x d (rst m)") blast+
      qed
    next
      case Rec_wait_buf
      then have "bpc m \<noteq> Buf_none" using assms(2) by (auto simp: control_inv_def)
      then show ?thesis
        using join_buf [OF run Rec_wait_buf] buf_dump [OF run _ stopped] buf_trim [OF run free]
        by (cases "bpc m") blast+
    next
      case Rec_exited
      with joining rstep.join [OF _ Rec_exited] rstep.destroy_join [OF _ Rec_exited] show ?thesis by blast
    qed (use assms joining in \<open>auto simp: stop_pending_def control_inv_def\<close>)
  qed (blast intro: rstep.stop_time rstep.destroy_time)+
qed

section \<open>A stop request that is overwritten\<close>

definition stop_lost :: "rmach \<Rightarrow> bool" where
  "stop_lost m \<longleftrightarrow> mpc m = Main_joining \<and> \<not> m_stop (rst m) \<and> m_continuous (rst m) \<and>
     rpc m \<in> {Rec_loop, Rec_reading []} \<and>
     bpc m \<in> {Buf_check, Buf_wait}"

lemma stop_lost_step:
  assumes "\<And>fds h. k_ret k (Select fds # h) = 0" "rstep k x m l m'" "stop_lost m"
  shows "stop_lost m'"
  using assms(2)
proof cases
  case (round s sel s')
  with assms(1,3) show ?thesis
    by (auto simp: stop_lost_def record_select_def sys_call_def is_done_def)
qed (use assms(3) in \<open>auto simp: stop_lost_def is_done_def trim_round_effect\<close>)

section \<open>Concrete runs\<close>

text \<open>A kernel without devices whose clock advances by a second with every call.\<close>

definition ticking_kernel :: kernel where
  "ticking_kernel = \<lparr>k_ret = (\<lambda>h. case h of Clock # t \<Rightarrow> 1000 * int (length h) | _ \<Rightarrow> 0),
     k_errno = (\<lambda>_. 0), k_bytes = (\<lambda>_. []), k_text = (\<lambda>_. ''20260101_000000''), k_abs = (\<lambda>_. zero_absinfo),
     k_event = (\<lambda>_. syn_report), k_dirent = (\<lambda>_. None), k_ready = (\<lambda>_ _. False)\<rparr>"

lemma ticking_ok: "clock_ok ticking_kernel"
  by (simp add: clock_ok_def ticking_kernel_def)

definition ticking_recorder :: "bool \<Rightarrow> recorder" where
  "ticking_recorder cont = set_filename ''snap'' (rec_setup_xkb blind_xkb (log_error ''Error opening directory ''
     ((recorder_init 1 cont ''/dev/input'')\<lparr>hist := [Opendir ''/dev/input'']\<rparr>)))"

lemma ticking_construct:
  "construct_recorder ticking_kernel blind_xkb ''snap'' 1 cont ''/dev/input'' = Some (ticking_recorder cont)"
  by (simp add: construct_recorder_def findDevices_def sys_call_def ticking_kernel_def ticking_recorder_def
      recorder_init_def)

lemma ticking_fields:
  "available_devices (ticking_recorder cont) = []" "m_stop (ticking_recorder cont)"
  "m_continuous (ticking_recorder cont) = cont" "hist (ticking_recorder cont) = [Opendir ''/dev/input'']"
  "m_recording_length (ticking_recorder cont) = 1000" "\<not> xkb_released (ticking_recorder cont)"
  by (simp_all add: ticking_recorder_def set_filename_def rec_setup_xkb_def recorder_init_def log_error_def
      Let_def)

lemma ticking_begin:
  "hist s = h \<Longrightarrow> available_devices s = [] \<Longrightarrow>
   record_begin ticking_kernel s = Inr ([], if m_continuous s then s\<lparr>hist := Clock # h, m_stop := False,
     m_start_time := 1000 * int (Suc (length h))\<rparr>
   else s\<lparr>hist := Clock # h, m_stop := False, m_start_time := 1000 * int (Suc (length h)),
     files := (files s)(m_filename s \<mapsto> recording_header (1000 * int (Suc (length h))))\<rparr>)"
  by (simp add: record_begin_def current_time_ms_def sys_call_def ticking_kernel_def open_file_def write_file_def
      Let_def)

lemma select_devices_total:
  "i + length ds \<le> 64 \<Longrightarrow> \<exists>sel. select_devices m i ds = Inr sel"
proof (induction ds arbitrary: i)
  case (Cons d ds)
  then obtain sel where "select_devices m (Suc i) ds = Inr sel" by fastforce
  with Cons.prems show ?case by simp
qed simp

lemma record_begin_total:
  assumes "length (available_devices s) \<le> 64"
  shows "\<exists>ds s'. record_begin k s = Inr (ds, s')"
  using assms select_devices_total [of 0 "available_devices s" "m_device_mask s"]
  by (auto simp: record_begin_def current_time_ms_def sys_call_def Let_def)

lemma stop_lost_run:
  assumes "\<And>fds h. k_ret k (Select fds # h) = 0" "rec_sys.run k x m ls m'" "stop_lost m"
  shows "stop_lost m'"
  using assms(2,3) by (rule rec_sys.run_invariant) (rule stop_lost_step [OF assms(1)])

lemma run_steps:
  "rstep k x a l1 b \<Longrightarrow> rstep k x b l2 c \<Longrightarrow> rstep k x c l3 d \<Longrightarrow> rec_sys.run k x a [l1, l2, l3] d"
  by (meson rec_sys.run_cons rec_sys.run_nil)

lemma run_four_steps:
  "rstep k x a l1 b \<Longrightarrow> rstep k x b l2 c \<Longrightarrow> rstep k x c l3 d \<Longrightarrow> rstep k x d l4 e \<Longrightarrow>
   rec_sys.run k x a [l1, l2, l3, l4] e"
  by (meson rec_sys.run_cons rec_sys.run_nil)

text \<open>The first steps of a recording.\<close>

lemma run_start:
  assumes "m_stop s"
  shows "rstep k x (rmach_init s) L_start ((rmach_init s)\<lparr>rpc := Rec_spawned\<rparr>)"
  using assms by (intro rstep.start_new) (simp_all add: rmach_init_def isActive_def)

text \<open>The states of a timed recording of one second on the ticking kernel.\<close>

definition timed_done :: rmach where
  "timed_done =
     (rmach_init (ticking_recorder False))\<lparr>rst := (ticking_recorder False)\<lparr>
        hist := Clock # Clock # hist (ticking_recorder False), m_stop := True, m_start_time := 2000,
        files := (files (ticking_recorder False))(m_filename (ticking_recorder False) \<mapsto> recording_header 2000)\<rparr>,
      rpc := Rec_exited\<rparr>"

lemma timed_recording_ends:
  "rec_sys.run ticking_kernel blind_xkb (rmach_init (ticking_recorder False)) [L_start, L_begin, L_done] timed_done"
proof -
  let ?s = "ticking_recorder False"
  let ?m1 = "(rmach_init ?s)\<lparr>rpc := Rec_spawned\<rparr>"
  let ?s2 = "?s\<lparr>hist := Clock # hist ?s, m_stop := False, m_start_time := 2000,
     files := (files ?s)(m_filename ?s \<mapsto> recording_header 2000)\<rparr>"
  let ?m2 = "?m1\<lparr>rst := ?s2, devs := [], rpc := Rec_loop, bpc := (if m_continuous ?s2 then Buf_check else Buf_none)\<rparr>"
  have "rstep ticking_kernel blind_xkb (rmach_init ?s) L_start ?m1"
    by (rule run_start) (simp add: ticking_fields)
  moreover have "rstep ticking_kernel blind_xkb ?m1 L_begin ?m2"
    by (rule rstep.begin_ok)
      (simp_all add: ticking_begin [OF refl] ticking_fields rmach_init_def)
  moreover have "is_done ticking_kernel (rst ?m2) = (True, rst timed_done)"
    by (simp add: is_done_def current_time_ms_def sys_call_def ticking_fields timed_done_def rec_length_def)
      (simp add: ticking_kernel_def ticking_fields)
  then have "rstep ticking_kernel blind_xkb ?m2 L_done (?m2\<lparr>rst := rst timed_done, rpc := after_loop (rst timed_done)\<rparr>)"
    by (intro rstep.rec_done) (simp_all add: rmach_init_def)
  moreover have "?m2\<lparr>rst := rst timed_done, rpc := after_loop (rst timed_done)\<rparr> = timed_done"
    by (simp add: timed_done_def rmach_init_def after_loop_def ticking_fields)
  ultimately show ?thesis by (metis run_steps)
qed

lemma ticking_start: "rmach_start ticking_kernel blind_xkb ''snap'' 1 cont ''/dev/input'' (rmach_init (ticking_recorder cont))"
  by (simp add: rmach_start_def ticking_construct)

lemma timed_recording_stops:
  "\<exists>m. rec_sys.run ticking_kernel blind_xkb timed_done [L_stop, L_stop_time, L_join] m \<and>
     outcome m = Some (Inr (m_filename (ticking_recorder False)))"
proof -
  let ?m0 = "timed_done\<lparr>rst := raise_stop (rst timed_done), mpc := Main_stopping\<rparr>"
  let ?m1 = "?m0\<lparr>rst := stamp_stop ticking_kernel (rst ?m0), mpc := Main_joining\<rparr>"
  let ?m2 = "?m1\<lparr>mpc := Main_idle, rpc := Rec_none, outcome := Some (Inr (m_recording_path (rst ?m1)))\<rparr>"
  have "rstep ticking_kernel blind_xkb timed_done L_stop ?m0"
    by (rule rstep.stop) (simp_all add: timed_done_def rmach_init_def)
  moreover have "rstep ticking_kernel blind_xkb ?m0 L_stop_time ?m1" by (rule rstep.stop_time) simp
  moreover have "rstep ticking_kernel blind_xkb ?m1 L_join ?m2"
    by (rule rstep.join) (simp_all add: timed_done_def)
  moreover have "outcome ?m2 = Some (Inr (m_filename (ticking_recorder False)))"
    using construct_recorder_fields(7) [OF ticking_construct [of False]]
    by (simp add: timed_done_def rmach_init_def raise_stop_effect stamp_stop_effect)
  ultimately show ?thesis using run_steps by blast
qed

text \<open>A continuous recording that is stopped after it began.\<close>

lemma continuous_stopping:
  "\<exists>m. rec_sys.reachable ticking_kernel blind_xkb ''snap'' 1 True ''/dev/input'' m \<and> mpc m = Main_joining \<and>
     m_stop (rst m) \<and> rpc m = Rec_loop \<and> glog m = []"
proof -
  let ?s = "ticking_recorder True"
  let ?m1 = "(rmach_init ?s)\<lparr>rpc := Rec_spawned\<rparr>"
  let ?s2 = "?s\<lparr>hist := Clock # hist ?s, m_stop := False, m_start_time := 2000\<rparr>"
  let ?m2 = "?m1\<lparr>rst := ?s2, devs := [], rpc := Rec_loop, bpc := (if m_continuous ?s2 then Buf_check else Buf_none)\<rparr>"
  let ?m3 = "?m2\<lparr>rst := raise_stop (rst ?m2), mpc := Main_stopping\<rparr>"
  let ?m4 = "?m3\<lparr>rst := stamp_stop ticking_kernel (rst ?m3), mpc := Main_joining\<rparr>"
  have "rstep ticking_kernel blind_xkb (rmach_init ?s) L_start ?m1"
    by (rule run_start) (simp add: ticking_fields)
  moreover have "rstep ticking_kernel blind_xkb ?m1 L_begin ?m2"
    by (rule rstep.begin_ok)
      (simp_all add: ticking_begin [OF refl] ticking_fields rmach_init_def)
  moreover have "rstep ticking_kernel blind_xkb ?m2 L_stop ?m3"
    by (rule rstep.stop) (simp_all add: rmach_init_def)
  moreover have "rstep ticking_kernel blind_xkb ?m3 L_stop_time ?m4" by (rule rstep.stop_time) simp
  ultimately have "rec_sys.reachable ticking_kernel blind_xkb ''snap'' 1 True ''/dev/input'' ?m4"
    using run_four_steps ticking_start unfolding rec_sys.reachable_def by blast
  then show ?thesis
    by (intro exI [of _ ?m4]) (simp add: raise_stop_effect stamp_stop_effect rmach_init_def)
qed

section \<open>The keyboard state\<close>

lemma resolve_event_keysym_valid:
  "\<not> xkb_released s \<Longrightarrow> \<exists>ks s'. resolve_event_keysym x dev ev s = Inr (ks, s')"
  by (cases "m_xkb_state s") (simp_all add: resolve_event_keysym_def Let_def)

lemma resolve_event_keysym_error:
  "resolve_event_keysym x dev ev s = Inl e \<Longrightarrow> e = Use_after_free \<and> xkb_released s"
  by (auto simp: resolve_event_keysym_def Let_def split: option.splits if_splits)

section \<open>Properties\<close>



text \<open>C8: A stop request that the recording thread cannot overwrite ends the recording: from any reachable
  state in which the caller has raised the stop flag in \<open>Stop\<close> or in the destructor, after the thread
  began, at most six steps and one for each ready device that is still to be read are made before the
  call returns, unless one of them ends the process, and until then some thread can always make a step, so
  there is neither a deadlock nor an endless recording.\<close>

theorem stop_terminates:
  assumes "clock_ok k" and "rec_sys.reachable k x filename len cont dir m"
    and "mpc m \<in> {Main_stopping, Main_joining, Main_halting, Main_destroying}" and "m_stop (rst m)" and "rpc m \<noteq> Rec_spawned"
    and "rec_sys.run k x m ls m'" and "set ls \<inter> {L_join, L_destroy_join} = {}"
  shows "length ls \<le> 6 + length (unread (rpc m)) \<and>
    (death m' \<noteq> None \<or>
     mpc m' \<in> {Main_stopping, Main_joining, Main_halting, Main_destroying} \<and> (\<exists>l m''. rstep k x m' l m''))"
proof -
  have pending: "stop_pending m" using assms(3-5) by (simp add: stop_pending_def waiting_def)
  have "(stop_pending m' \<or> death m' \<noteq> None) \<and> length ls \<le> steps_left m"
    by (rule stop_pending_run [OF assms(1,6) pending assms(7)])
  moreover have "control_inv m'"
    by (rule reachable_control [OF assms(1) rec_sys.reachable_run [OF assms(2,6)]])
  ultimately show ?thesis
    using stop_pending_progress steps_left_bound [of m] by (fastforce simp: stop_pending_def waiting_def)
qed

theorem stop_terminates_witness:
  "\<exists>m. mpc m = Main_joining \<and> (\<exists>l m'. rstep ticking_kernel blind_xkb m l m')"
proof -
  obtain m where m: "rec_sys.reachable ticking_kernel blind_xkb ''snap'' 1 True ''/dev/input'' m"
    "mpc m = Main_joining" "m_stop (rst m)" "rpc m \<noteq> Rec_spawned"
    using continuous_stopping by auto
  then have "mpc m \<in> {Main_stopping, Main_joining, Main_halting, Main_destroying}" by simp
  from stop_terminates [OF ticking_ok m(1) this m(3,4) rec_sys.run_nil] m(2) show ?thesis by auto
qed

text \<open>C9: What a continuous recording contains: when the buffer thread writes its file, and no more
  than \<open>FILE_MAX_LINES\<close> events have been recorded, the file lists exactly the events recorded from
  some time \<open>c\<close> on, in order, where \<open>c\<close> is not before the stop time less the length of the
  window and not later than the current time less that length.\<close>

theorem continuous_window:
  assumes "clock_ok k" and "rec_sys.reachable k x filename len True dir m"
    and "is_done k (rst m) = (True, s)" and "length (glog m) \<le> FILE_MAX_LINES"
  shows "\<exists>c start. m_stop_time s - rec_length s \<le> c \<and> (\<forall>g. c \<le> k_ret k (Clock # g @ hist s) - rec_length s) \<and>
    files (dump_buffer k s) (m_recording_path (dump_buffer k s)) =
      Some (recording_header start @ concat (map record_line (filter (\<lambda>r. c \<le> ts_abs r) (glog m))))"
proof -
  have inv: "window_inv k m" by (rule reachable_window [OF assms(1,2)])
  then have s: "s = rst m" using is_done_effect(2) [OF assms(3)] by (simp add: window_inv_def)
  have "window k (hist s) (rec_length s) (m_input_buf s) (glog m)" "not_before k (hist s) (m_stop_time s)"
    using inv by (simp_all add: s window_inv_def)
  then obtain c where "m_stop_time s - rec_length s \<le> c" "not_before k (hist s) (c + rec_length s)"
    "final_trim (m_stop_time s - rec_length s) (m_input_buf s) = filter (\<lambda>r. c \<le> ts_abs r) (glog m)"
    by (rule window_final [OF _ _ assms(4)])
  then show ?thesis
    by (intro exI [of _ c] exI [of _ "dump_start s"]) (auto simp: dump_buffer_eq not_before_def le_diff_eq)
qed

theorem continuous_window_witness:
  "\<exists>(s :: recorder) start. files (dump_buffer ticking_kernel s) (m_recording_path (dump_buffer ticking_kernel s)) =
     Some (recording_header start)"
proof -
  obtain m where m: "rec_sys.reachable ticking_kernel blind_xkb ''snap'' 1 True ''/dev/input'' m"
    "m_stop (rst m)" "glog m = []"
    using continuous_stopping by auto
  have "\<exists>start. files (dump_buffer ticking_kernel (rst m)) (m_recording_path (dump_buffer ticking_kernel (rst m))) =
     Some (recording_header start)"
    using continuous_window [OF ticking_ok m(1) is_done_stopped [OF m(2)]] m(3) by auto
  then show ?thesis by (rule exI)
qed

text \<open>The stop time is read without the lock: when the buffer thread sees the flag of a \<open>Stop\<close> that has not yet
  set the stop time, it computes the window from the stop time of an earlier recording (or from zero), so
  the file starts at the beginning of the recording, however long ago that was.\<close>

lemma stale_stop_time:
  assumes "mpc m = Main_idle" and "rpc m = Rec_loop" and "bpc m = Buf_check" and "m_continuous (rst m)"
    and "m_stop_time (rst m) < m_start_time (rst m)"
  shows "\<exists>m'. rec_sys.run k x m [L_stop, L_buf_dump] m' \<and>
    files (rst m') (m_recording_path (rst m')) = Some (recording_header (m_start_time (rst m)) @
      concat (map record_line (final_trim (m_stop_time (rst m) - rec_length (rst m)) (m_input_buf (rst m)))))"
proof -
  let ?m1 = "m\<lparr>rst := raise_stop (rst m), mpc := Main_stopping\<rparr>"
  let ?m2 = "?m1\<lparr>rst := dump_buffer k (rst ?m1), bpc := Buf_exited\<rparr>"
  have "rstep k x m L_stop ?m1" by (rule rstep.stop) (simp_all add: assms(1,2))
  moreover have "rstep k x ?m1 L_buf_dump ?m2"
    by (rule rstep.buf_dump) (simp_all add: assms(3) is_done_stopped raise_stop_effect)
  ultimately have run: "rec_sys.run k x m [L_stop, L_buf_dump] ?m2"
    by (meson rec_sys.run_cons rec_sys.run_nil)
  have "0 \<le> rec_length (raise_stop (rst m))" by (simp add: rec_length_def)
  then have "dump_start (raise_stop (rst m)) = m_start_time (rst m)"
    using assms(5) by (simp add: dump_start_def raise_stop_effect)
  then show ?thesis
    by (intro exI [of _ ?m2] conjI run) (simp add: dump_buffer_eq raise_stop_effect rec_length_def)
qed

text \<open>C39: A stop request can be lost: if \<open>Stop\<close> is called on a continuous recorder after
  \<open>Start\<close> and before the new thread clears the stop flag, and no input arrives, the recording
  goes on and \<open>Stop\<close> never returns.\<close>

theorem stop_before_begin_blocks:
  assumes "\<And>fds h. k_ret k (Select fds # h) = 0" and "construct_recorder k x filename len True dir = Some s"
    and "length (available_devices s) \<le> 64"
  shows "\<exists>m. rec_sys.run k x (rmach_init s) [L_start, L_stop, L_stop_time, L_begin] m \<and>
    (\<forall>ls m'. rec_sys.run k x m ls m' \<longrightarrow> mpc m' = Main_joining)"
proof -
  note s = construct_recorder_fields [OF assms(2)]
  let ?m1 = "(rmach_init s)\<lparr>rpc := Rec_spawned\<rparr>"
  let ?m0 = "?m1\<lparr>rst := raise_stop (rst ?m1), mpc := Main_stopping\<rparr>"
  let ?m2 = "?m0\<lparr>rst := stamp_stop k (rst ?m0), mpc := Main_joining\<rparr>"
  have "length (available_devices (rst ?m2)) \<le> 64"
    using assms(3) by (simp add: rmach_init_def raise_stop_def stamp_stop_def current_time_ms_def sys_call_def)
  then obtain ds s' where b: "record_begin k (rst ?m2) = Inr (ds, s')" using record_begin_total by blast
  let ?m3 = "?m2\<lparr>rst := s', devs := ds, rpc := Rec_loop, bpc := (if m_continuous s' then Buf_check else Buf_none)\<rparr>"
  have "rstep k x (rmach_init s) L_start ?m1" by (rule run_start [OF s(3)])
  moreover have "rstep k x ?m1 L_stop ?m0" by (rule rstep.stop) (simp_all add: rmach_init_def)
  moreover have "rstep k x ?m0 L_stop_time ?m2" by (rule rstep.stop_time) simp
  moreover have "rstep k x ?m2 L_begin ?m3" by (rule rstep.begin_ok [OF _ _ _ b]) simp_all
  ultimately have "rec_sys.run k x (rmach_init s) [L_start, L_stop, L_stop_time, L_begin] ?m3"
    by (rule run_four_steps)
  moreover have lost: "stop_lost ?m3"
    using record_begin_effect [OF b] s(1) by (simp add: stop_lost_def raise_stop_effect stamp_stop_effect rmach_init_def)
  ultimately show ?thesis
    using stop_lost_run [OF assms(1) _ lost] by (intro exI [of _ ?m3]) (auto simp: stop_lost_def)
qed

theorem stop_before_begin_blocks_witness:
  "\<exists>m. rec_sys.run ticking_kernel blind_xkb (rmach_init (ticking_recorder True)) [L_start, L_stop, L_stop_time, L_begin] m \<and>
    (\<forall>ls m'. rec_sys.run ticking_kernel blind_xkb m ls m' \<longrightarrow> mpc m' = Main_joining)"
  by (rule stop_before_begin_blocks [OF _ ticking_construct])
    (simp_all add: ticking_kernel_def ticking_fields)

text \<open>A recording that has ended by itself is not cleaned up: starting the same recorder again
  without calling \<open>Stop\<close> in between assigns to a thread object that is still joinable and
  terminates the process.\<close>

lemma restart_without_stop_terminates:
  assumes "mpc m = Main_idle" and "rpc m = Rec_exited" and "m_stop (rst m)" and "rstep k x m L_start m'"
  shows "mpc m' = Main_dead Terminate"
  using assms(4) by cases (use assms(1-3) in \<open>simp_all add: isActive_def\<close>)

text \<open>C23: What one input event does to a recording: the escape key stops it and is not recorded; any
  other event adds exactly one record, with the time of reading, the type of its device and the
  event (touch positions scaled), to the buffer of a continuous recording or as one line to the
  file of a timed one. Only a keyboard's key event can carry a key symbol.\<close>

theorem event_recorded:
  assumes "transform_event dev ev = Inr ev'" and "files s (m_filename s) = Some f" and "\<not> xkb_released s"
  shows "\<exists>s'. process_event k x dev ev s = Inr s' \<and>
    (if uint (ev_type ev') = EV_KEY \<and> unat (ev_code ev') = KEY_ESC
     then m_stop s' \<and> m_input_buf s' = m_input_buf s \<and> files s' = files s
     else \<exists>r. ts_abs r = k_ret k (Clock # hist s) \<and> rec_dev_type r = dev_type dev \<and> input_type r = ev_type ev' \<and>
       input_code r = ev_code ev' \<and> input_val r = ev_value ev' \<and>
       (keysym r \<noteq> 0 \<longrightarrow> dev_type dev = KEYBOARD \<and> uint (ev_type ev') = EV_KEY) \<and> m_stop s' = m_stop s \<and>
       (if m_continuous s then m_input_buf s' = m_input_buf s @ [r] \<and> files s' = files s
        else m_input_buf s' = m_input_buf s \<and> files s' = (files s)(m_filename s \<mapsto> f @ record_line r)))"
proof (cases "uint (ev_type ev') = EV_KEY \<and> unat (ev_code ev') = KEY_ESC")
  case True
  with assms(1) show ?thesis by (simp add: process_event_def current_time_ms_def sys_call_def)
next
  case False
  let ?s1 = "s\<lparr>hist := Clock # hist s\<rparr>"
  obtain ks s2 where s2: "resolve_event_keysym x dev ev' ?s1 = Inr (ks, s2)"
    using resolve_event_keysym_valid [of ?s1 x dev ev'] assms(3) by auto
  have frame: "m_continuous s2 = m_continuous s" "m_filename s2 = m_filename s" "files s2 = files s"
      "m_input_buf s2 = m_input_buf s" "m_stop s2 = m_stop s"
      "ks \<noteq> 0 \<longrightarrow> dev_type dev = KEYBOARD \<and> uint (ev_type ev') = EV_KEY"
    using s2 by (auto simp: resolve_event_keysym_def Let_def split: option.splits if_splits)
  let ?r = "\<lparr>ts_abs = k_ret k (Clock # hist s), rec_dev_type = dev_type dev, input_type = ev_type ev',
    input_code = ev_code ev', input_val = ev_value ev', keysym = ks\<rparr>"
  show ?thesis
    unfolding process_event_def current_time_ms_def sys_call_def
    using False assms s2 frame
    by (auto simp: Let_def write_file_def intro!: exI [of _ ?r])
qed

theorem event_recorded_witness:
  "\<exists>s'. process_event ticking_kernel blind_xkb
      \<lparr>dev_fd = 3, dev_name = ''m'', dev_type = MOUSE, abs_range_x = zero_absinfo, abs_range_y = zero_absinfo\<rparr>
      (mk_event EV_REL REL_X 5) (rst timed_done) = Inr s' \<and> files s' \<noteq> files (rst timed_done)"
proof -
  let ?d = "\<lparr>dev_fd = 3, dev_name = ''m'', dev_type = MOUSE, abs_range_x = zero_absinfo, abs_range_y = zero_absinfo\<rparr>"
  have "transform_event ?d (mk_event EV_REL REL_X 5) = Inr (mk_event EV_REL REL_X 5)"
    by (simp add: transform_event_def)
  moreover have "files (rst timed_done) (m_filename (rst timed_done)) = Some (recording_header 2000)"
    by (simp add: timed_done_def)
  ultimately obtain s' r where
    "process_event ticking_kernel blind_xkb ?d (mk_event EV_REL REL_X 5) (rst timed_done) = Inr s'"
    "files s' = (files (rst timed_done))(m_filename (rst timed_done) \<mapsto> recording_header 2000 @ record_line r)"
    using event_recorded [of ?d "mk_event EV_REL REL_X 5" "mk_event EV_REL REL_X 5" "rst timed_done"
        "recording_header 2000" ticking_kernel blind_xkb]
    by (auto simp: timed_done_def ticking_fields)
  moreover have "record_line r \<noteq> []" by (simp add: record_line_def)
  ultimately show ?thesis
    using \<open>files (rst timed_done) (m_filename (rst timed_done)) = Some (recording_header 2000)\<close>
    by (auto dest: fun_cong [of _ _ "m_filename (rst timed_done)"])
qed

end
