(* ===== verification/Recorder_Shutdown.thy ===== *)
theory Recorder_Shutdown
  imports Recorder_Properties
begin

text \<open>
  The end of a recorder: the destructor of \<open>recorder/TestRunnerRecorder.cpp\<close> called in any
  state of the recording and buffer threads. It gives the keyboard state back, requests the stop,
  waits for the recording thread and closes the descriptors of the table. Shown here: no
  descriptor is closed while a thread may read it, no thread outlives the object, and the
  released keyboard state is only used when the destructor finds a recording that is still
  running, which can happen.
\<close>

section \<open>What the threads leave alone\<close>

lemma process_event_closed:
  fixes s :: recorder
  assumes "process_event k x dev ev s = Inr s'"
  shows "closed (hist s') = closed (hist s)"
proof -
  let ?s1 = "s\<lparr>hist := Clock # hist s\<rparr>"
  obtain ev' where ev: "transform_event dev ev = Inr ev'"
    using assms by (auto simp: process_event_def current_time_ms_def sys_call_def)
  show ?thesis
  proof (cases "uint (ev_type ev') = EV_KEY \<and> unat (ev_code ev') = KEY_ESC")
    case False
    then obtain ks s2 where s2: "resolve_event_keysym x dev ev' ?s1 = Inr (ks, s2)"
      using assms ev by (auto simp: process_event_def current_time_ms_def sys_call_def)
    have "hist s' = hist s2"
      using assms ev False s2
      by (auto simp: process_event_def current_time_ms_def sys_call_def write_file_def Let_def split: if_splits)
    with advances_keyboard [OF s2] show ?thesis by simp
  qed (use assms ev in \<open>auto simp: process_event_def current_time_ms_def sys_call_def\<close>)
qed

lemma read_device_closed:
  "read_device k x dev (s :: recorder) = Inr s' \<Longrightarrow> closed (hist s') = closed (hist s)"
  by (auto simp: read_device_def sys_call_def log_error_def dest!: process_event_closed split: if_splits)

lemma record_select_closed:
  "record_select k ds (s :: recorder) = (sel, s') \<Longrightarrow> closed (hist s') = closed (hist s)"
  by (auto simp: record_select_def sys_call_def log_error_def split: if_splits)

section \<open>Uses of the released keyboard state\<close>

lemma transform_event_error: "transform_event dev ev = Inl e \<Longrightarrow> e \<noteq> Use_after_free"
  by (auto simp: transform_event_def transform_touch_coordinates_def int_minus_def int_of_double_def
      bind_result_def Let_def split: if_splits sum.splits)

lemma process_event_error:
  assumes "process_event k x dev ev s = Inl Use_after_free"
  shows "xkb_released s"
proof (cases "transform_event dev ev")
  case (Inl e)
  with assms transform_event_error [OF Inl] show ?thesis
    by (simp add: process_event_def current_time_ms_def sys_call_def)
next
  case (Inr ev')
  then have "\<exists>e. resolve_event_keysym x dev ev' (s\<lparr>hist := Clock # hist s\<rparr>) = Inl e"
    using assms
    by (cases "resolve_event_keysym x dev ev' (s\<lparr>hist := Clock # hist s\<rparr>)")
      (auto simp: process_event_def current_time_ms_def sys_call_def Let_def split: if_splits)
  with resolve_event_keysym_error show ?thesis by fastforce
qed

lemma read_device_error: "read_device k x dev s = Inl Use_after_free \<Longrightarrow> xkb_released s"
  by (auto simp: read_device_def sys_call_def dest!: process_event_error split: if_splits)

lemma select_devices_error: "select_devices m i ds = Inl e \<Longrightarrow> e = Shift_out_of_range"
  by (induction ds arbitrary: i) (auto simp: bind_result_def split: if_splits sum.splits)

lemma record_begin_error: "record_begin k s = Inl e \<Longrightarrow> e = Shift_out_of_range"
  by (auto simp: record_begin_def current_time_ms_def sys_call_def Let_def bind_result_def
      split: sum.splits dest: select_devices_error)

section \<open>The discipline of the descriptors and of the keyboard state\<close>

definition shutdown_inv :: "in_device_s list \<Rightarrow> rmach \<Rightarrow> bool" where
  "shutdown_inv ds m \<longleftrightarrow> available_devices (rst m) = ds \<and>
     closed (hist (rst m)) = (if mpc m = Main_gone then map dev_fd ds else []) \<and>
     (mpc m \<in> {Main_idle, Main_stopping, Main_joining} \<longrightarrow> \<not> xkb_released (rst m)) \<and>
     (mpc m = Main_dead Use_after_free \<longrightarrow> xkb_released (rst m))"

lemma shutdown_frames:
  "available_devices (request_stop k s) = available_devices s" "xkb_released (request_stop k s) = xkb_released s"
  "available_devices (raise_stop s) = available_devices s" "xkb_released (raise_stop s) = xkb_released s"
  "available_devices (stamp_stop k s) = available_devices s" "xkb_released (stamp_stop k s) = xkb_released s"
  "hist (raise_stop s) = hist s" "closed (hist (stamp_stop k s)) = closed (hist s)"
  "available_devices (trim_round k s) = available_devices s" "xkb_released (trim_round k s) = xkb_released s"
  "available_devices (release_xkb s) = available_devices s" "hist (release_xkb s) = hist s"
  "closed (hist (request_stop k s)) = closed (hist s)" "closed (hist (trim_round k s)) = closed (hist s)"
  by (simp_all add: request_stop_def raise_stop_def stamp_stop_def trim_round_def release_xkb_def current_time_ms_def sys_call_def)

lemma close_devices_shutdown:
  "available_devices (close_devices k s) = available_devices s"
  "closed (hist (close_devices k s)) = closed (hist s) @ map dev_fd (available_devices s)"
proof -
  show "available_devices (close_devices k s) = available_devices s"
    unfolding close_devices_def by (rule fold_frame) (simp add: sys_call_def)
qed (simp add: close_devices_hist closed_append closed_closes)

lemma close_devices_released: "xkb_released (close_devices k s) = xkb_released s"
  unfolding close_devices_def by (rule fold_frame) (simp add: sys_call_def)

lemma record_begin_shutdown:
  assumes "record_begin k s = Inr (ds, s')"
  shows "available_devices s' = available_devices s" "xkb_released s' = xkb_released s"
    "closed (hist s') = closed (hist s)"
  using assms
  by (auto simp: record_begin_def current_time_ms_def sys_call_def Let_def open_file_def write_file_def
      split: if_splits)

lemma is_done_shutdown:
  assumes "is_done k s = (b, s')"
  shows "available_devices s' = available_devices s" "xkb_released s' = xkb_released s"
    "closed (hist s') = closed (hist s)"
  using assms by (auto simp: is_done_def current_time_ms_def sys_call_def split: if_splits)

lemma dump_buffer_shutdown:
  fixes s :: recorder
  shows "available_devices (dump_buffer k s) = available_devices s" "xkb_released (dump_buffer k s) = xkb_released s"
  "closed (hist (dump_buffer k s)) = closed (hist s)"
  by (simp_all add: dump_buffer_eq)

lemma record_select_shutdown:
  fixes s :: recorder
  assumes "record_select k ds s = (sel, s')"
  shows "available_devices s' = available_devices s" "xkb_released s' = xkb_released s"
    "closed (hist s') = closed (hist s)"
  using record_select_config [OF assms] record_select_closed [OF assms] by (simp_all add: same_config_def)

lemma read_device_shutdown:
  fixes s :: recorder
  assumes "clock_ok k" "read_device k x d s = Inr s'"
  shows "available_devices s' = available_devices s" "xkb_released s' = xkb_released s"
    "closed (hist s') = closed (hist s)"
  using read_device_config [OF assms] read_device_closed [OF assms(2)] by (simp_all add: same_config_def)

lemmas shutdown_effects = shutdown_frames close_devices_shutdown record_begin_shutdown is_done_shutdown
  dump_buffer_shutdown

lemma shutdown_inv_step:
  assumes ok: "clock_ok k" and step: "rstep k x m l m'" and inv: "shutdown_inv ds m"
  shows "shutdown_inv ds m'"
  using step
proof cases
  case (round s sel s')
  with inv record_select_shutdown [OF round(6)] is_done_shutdown [OF round(5)] show ?thesis
    by (auto simp: shutdown_inv_def threads_alive_def)
next
  case (read d ds s')
  with inv read_device_shutdown [OF ok read(5)] show ?thesis
    by (auto simp: shutdown_inv_def threads_alive_def may_read_def)
next
  case (read_err d ds e)
  with inv read_device_error show ?thesis
    by (auto simp: shutdown_inv_def threads_alive_def may_read_def)
next
  case (begin_err e)
  with inv record_begin_error show ?thesis by (auto simp: shutdown_inv_def threads_alive_def)
qed (use inv in \<open>auto simp: shutdown_inv_def shutdown_effects threads_alive_def\<close>)

lemma shutdown_inv_init:
  assumes "construct_recorder k x filename len cont dir = Some s"
  shows "shutdown_inv (available_devices s) (rmach_init s)"
  using construct_recorder_inv [OF assms] construct_recorder_fields(8) [OF assms]
  by (simp add: shutdown_inv_def rmach_init_def table_inv_def)

lemma shutdown_inv_run:
  assumes "clock_ok k" "construct_recorder k x filename len cont dir = Some s"
    "rec_sys.run k x (rmach_init s) ls m"
  shows "shutdown_inv (available_devices s) m"
  using assms(3) shutdown_inv_init [OF assms(2)]
  by (rule rec_sys.run_invariant) (rule shutdown_inv_step [OF assms(1)])

text \<open>Only the destructor releases the keyboard state, and nothing runs after it has returned.\<close>

lemma release_step:
  assumes "clock_ok k" "rstep k x m l m'" "\<not> xkb_released (rst m)" "xkb_released (rst m')"
  shows "l = L_destroy \<and> (rpc m \<noteq> Rec_none \<or> mpc m' = Main_gone)"
  using assms(2)
proof cases
  case (round s sel s')
  with assms(3,4) record_select_shutdown(2) [OF round(6)] is_done_shutdown(2) [OF round(5)] show ?thesis
    by simp
next
  case (read d ds s')
  with assms(3,4) read_device_shutdown(2) [OF assms(1) read(5)] show ?thesis by simp
qed (use assms(3,4) in \<open>auto simp: shutdown_effects close_devices_released dest: is_done_shutdown record_begin_shutdown\<close>)

lemma gone_stays: "rec_sys.run k x m ls m' \<Longrightarrow> mpc m = Main_gone \<Longrightarrow> m' = m"
  by (induction rule: rec_sys.run.induct) (auto simp: threads_alive_def may_read_def elim: rstep.cases)

lemma use_after_free_prefix:
  assumes ok: "clock_ok k" and "rec_sys.run k x m ls m'" and "shutdown_inv ds m"
    and "\<not> xkb_released (rst m)" and "mpc m' = Main_dead Use_after_free"
  shows "\<exists>before later m1. ls = before @ L_destroy # later \<and> rec_sys.run k x m before m1 \<and> rpc m1 \<noteq> Rec_none"
  using assms(2-5)
proof (induction rule: rec_sys.run.induct)
  case (run_nil s)
  then show ?case by (simp add: shutdown_inv_def)
next
  case (run_cons s l t ls u)
  show ?case
  proof (cases "xkb_released (rst t)")
    case True
    have "l = L_destroy" "rpc s \<noteq> Rec_none"
      using release_step [OF ok run_cons(1,5) True] gone_stays [OF run_cons(2)] run_cons.prems(3) by auto
    then show ?thesis using rec_sys.run_nil by (intro exI [of _ "[]"] exI [of _ ls] exI [of _ s]) simp
  next
    case False
    then obtain before later m1 where "ls = before @ L_destroy # later" "rec_sys.run k x t before m1" "rpc m1 \<noteq> Rec_none"
      using run_cons.IH shutdown_inv_step [OF ok run_cons(1,4)] run_cons.prems(3) by blast
    with rec_sys.run_cons [OF run_cons(1)] show ?thesis
      by (intro exI [of _ "l # before"] exI [of _ later] exI [of _ m1]) simp
  qed
qed

section \<open>A keyboard in use\<close>

text \<open>One keyboard, descriptor 3, on which the key with code 30 is pressed at every read; the clock
  advances by a millisecond with every call.\<close>

definition typing_kernel :: kernel where
  "typing_kernel = \<lparr>k_ret = (\<lambda>h. case h of Open _ _ # _ \<Rightarrow> 3 | Opendir _ # _ \<Rightarrow> 1 | Clock # _ \<Rightarrow> int (length h)
       | Select _ # _ \<Rightarrow> 1 | Read _ # _ \<Rightarrow> 24 | _ \<Rightarrow> 0),
     k_errno = (\<lambda>_. 0), k_bytes = (\<lambda>h. case h of Ioctl fd (EVIOCGBIT _ _) # _ \<Rightarrow> [2] | _ \<Rightarrow> []),
     k_text = (\<lambda>_. ''keys''), k_abs = (\<lambda>_. zero_absinfo), k_event = (\<lambda>_. mk_event EV_KEY 30 1),
     k_dirent = (\<lambda>h. if readdirs h = 1 then Some \<lparr>is_chr = True, d_name = ''event0''\<rparr> else None),
     k_ready = (\<lambda>_ _. True)\<rparr>"

definition typing_xkb :: rec_xkb where
  "typing_xkb = \<lparr>rx_context = True, rx_keymap = True, rx_state = True, rx_sym = (\<lambda>_ c. word_of_nat (c + 59))\<rparr>"

lemma typing_ok: "clock_ok typing_kernel"
  by (simp add: clock_ok_def typing_kernel_def)

definition typing_end :: "rlabel list \<Rightarrow> rmach option" where
  "typing_end ls =
     (case construct_recorder typing_kernel typing_xkb ''snap'' 30 True ''/dev/input'' of
        None \<Rightarrow> None | Some s \<Rightarrow> exec_all typing_kernel typing_xkb ls (rmach_init s))"

lemma typing_begun:
  "map_option (\<lambda>m. (mpc m, rpc m, bpc m, m_stop (rst m), m_continuous (rst m), m_xkb_state (rst m)))
     (typing_end [L_start, L_begin]) = Some (Main_idle, Rec_loop, Buf_check, False, True, Some [])"
  "map_option (\<lambda>m. map dev_type (devs m)) (typing_end [L_start, L_begin]) = Some [KEYBOARD]"
  "map_option (\<lambda>s. map dev_fd (available_devices s))
     (construct_recorder typing_kernel typing_xkb ''snap'' 30 True ''/dev/input'') = Some [3]"
  by code_simp+

text \<open>Without input, the destructor of a running continuous recorder returns after these steps.\<close>

lemma orderly_shutdown:
  assumes "mpc m = Main_idle" "rpc m = Rec_loop" "bpc m = Buf_check" "m_continuous (rst m)"
  shows "\<exists>m'. rec_sys.run k x m [L_destroy, L_destroy_stop, L_stop_time, L_done, L_buf_dump, L_join_buf, L_destroy_join] m' \<and>
    mpc m' = Main_gone"
  unfolding exec_all_run [symmetric]
  using assms
  by (simp add: is_done_stopped raise_stop_effect stamp_stop_effect release_xkb_frame dump_buffer_eq after_loop_def)

section \<open>Properties\<close>

text \<open>C10: The end of a recorder, however its threads are interleaved with the calls: as long as the
  destructor has not returned no descriptor of the table is closed, so none is closed while a thread
  may read it; when it has returned, both threads have ended and every descriptor of the table has
  been closed, each once. A use of the released keyboard state is only possible after a destructor
  that was called while there was a recording thread, so a caller that stops its recordings first is
  safe.\<close>

theorem destructor_discipline:
  assumes "clock_ok k" and "construct_recorder k x filename len cont dir = Some s"
    and "rec_sys.run k x (rmach_init s) ls m"
  shows "(if mpc m = Main_gone
      then rpc m = Rec_none \<and> bpc m = Buf_none \<and> closed (hist (rst m)) = map dev_fd (available_devices s)
      else closed (hist (rst m)) = []) \<and>
    (mpc m = Main_dead Use_after_free \<longrightarrow>
      (\<exists>before later m1. ls = before @ L_destroy # later \<and>
         rec_sys.run k x (rmach_init s) before m1 \<and> rpc m1 \<noteq> Rec_none))"
proof -
  have "rec_sys.reachable k x filename len cont dir m"
    using assms(2,3) by (auto simp: rec_sys.reachable_def rmach_start_def)
  then have "control_inv m" by (rule reachable_control [OF assms(1)])
  moreover have "shutdown_inv (available_devices s) m" by (rule shutdown_inv_run [OF assms])
  moreover have "\<not> xkb_released (rst (rmach_init s))"
    using construct_recorder_fields(8) [OF assms(2)] by (simp add: rmach_init_def)
  ultimately show ?thesis
    using use_after_free_prefix [OF assms(1,3) shutdown_inv_init [OF assms(2)]] control_gone
    by (auto simp: shutdown_inv_def)
qed

theorem destructor_discipline_witness:
  "\<exists>s ls m. construct_recorder typing_kernel typing_xkb ''snap'' 30 True ''/dev/input'' = Some s \<and>
     rec_sys.run typing_kernel typing_xkb (rmach_init s) (L_start # L_begin # L_destroy # ls) m \<and>
     rpc m = Rec_none \<and> bpc m = Buf_none \<and> closed (hist (rst m)) = [3]"
proof -
  obtain s m where s: "construct_recorder typing_kernel typing_xkb ''snap'' 30 True ''/dev/input'' = Some s"
    and m: "exec_all typing_kernel typing_xkb [L_start, L_begin] (rmach_init s) = Some m" "mpc m = Main_idle"
      "rpc m = Rec_loop" "bpc m = Buf_check" "m_continuous (rst m)"
    using typing_begun(1) by (auto simp: typing_end_def simp del: exec_all.simps split: option.splits)
  from orderly_shutdown [OF m(2-5)] obtain m' where
    m': "rec_sys.run typing_kernel typing_xkb m
      [L_destroy, L_destroy_stop, L_stop_time, L_done, L_buf_dump, L_join_buf, L_destroy_join] m'" "mpc m' = Main_gone" by blast
  let ?ls = "[L_start, L_begin, L_destroy, L_destroy_stop, L_stop_time, L_done, L_buf_dump, L_join_buf, L_destroy_join]"
  have run: "rec_sys.run typing_kernel typing_xkb (rmach_init s) ?ls m'"
    using rec_sys.run_append [OF m(1) [unfolded exec_all_run] m'(1)] by simp
  have "map dev_fd (available_devices s) = [3]" using typing_begun(3) s by simp
  with destructor_discipline [OF typing_ok s run] m'(2) s run show ?thesis by auto
qed

text \<open>C40: The destructor of a running recorder can use freed memory: it releases the keyboard state
  before it stops the recording thread, so when a key event is waiting on the first monitored
  device, a keyboard, the thread resolves its symbol with the released state.\<close>

theorem destroy_running_use_after_free:
  assumes "mpc m = Main_idle" and "rpc m = Rec_loop" and "\<not> m_stop (rst m)" and "m_continuous (rst m)"
    and "m_xkb_state (rst m) = Some st" and "devs m = d # ds" and "dev_type d = KEYBOARD"
    and "h = Select (map dev_fd (devs m)) # hist (rst m)" and "0 < k_ret k h" and "k_ready k h (dev_fd d)"
    and "0 < k_ret k (Read (dev_fd d) # h)" and "k_event k (Read (dev_fd d) # h) = ev"
    and "uint (ev_type ev) = EV_KEY" and "unat (ev_code ev) \<noteq> KEY_ESC"
  shows "\<exists>m'. rec_sys.run k x m [L_destroy, L_round, L_read] m' \<and> mpc m' = Main_dead Use_after_free"
proof -
  let ?m = "m\<lparr>rst := release_xkb (rst m), mpc := Main_releasing\<rparr>"
  have "transform_event d ev = Inr ev" using assms(13) by (simp add: transform_event_def)
  then have "process_event k x d ev ((release_xkb (rst m))\<lparr>hist := Read (dev_fd d) # h\<rparr>) = Inl Use_after_free"
    using assms(5,7,13,14)
    by (simp add: process_event_def current_time_ms_def sys_call_def resolve_event_keysym_def release_xkb_def)
  then have err: "read_device k x d ((release_xkb (rst m))\<lparr>hist := h\<rparr>) = Inl Use_after_free"
    using assms(11,12) by (simp add: read_device_def sys_call_def)
  obtain ds' where sel: "record_select k (devs m) (release_xkb (rst m)) = (Some (d # ds'), (release_xkb (rst m))\<lparr>hist := h\<rparr>)"
    using assms(6,8-10) by (simp add: record_select_def sys_call_def release_xkb_frame)
  let ?m1 = "?m\<lparr>rst := (release_xkb (rst m))\<lparr>hist := h\<rparr>, rpc := Rec_reading (d # ds')\<rparr>"
  have "is_done k (rst ?m) = (False, release_xkb (rst m))"
    using assms(3,4) by (simp add: is_done_def release_xkb_frame)
  then have "rstep k x ?m L_round ?m1"
    using rstep.round [of ?m k "release_xkb (rst m)" "Some (d # ds')"] sel assms(2) by simp
  moreover have "rstep k x ?m1 L_read (?m1\<lparr>mpc := Main_dead Use_after_free\<rparr>)"
    by (rule rstep.read_err [where d = d and ds = ds']) (simp_all add: may_read_def err)
  moreover have "rstep k x m L_destroy ?m" by (rule rstep.destroy_release) (simp_all add: assms(1,2))
  ultimately have "rec_sys.run k x m [L_destroy, L_round, L_read] (?m1\<lparr>mpc := Main_dead Use_after_free\<rparr>)"
    by (meson rec_sys.run_cons rec_sys.run_nil)
  then show ?thesis by (intro exI [of _ "?m1\<lparr>mpc := Main_dead Use_after_free\<rparr>"]) simp
qed

theorem destroy_running_use_after_free_witness:
  "\<exists>m m'. typing_end [L_start, L_begin] = Some m \<and>
     rec_sys.run typing_kernel typing_xkb m [L_destroy, L_round, L_read] m' \<and> mpc m' = Main_dead Use_after_free"
proof -
  obtain m d where m: "typing_end [L_start, L_begin] = Some m" "mpc m = Main_idle" "rpc m = Rec_loop"
    "\<not> m_stop (rst m)" "m_continuous (rst m)" "m_xkb_state (rst m) = Some []" "devs m = [d]" "dev_type d = KEYBOARD"
    using typing_begun(1,2) by auto
  let ?h = "Select (map dev_fd (devs m)) # hist (rst m)"
  have "\<exists>m'. rec_sys.run typing_kernel typing_xkb m [L_destroy, L_round, L_read] m' \<and> mpc m' = Main_dead Use_after_free"
    by (rule destroy_running_use_after_free [OF m(2-8), of ?h typing_kernel "mk_event EV_KEY 30 1"])
      (simp_all add: typing_kernel_def mk_event_def)
  with m(1) show ?thesis by blast
qed

end
