(* ===== verification/Keymap.thy ===== *)
theory Keymap
  imports Syscalls
begin

text \<open>
  The keyboard layout side of the server: \<open>setup_xkb\<close> and \<open>resolve_keysym\<close> of
  \<open>server/TestRunnerServer.cpp\<close>. libxkbcommon is not part of the repository: a compiled
  keymap is the record \<open>keymap\<close> of the two queries the code makes, and the library's
  constructors are the record \<open>xkb_lib\<close>, a parameter. Shown here: \<open>resolve_keysym\<close>
  answers a key that carries the symbol, prefers the unshifted level and then the lowest key
  code, and answers 0 exactly when no key carries it.
\<close>

section \<open>The library's side\<close>

record keymap =
  num_layouts_for_key :: "nat \<Rightarrow> nat"
  key_get_syms_by_level :: "nat \<Rightarrow> nat \<Rightarrow> nat \<Rightarrow> u32 list"

record xkb_rule_names =
  rn_rules :: "string option"
  rn_model :: "string option"
  rn_layout :: "string option"
  rn_variant :: "string option"
  rn_options :: "string option"

text \<open>\<open>xkb_context_new\<close> may return the null pointer; \<open>xkb_keymap_new_from_names\<close> too;
  \<open>xkb_keysym_from_name\<close> answers \<open>XKB_KEY_NoSymbol\<close>, which is 0, for an unknown name.\<close>

record xkb_lib =
  xkb_context_new :: bool
  xkb_keymap_new_from_names :: "xkb_rule_names \<Rightarrow> keymap option"
  xkb_keysym_from_name :: "string \<Rightarrow> u32"

abbreviation (input) XKB_KEY_NoSymbol :: u32 where "XKB_KEY_NoSymbol \<equiv> 0"

section \<open>Configuration\<close>

record XkbConfig =
  xc_rules :: string
  xc_model :: string
  xc_layout :: string
  xc_variant :: string
  xc_options :: string

text \<open>The lambda \<open>env_or\<close> of \<open>setup_xkb\<close>.\<close>

definition env_or :: "(string \<Rightarrow> string option) \<Rightarrow> string \<Rightarrow> string \<Rightarrow> string option" where
  "env_or getenv val env = (if val \<noteq> [] then Some val else getenv env)"

definition xkb_rules_of :: "(string \<Rightarrow> string option) \<Rightarrow> XkbConfig \<Rightarrow> xkb_rule_names" where
  "xkb_rules_of getenv cfg =
     \<lparr>rn_rules = env_or getenv (xc_rules cfg) ''XKB_DEFAULT_RULES'',
      rn_model = env_or getenv (xc_model cfg) ''XKB_DEFAULT_MODEL'',
      rn_layout = env_or getenv (xc_layout cfg) ''XKB_DEFAULT_LAYOUT'',
      rn_variant = env_or getenv (xc_variant cfg) ''XKB_DEFAULT_VARIANT'',
      rn_options = env_or getenv (xc_options cfg) ''XKB_DEFAULT_OPTIONS''\<rparr>"

section \<open>Resolving a key symbol\<close>

text \<open>The innermost loop of \<open>resolve_keysym\<close>, over the symbols of one level of one
  layout of one key.\<close>

fun sym_loop :: "u32 list \<Rightarrow> u32 \<Rightarrow> bool" where
  "sym_loop [] target = False"
| "sym_loop (s # syms) target = (if s = target then True else sym_loop syms target)"

text \<open>The loop over the layouts of one key, counting \<open>layout_idx\<close> up to
  \<open>num_layouts\<close>.\<close>

function layout_loop :: "keymap \<Rightarrow> u32 \<Rightarrow> nat \<Rightarrow> nat \<Rightarrow> nat \<Rightarrow> nat \<Rightarrow> bool" where
  "layout_loop km target level xkb_code num_layouts layout_idx =
     (if layout_idx < num_layouts
      then if sym_loop (key_get_syms_by_level km xkb_code layout_idx level) target then True
           else layout_loop km target level xkb_code num_layouts (layout_idx + 1)
      else False)"
  by pat_completeness auto
termination
  by (relation "measure (\<lambda>(km, target, level, code, n, i). n - i)") auto

text \<open>The loop over the key codes, counting \<open>evdev\<close> up to \<open>KEY_MAX\<close>; an early
  return is \<open>Some\<close>.\<close>

function evdev_loop :: "keymap \<Rightarrow> u32 \<Rightarrow> nat \<Rightarrow> nat \<Rightarrow> nat option" where
  "evdev_loop km target level evdev =
     (if evdev < KEY_MAX
      then if layout_loop km target level (evdev + 8) (num_layouts_for_key km (evdev + 8)) 0
           then Some evdev
           else evdev_loop km target level (evdev + 1)
      else None)"
  by pat_completeness auto
termination
  by (relation "measure (\<lambda>(km, target, level, evdev). KEY_MAX - evdev)") auto

text \<open>The outermost loop, over levels 0 and 1.\<close>

function level_loop :: "keymap \<Rightarrow> u32 \<Rightarrow> nat \<Rightarrow> nat option" where
  "level_loop km target level =
     (if level \<le> 1
      then (case evdev_loop km target level KEY_ESC of
              Some evdev \<Rightarrow> Some evdev
            | None \<Rightarrow> level_loop km target (level + 1))
      else None)"
  by pat_completeness auto
termination
  by (relation "measure (\<lambda>(km, target, level). 2 - level)") auto

definition resolve_keysym :: "keymap option \<Rightarrow> u32 \<Rightarrow> nat" where
  "resolve_keysym m_xkb_keymap target_sym =
     (case m_xkb_keymap of
        None \<Rightarrow> 0
      | Some km \<Rightarrow> (case level_loop km target_sym 0 of Some evdev \<Rightarrow> evdev | None \<Rightarrow> 0))"

declare layout_loop.simps [simp del] evdev_loop.simps [simp del] level_loop.simps [simp del]

section \<open>Correctness\<close>

text \<open>A key carries a symbol at a level when some layout of the key lists it there.\<close>

definition key_has_sym :: "keymap \<Rightarrow> nat \<Rightarrow> nat \<Rightarrow> u32 \<Rightarrow> bool" where
  "key_has_sym km evdev level ks \<longleftrightarrow>
     (\<exists>l < num_layouts_for_key km (evdev + 8). ks \<in> set (key_get_syms_by_level km (evdev + 8) l level))"

lemma sym_loop_iff: "sym_loop syms target \<longleftrightarrow> target \<in> set syms"
  by (induction syms) auto

lemma layout_loop_iff:
  "layout_loop km target level code n i \<longleftrightarrow>
     (\<exists>l. i \<le> l \<and> l < n \<and> target \<in> set (key_get_syms_by_level km code l level))"
proof (induction km target level code n i rule: layout_loop.induct)
  case (1 km target level code n i)
  show ?case
    using 1 by (subst layout_loop.simps, subst ex_from_step) (auto simp: sym_loop_iff)
qed

lemma key_here:
  "layout_loop km target level (e + 8) (num_layouts_for_key km (e + 8)) 0 \<longleftrightarrow>
     key_has_sym km e level target"
  by (auto simp: layout_loop_iff key_has_sym_def)

lemma evdev_loop_None_iff:
  "evdev_loop km target level e = None \<longleftrightarrow>
     (\<forall>x. e \<le> x \<and> x < KEY_MAX \<longrightarrow> \<not> key_has_sym km x level target)"
proof (induction km target level e rule: evdev_loop.induct)
  case (1 km target level e)
  show ?case
    using 1 by (subst evdev_loop.simps, subst all_from_step) (auto simp: key_here)
qed

lemma evdev_loop_SomeD:
  assumes "evdev_loop km target level e = Some r"
  shows "e \<le> r \<and> r < KEY_MAX \<and> key_has_sym km r level target \<and>
    (\<forall>x. e \<le> x \<and> x < r \<longrightarrow> \<not> key_has_sym km x level target)"
  using assms
proof (induction km target level e rule: evdev_loop.induct)
  case (1 km target level e)
  from 1(2) have e: "e < KEY_MAX"
    by (subst (asm) evdev_loop.simps) (simp split: if_splits)
  show ?case
  proof (cases "key_has_sym km e level target")
    case True
    with 1(2) e have "r = e"
      by (subst (asm) evdev_loop.simps) (simp add: key_here)
    with True e show ?thesis by auto
  next
    case False
    with 1(2) e have "evdev_loop km target level (e + 1) = Some r"
      by (subst (asm) evdev_loop.simps) (simp add: key_here)
    with 1(1) e False have
      "e + 1 \<le> r \<and> r < KEY_MAX \<and> key_has_sym km r level target \<and>
       (\<forall>x. e + 1 \<le> x \<and> x < r \<longrightarrow> \<not> key_has_sym km x level target)"
      by (simp add: key_here)
    with False show ?thesis by (subst all_from_step) auto
  qed
qed

lemma level_loop_unfold:
  "level_loop km target 0 =
     (case evdev_loop km target 0 KEY_ESC of
        Some e \<Rightarrow> Some e | None \<Rightarrow> evdev_loop km target 1 KEY_ESC)"
  by (simp add: level_loop.simps [of km target 0] level_loop.simps [of km target 1]
      level_loop.simps [of km target 2] level_loop.simps [of km target "Suc 0"]
      level_loop.simps [of km target "Suc (Suc 0)"] split: option.split)

lemmas resolve_defs = resolve_keysym_def level_loop_unfold

text \<open>The three ways the search ends.\<close>

lemma resolve_keysym_cases:
  "(resolve_keysym (Some km) ks = 0 \<and>
      (\<forall>x. 1 \<le> x \<and> x < KEY_MAX \<longrightarrow> \<not> key_has_sym km x 0 ks \<and> \<not> key_has_sym km x 1 ks)) \<or>
   (\<exists>e. resolve_keysym (Some km) ks = e \<and> 1 \<le> e \<and> e < KEY_MAX \<and> key_has_sym km e 0 ks \<and>
      (\<forall>x. 1 \<le> x \<and> x < e \<longrightarrow> \<not> key_has_sym km x 0 ks)) \<or>
   (\<exists>e. resolve_keysym (Some km) ks = e \<and> 1 \<le> e \<and> e < KEY_MAX \<and> key_has_sym km e 1 ks \<and>
      (\<forall>x. 1 \<le> x \<and> x < KEY_MAX \<longrightarrow> \<not> key_has_sym km x 0 ks) \<and>
      (\<forall>x. 1 \<le> x \<and> x < e \<longrightarrow> \<not> key_has_sym km x 1 ks))"
proof (cases "evdev_loop km ks 0 KEY_ESC")
  case (Some e)
  with evdev_loop_SomeD [OF Some] show ?thesis by (simp add: resolve_defs)
next
  case None
  note none0 = None evdev_loop_None_iff [THEN iffD1, OF None]
  show ?thesis
  proof (cases "evdev_loop km ks 1 KEY_ESC")
    case None
    with none0 evdev_loop_None_iff [THEN iffD1, OF None] show ?thesis by (simp add: resolve_defs)
  next
    case (Some e)
    with none0 evdev_loop_SomeD [OF Some] show ?thesis by (simp add: resolve_defs)
  qed
qed

lemma resolve_keysym_no_keymap [simp]: "resolve_keysym None ks = 0"
  by (simp add: resolve_keysym_def)

lemma resolve_keysym_bound: "resolve_keysym m ks < KEY_MAX"
  by (auto simp: resolve_defs dest: evdev_loop_SomeD split: option.splits)

end
