(* ===== verification/Input_Server.thy ===== *)
theory Input_Server
  imports Keymap
begin

text \<open>
  The input side of \<open>server/TestRunnerServer.cpp\<close>: the four virtual devices the
  constructor creates through \<open>/dev/uinput\<close>, \<open>emit\<close>, the six handlers of the
  \<open>Input\<close> interface and the closing of the devices. The state is the record
  \<open>input_server\<close>; \<open>mDeviceFd\<close> is the array of descriptors, indexed by the
  enumeration \<open>VIRTUAL_MOUSE\<close> to \<open>VIRTUAL_MULTI_TOUCHSCREEN\<close>. The kernel's view of a
  uinput descriptor is the automaton \<open>dev_state\<close>, a specification of the documented uinput
  protocol; the contract of \<open>emit\<close> is the locale \<open>event_sink\<close>.
\<close>

section \<open>State and constants\<close>

abbreviation (input) VIRTUAL_MOUSE :: nat where "VIRTUAL_MOUSE \<equiv> 0"
abbreviation (input) VIRTUAL_KEYBOARD :: nat where "VIRTUAL_KEYBOARD \<equiv> 1"
abbreviation (input) VIRTUAL_TOUCHSCREEN :: nat where "VIRTUAL_TOUCHSCREEN \<equiv> 2"
abbreviation (input) VIRTUAL_MULTI_TOUCHSCREEN :: nat where "VIRTUAL_MULTI_TOUCHSCREEN \<equiv> 3"
abbreviation (input) MAX_DEVICES :: nat where "MAX_DEVICES \<equiv> 4"

record input_server = sys_state +
  mDeviceFd :: "int list"
  m_xkb_ctx :: bool
  m_xkb_keymap :: "keymap option"

definition getDeviceFd :: "nat \<Rightarrow> 'a input_server_scheme \<Rightarrow> int" where
  "getDeviceFd device s = (if device < MAX_DEVICES then mDeviceFd s ! device else - 1)"

definition set_device_fd ::
  "nat \<Rightarrow> int \<Rightarrow> 'a input_server_scheme \<Rightarrow> 'a input_server_scheme" where
  "set_device_fd device fd s = s\<lparr>mDeviceFd := (mDeviceFd s)[device := fd]\<rparr>"

section \<open>Primitive operations\<close>

definition emit ::
  "kernel \<Rightarrow> int \<Rightarrow> int \<Rightarrow> int \<Rightarrow> int \<Rightarrow> 'a input_server_scheme \<Rightarrow> 'a input_server_scheme" where
  "emit k fd type code val s =
     (case (if fd \<ge> 0 then sys_call k (Write fd (mk_event type code val)) s else (- 1, s)) of
        (result, s') \<Rightarrow>
          if result < 0 then log_error ''Error writing to uinput device: {}'' s' else s')"

definition uinput_capability_setup ::
  "kernel \<Rightarrow> int \<Rightarrow> ioctl_int_request \<Rightarrow> int \<Rightarrow> 'a input_server_scheme \<Rightarrow> 'a input_server_scheme" where
  "uinput_capability_setup k fd type val s =
     call_or_log k (Ioctl_int fd type val)
       ''uinput capability setup failed: Type: {} Value: {}'' s"

definition close_input_device ::
  "kernel \<Rightarrow> int \<Rightarrow> 'a input_server_scheme \<Rightarrow> 'a input_server_scheme" where
  "close_input_device k fd s =
     (if fd < 0 then s
      else call_or_log k (Close fd) ''error closing uinput device''
             (call_or_log k (Ioctl fd UI_DEV_DESTROY) ''error closing device'' s))"

text \<open>The end of every \<open>setup_virtual_\<close> function: create the device, destroy it again when
  that fails, then wait.\<close>

definition create_and_wait ::
  "kernel \<Rightarrow> int \<Rightarrow> string \<Rightarrow> 'a input_server_scheme \<Rightarrow> 'a input_server_scheme" where
  "create_and_wait k fd msg s =
     (case sys_call k (Ioctl fd UI_DEV_CREATE) s of (result, s1) \<Rightarrow>
        let s2 = (if result < 0
                  then snd (sys_call k (Ioctl fd UI_DEV_DESTROY) (log_error msg s1))
                  else s1)
        in snd (sys_call k (Usleep 250000) s2))"

section \<open>Creating the devices\<close>

definition mouse_setup :: uinput_setup where
  "mouse_setup = \<lparr>us_bustype = BUS_VIRTUAL, us_vendor = 0x23, us_product = 0x45,
     us_version = 1, us_name = ''test_runner_mouse''\<rparr>"

definition setup_virtual_mouse ::
  "kernel \<Rightarrow> 'a input_server_scheme \<Rightarrow> 'a input_server_scheme" where
  "setup_virtual_mouse k s =
     (case sys_call k (Open ''/dev/uinput'' O_WRONLY) s of (fd, s0) \<Rightarrow>
      let s1 = set_device_fd VIRTUAL_MOUSE fd s0 in
      if fd \<ge> 0 then
        let s2 = uinput_capability_setup k fd UI_SET_EVBIT EV_REL s1;
            s3 = fold (uinput_capability_setup k fd UI_SET_RELBIT)
                   [REL_X, REL_Y, REL_Z, REL_WHEEL, REL_HWHEEL] s2;
            s4 = uinput_capability_setup k fd UI_SET_EVBIT EV_KEY s3;
            s5 = fold (uinput_capability_setup k fd UI_SET_KEYBIT) [BTN_LEFT, BTN_RIGHT] s4;
            s6 = call_or_log k (Ioctl fd (UI_DEV_SETUP mouse_setup))
                   ''Failed to setup virtual mouse: {}'' s5
        in create_and_wait k fd ''Failed to create virtual mouse: {}'' s6
      else log_error ''Failed to open /dev/uinput'' s1)"

definition keyboard_setup :: uinput_setup where
  "keyboard_setup = \<lparr>us_bustype = BUS_VIRTUAL, us_vendor = 0x23, us_product = 0x47,
     us_version = 1, us_name = ''test_runner_keyboard''\<rparr>"

definition init_key :: "kernel \<Rightarrow> int \<Rightarrow> nat \<Rightarrow> 'a input_server_scheme \<Rightarrow> 'a input_server_scheme" where
  "init_key k fd key s =
     call_or_log k (Ioctl_int fd UI_SET_KEYBIT (int key)) ''Failed to init key: {}'' s"

definition setup_virtual_keyboard ::
  "kernel \<Rightarrow> 'a input_server_scheme \<Rightarrow> 'a input_server_scheme" where
  "setup_virtual_keyboard k s =
     (case sys_call k (Open ''/dev/uinput'' O_WRONLY) s of (fd, s0) \<Rightarrow>
      let s1 = set_device_fd VIRTUAL_KEYBOARD fd s0 in
      if fd \<ge> 0 then
        let s2 = uinput_capability_setup k fd UI_SET_EVBIT EV_KEY s1;
            s3 = fold (init_key k fd) [KEY_ESC..<KEY_MAX] s2;
            s4 = call_or_log k (Ioctl fd (UI_DEV_SETUP keyboard_setup))
                   ''Failed to setup virtual keyboard: {}'' s3
        in create_and_wait k fd ''Failed to create virtual keyboard: {}'' s4
      else log_error ''Failed to open /dev/uinput'' s1)"

definition abs_setup :: "int \<Rightarrow> int \<Rightarrow> uinput_abs_setup" where
  "abs_setup code mx = \<lparr>as_code = word_of_int code,
     as_absinfo = \<lparr>minimum = 0, maximum = word_of_int mx\<rparr>\<rparr>"

definition touchscreen_setup :: uinput_setup where
  "touchscreen_setup = \<lparr>us_bustype = BUS_VIRTUAL, us_vendor = 0x23, us_product = 0x46,
     us_version = 1, us_name = ''test_runner_touchscreen''\<rparr>"

definition setup_virtual_touchscreen ::
  "kernel \<Rightarrow> 'a input_server_scheme \<Rightarrow> 'a input_server_scheme" where
  "setup_virtual_touchscreen k s =
     (case sys_call k (Open ''/dev/uinput'' O_WRONLY) s of (fd, s0) \<Rightarrow>
      let s1 = set_device_fd VIRTUAL_TOUCHSCREEN fd s0 in
      if fd \<ge> 0 then
        let s2 = uinput_capability_setup k fd UI_SET_EVBIT EV_KEY s1;
            s3 = fold (uinput_capability_setup k fd UI_SET_KEYBIT) [BTN_TOUCH] s2;
            s4 = uinput_capability_setup k fd UI_SET_EVBIT EV_ABS s3;
            s5 = fold (uinput_capability_setup k fd UI_SET_ABSBIT) [ABS_X, ABS_Y] s4;
            s6 = call_or_log k (Ioctl_int fd UI_SET_PROPBIT INPUT_PROP_DIRECT)
                   ''Failed to set propbit: {}'' s5;
            s7 = call_or_log k (Ioctl fd (UI_DEV_SETUP touchscreen_setup))
                   ''Failed to setup virtual touchscreen: {}'' s6;
            s8 = call_or_log k (Ioctl fd (UI_ABS_SETUP (abs_setup ABS_X VIRTUAL_MULTITOUCH_ABS_X_MAX)))
                   ''Failed to setup ABS_X: {}'' s7;
            s9 = call_or_log k (Ioctl fd (UI_ABS_SETUP (abs_setup ABS_Y VIRTUAL_MULTITOUCH_ABS_Y_MAX)))
                   ''Failed to setup ABS_Y: {}'' s8
        in create_and_wait k fd ''Failed to create virtual touchscreen: {}'' s9
      else log_error ''Failed to open /dev/uinput'' s1)"

definition multi_touchscreen_setup :: uinput_setup where
  "multi_touchscreen_setup = \<lparr>us_bustype = BUS_VIRTUAL, us_vendor = 0x23, us_product = 0x46,
     us_version = 1, us_name = ''test_runner_multi_touchscreen''\<rparr>"

definition setup_virtual_multi_touchscreen ::
  "kernel \<Rightarrow> 'a input_server_scheme \<Rightarrow> 'a input_server_scheme" where
  "setup_virtual_multi_touchscreen k s =
     (case sys_call k (Open ''/dev/uinput'' O_WRONLY) s of (fd, s0) \<Rightarrow>
      let s1 = set_device_fd VIRTUAL_MULTI_TOUCHSCREEN fd s0 in
      if fd \<ge> 0 then
        let s2 = uinput_capability_setup k fd UI_SET_EVBIT EV_KEY s1;
            s3 = fold (uinput_capability_setup k fd UI_SET_KEYBIT) [BTN_TOUCH] s2;
            s4 = uinput_capability_setup k fd UI_SET_EVBIT EV_ABS s3;
            s5 = fold (uinput_capability_setup k fd UI_SET_ABSBIT)
                   [ABS_MT_SLOT, ABS_MT_TRACKING_ID, ABS_MT_POSITION_X, ABS_MT_POSITION_Y] s4;
            s6 = call_or_log k (Ioctl_int fd UI_SET_PROPBIT INPUT_PROP_DIRECT)
                   ''Failed to set propbit: {}'' s5;
            s7 = call_or_log k (Ioctl fd (UI_DEV_SETUP multi_touchscreen_setup))
                   ''Failed to setup virtual multi-touchscreen: {}'' s6;
            s8 = call_or_log k
                   (Ioctl fd (UI_ABS_SETUP (abs_setup ABS_MT_POSITION_X VIRTUAL_MULTITOUCH_ABS_X_MAX)))
                   ''Failed to setup ABS_MT_X: {}'' s7;
            s9 = call_or_log k
                   (Ioctl fd (UI_ABS_SETUP (abs_setup ABS_MT_POSITION_Y VIRTUAL_MULTITOUCH_ABS_Y_MAX)))
                   ''Failed to setup ABS_MT_Y: {}'' s8;
            s10 = call_or_log k (Ioctl fd (UI_ABS_SETUP (abs_setup ABS_MT_SLOT 4)))
                   ''Failed to setup ABS_MT_SLOT: {}'' s9
        in create_and_wait k fd ''Failed to create virtual multi-touchscreen: {}'' s10
      else log_error ''Failed to open /dev/uinput'' s1)"

definition setup_xkb ::
  "xkb_lib \<Rightarrow> (string \<Rightarrow> string option) \<Rightarrow> XkbConfig \<Rightarrow> 'a input_server_scheme \<Rightarrow> 'a input_server_scheme" where
  "setup_xkb lib getenv cfg s =
     (if \<not> xkb_context_new lib
      then log_error ''Failed to create XKB context'' (s\<lparr>m_xkb_ctx := False\<rparr>)
      else (case xkb_keymap_new_from_names lib (xkb_rules_of getenv cfg) of
              None \<Rightarrow> log_error ''XKB keymap compilation failed - keySym/keyName injection disabled''
                        (s\<lparr>m_xkb_ctx := False, m_xkb_keymap := None\<rparr>)
            | Some km \<Rightarrow> s\<lparr>m_xkb_ctx := True, m_xkb_keymap := Some km\<rparr>))"

text \<open>The part of the constructor that sets up the devices and the keymap; the plugins'
  \<open>init_plugins\<close> is empty. The snapshot recorder is added in the service theory.\<close>

definition construct_input ::
  "kernel \<Rightarrow> xkb_lib \<Rightarrow> (string \<Rightarrow> string option) \<Rightarrow> XkbConfig \<Rightarrow> 'a input_server_scheme \<Rightarrow> 'a input_server_scheme" where
  "construct_input k lib getenv cfg s =
     setup_xkb lib getenv cfg
       (setup_virtual_multi_touchscreen k
         (setup_virtual_touchscreen k
           (setup_virtual_keyboard k
             (setup_virtual_mouse k (s\<lparr>mDeviceFd := [- 1, - 1, - 1, - 1]\<rparr>)))))"

text \<open>The part of the destructor that closes the devices, and the release of the keymap
  and the context.\<close>

definition destruct_input ::
  "kernel \<Rightarrow> 'a input_server_scheme \<Rightarrow> 'a input_server_scheme" where
  "destruct_input k s =
     (fold (close_input_device k) (mDeviceFd s) s)\<lparr>m_xkb_keymap := None, m_xkb_ctx := False\<rparr>"

section \<open>The handlers of the Input interface\<close>

abbreviation (input) b2i :: "bool \<Rightarrow> int" where "b2i b \<equiv> (if b then 1 else 0)"

definition handleMouseMove ::
  "kernel \<Rightarrow> MouseMove \<Rightarrow> 'a input_server_scheme \<Rightarrow> 'a input_server_scheme" where
  "handleMouseMove k m s =
     (let s1 = emit k (getDeviceFd VIRTUAL_MOUSE s) EV_REL REL_X (sint (relX m)) s;
          s2 = emit k (getDeviceFd VIRTUAL_MOUSE s1) EV_REL REL_Y (sint (relY m)) s1
      in emit k (getDeviceFd VIRTUAL_MOUSE s2) EV_SYN SYN_REPORT 0 s2)"

definition handleMouseClick ::
  "kernel \<Rightarrow> MouseClick \<Rightarrow> 'a input_server_scheme \<Rightarrow> 'a input_server_scheme" where
  "handleMouseClick k m s =
     (let s1 = emit k (getDeviceFd VIRTUAL_MOUSE s) EV_KEY (uint (btn m)) (b2i (mc_pressed m)) s
      in emit k (getDeviceFd VIRTUAL_MOUSE s1) EV_SYN SYN_REPORT 0 s1)"

definition emit_key :: "kernel \<Rightarrow> nat \<Rightarrow> bool \<Rightarrow> 'a input_server_scheme \<Rightarrow> 'a input_server_scheme" where
  "emit_key k evdev_code pressed s =
     (let s1 = emit k (getDeviceFd VIRTUAL_KEYBOARD s) EV_KEY (int evdev_code) (b2i pressed) s
      in emit k (getDeviceFd VIRTUAL_KEYBOARD s1) EV_SYN SYN_REPORT 0 s1)"

definition handleKeyPress ::
  "kernel \<Rightarrow> xkb_lib \<Rightarrow> KeyPress \<Rightarrow> 'a input_server_scheme \<Rightarrow> 'a input_server_scheme" where
  "handleKeyPress k lib kp s =
     (case kp_which kp of
        RawCode c \<Rightarrow> emit_key k (unat c) (kp_pressed kp) s
      | KeySym ks \<Rightarrow>
          (let evdev_code = resolve_keysym (m_xkb_keymap s) ks
           in if evdev_code = 0 then log_error ''No keycode found for keysym 0x{:x}'' s
              else emit_key k evdev_code (kp_pressed kp) s)
      | KeyName name \<Rightarrow>
          (let ks = xkb_keysym_from_name lib name
           in if ks = XKB_KEY_NoSymbol then log_error ''Unknown key name: '' s
              else (let evdev_code = resolve_keysym (m_xkb_keymap s) ks
                    in if evdev_code = 0 then log_error ''No keycode found for key name '' s
                       else emit_key k evdev_code (kp_pressed kp) s)))"

definition handleSingleTouch ::
  "kernel \<Rightarrow> SingleTouch \<Rightarrow> 'a input_server_scheme \<Rightarrow> 'a input_server_scheme" where
  "handleSingleTouch k t s =
     (let s1 = (if sint (st_absX t) \<ge> 0
                then emit k (getDeviceFd VIRTUAL_TOUCHSCREEN s) EV_ABS ABS_X (sint (st_absX t)) s
                else s);
          s2 = (if sint (st_absY t) \<ge> 0
                then emit k (getDeviceFd VIRTUAL_TOUCHSCREEN s1) EV_ABS ABS_Y (sint (st_absY t)) s1
                else s1);
          s3 = emit k (getDeviceFd VIRTUAL_TOUCHSCREEN s2) EV_KEY BTN_TOUCH (b2i (st_pressed t)) s2
      in emit k (getDeviceFd VIRTUAL_TOUCHSCREEN s3) EV_SYN SYN_REPORT 0 s3)"

text \<open>One round of the loop of \<open>handleMultiTouch\<close>.\<close>

definition multi_touch_body ::
  "kernel \<Rightarrow> MultiTouch \<Rightarrow> 'a input_server_scheme \<Rightarrow> 'a input_server_scheme" where
  "multi_touch_body k t s =
     (let s1 = emit k (getDeviceFd VIRTUAL_MULTI_TOUCHSCREEN s) EV_ABS ABS_MT_SLOT (sint (slot t)) s;
          s2 = (if sint (trackingId t) \<noteq> 0
                then emit k (getDeviceFd VIRTUAL_MULTI_TOUCHSCREEN s1) EV_ABS ABS_MT_TRACKING_ID
                       (sint (trackingId t)) s1
                else s1)
      in if sint (trackingId t) \<ge> 0
         then (let s3 = emit k (getDeviceFd VIRTUAL_MULTI_TOUCHSCREEN s2) EV_ABS ABS_MT_POSITION_X
                          (sint (mt_absX t)) s2
               in emit k (getDeviceFd VIRTUAL_MULTI_TOUCHSCREEN s3) EV_ABS ABS_MT_POSITION_Y
                    (sint (mt_absY t)) s3)
         else s2)"

definition handleMultiTouch ::
  "kernel \<Rightarrow> MultiTouch list \<Rightarrow> 'a input_server_scheme \<Rightarrow> 'a input_server_scheme" where
  "handleMultiTouch k ts s =
     (let s1 = fold (multi_touch_body k) ts s
      in emit k (getDeviceFd VIRTUAL_MULTI_TOUCHSCREEN s1) EV_SYN SYN_REPORT 0 s1)"

definition handlePassThrough ::
  "kernel \<Rightarrow> PassThrough \<Rightarrow> 'a input_server_scheme \<Rightarrow> 'a input_server_scheme" where
  "handlePassThrough k p s =
     emit k (getDeviceFd (unat (pt_device p)) s)
       (sint (pt_type p)) (sint (pt_code p)) (sint (pt_value p)) s"

text \<open>The dispatch of one call of the \<open>Input\<close> interface.\<close>

datatype input_request =
    Req_MouseMove MouseMove
  | Req_MouseClick MouseClick
  | Req_KeyPress KeyPress
  | Req_SingleTouch SingleTouch
  | Req_MultiTouch "MultiTouch list"
  | Req_PassThrough PassThrough

fun handle_input ::
  "kernel \<Rightarrow> xkb_lib \<Rightarrow> input_request \<Rightarrow> 'a input_server_scheme \<Rightarrow> 'a input_server_scheme" where
  "handle_input k lib (Req_MouseMove m) s = handleMouseMove k m s"
| "handle_input k lib (Req_MouseClick m) s = handleMouseClick k m s"
| "handle_input k lib (Req_KeyPress kp) s = handleKeyPress k lib kp s"
| "handle_input k lib (Req_SingleTouch t) s = handleSingleTouch k t s"
| "handle_input k lib (Req_MultiTouch ts) s = handleMultiTouch k ts s"
| "handle_input k lib (Req_PassThrough p) s = handlePassThrough k p s"

end
