(* ===== verification/Uinput_Protocol.thy ===== *)
theory Uinput_Protocol
  imports Input_Spec
begin

text \<open>
  The documented protocol of a \<open>/dev/uinput\<close> descriptor, as an automaton over the history
  of calls, and the proof that the server respects it from its constructor to its destructor:
  capabilities are only changed before the device is created, a device is only created after
  \<open>UI_DEV_SETUP\<close>, events are only written to a created device, and every device is destroyed
  and closed exactly once.
\<close>

section \<open>The automaton\<close>

datatype ustate = U_absent | U_new | U_setup | U_created | U_error

fun ioctl_step :: "ioctl_request \<Rightarrow> ustate \<Rightarrow> ustate" where
  "ioctl_step (UI_DEV_SETUP _) st = (if st \<in> {U_new, U_setup} then U_setup else U_error)"
| "ioctl_step (UI_ABS_SETUP _) st = (if st \<in> {U_new, U_setup} then st else U_error)"
| "ioctl_step UI_DEV_CREATE st = (if st = U_setup then U_created else U_error)"
| "ioctl_step UI_DEV_DESTROY st = (if st \<in> {U_new, U_setup, U_created} then U_new else U_error)"
| "ioctl_step _ st = U_error"

text \<open>The effect of the newest call on the descriptor \<open>fd\<close>; \<open>r\<close> is the kernel's
  answer. A call that fails has no effect, except that using a descriptor out of turn is an
  error in any case.\<close>

definition dev_step :: "int \<Rightarrow> int \<Rightarrow> syscall \<Rightarrow> ustate \<Rightarrow> ustate" where
  "dev_step fd r c st =
     (case c of
        Open p f \<Rightarrow> if r = fd then (if st = U_absent then U_new else U_error) else st
      | Ioctl_int f q v \<Rightarrow> if f = fd then (if st \<in> {U_new, U_setup} then st else U_error) else st
      | Ioctl f q \<Rightarrow> if f = fd
                     then (if ioctl_step q st = U_error then U_error
                           else if r < 0 then st else ioctl_step q st)
                     else st
      | Write f e \<Rightarrow> if f = fd then (if st = U_created then st else U_error) else st
      | Close f \<Rightarrow> if f = fd then (if st \<in> {U_absent, U_error} then U_error else U_absent) else st
      | _ \<Rightarrow> st)"

fun dev_state :: "kernel \<Rightarrow> int \<Rightarrow> syscall list \<Rightarrow> ustate" where
  "dev_state k fd [] = U_absent"
| "dev_state k fd (c # h) = dev_step fd (k_ret k (c # h)) c (dev_state k fd h)"

definition clean :: "kernel \<Rightarrow> syscall list \<Rightarrow> bool" where
  "clean k h \<longleftrightarrow> (\<forall>fd. dev_state k fd h \<noteq> U_error)"

text \<open>A kernel on which the calls that bring a device into being succeed, and \<open>open\<close>
  returns a descriptor that is not in use. Capability calls, writes, waits and closes may
  fail.\<close>

definition kernel_ok :: "kernel \<Rightarrow> bool" where
  "kernel_ok k \<longleftrightarrow>
     (\<forall>p f h. 0 \<le> k_ret k (Open p f # h)) \<and>
     (\<forall>fd q h. 0 \<le> k_ret k (Ioctl fd q # h)) \<and>
     (\<forall>p f h. clean k h \<longrightarrow> dev_state k (k_ret k (Open p f # h)) h = U_absent)"

text \<open>The devices of the server are created, and no other descriptor is in use.\<close>

definition server_inv :: "kernel \<Rightarrow> int set \<Rightarrow> syscall list \<Rightarrow> bool" where
  "server_inv k fds h \<longleftrightarrow>
     (\<forall>fd. dev_state k fd h = (if fd \<in> fds then U_created else U_absent))"

section \<open>Steps of the automaton along the operations\<close>

lemma dev_state_append_other:
  assumes "\<And>c. c \<in> set g \<Longrightarrow> \<forall>st r. dev_step fd r c st = st"
  shows "dev_state k fd (g @ h) = dev_state k fd h"
  using assms by (induction g) auto

lemma dev_step_other:
  "f \<noteq> fd \<Longrightarrow> dev_step fd r (Ioctl_int f q v) st = st"
  "f \<noteq> fd \<Longrightarrow> dev_step fd r (Ioctl f q') st = st"
  "f \<noteq> fd \<Longrightarrow> dev_step fd r (Write f e) st = st"
  "f \<noteq> fd \<Longrightarrow> dev_step fd r (Close f) st = st"
  "dev_step fd r (Usleep n) st = st"
  by (simp_all add: dev_step_def)

lemma dev_state_ioctl_ints:
  assumes "dev_state k fd h \<in> {U_new, U_setup}"
  shows "dev_state k fd (rev (map (Ioctl_int fd q) vs) @ h) = dev_state k fd h"
  using assms by (induction vs rule: rev_induct) (auto simp: dev_step_def)

section \<open>What each setup function does to the history\<close>

lemma uinput_capability_setup_hist [hist_simps]:
  "hist (uinput_capability_setup k fd q v s) = Ioctl_int fd q v # hist s"
  by (simp add: uinput_capability_setup_def hist_simps)

lemma fold_capability_hist [hist_simps]:
  "hist (fold (uinput_capability_setup k fd q) vs s) = rev (map (Ioctl_int fd q) vs) @ hist s"
  by (rule fold_call_hist) (simp add: hist_simps)

lemma fold_init_key_hist [hist_simps]:
  "hist (fold (init_key k fd) ks s) = rev (map (Ioctl_int fd UI_SET_KEYBIT) (map int ks)) @ hist s"
proof -
  have "hist (fold (init_key k fd) ks s) = rev (map (\<lambda>x. Ioctl_int fd UI_SET_KEYBIT (int x)) ks) @ hist s"
    by (rule fold_call_hist) (simp add: init_key_def hist_simps)
  then show ?thesis by (simp add: o_def)
qed

lemma create_and_wait_hist:
  assumes "\<And>q h. 0 \<le> k_ret k (Ioctl fd q # h)"
  shows "hist (create_and_wait k fd m s) = Usleep 250000 # Ioctl fd UI_DEV_CREATE # hist s"
  using assms [of UI_DEV_CREATE "hist s"] by (simp add: create_and_wait_def sys_call_def)

lemma call_or_log_frame [frame_simps]:
  "mDeviceFd (call_or_log k c m s) = mDeviceFd s"
  "m_xkb_keymap (call_or_log k c m s) = m_xkb_keymap s"
  by (simp_all add: call_or_log_def sys_call_def log_error_def)

lemma setup_calls_frame [frame_simps]:
  "mDeviceFd (uinput_capability_setup k fd q v s) = mDeviceFd s"
  "mDeviceFd (fold (uinput_capability_setup k fd q) vs s) = mDeviceFd s"
  "mDeviceFd (fold (init_key k fd) ks s) = mDeviceFd s"
  "mDeviceFd (create_and_wait k fd m s) = mDeviceFd s"
  by (simp_all add: uinput_capability_setup_def init_key_def fold_frame frame_simps
      create_and_wait_def sys_call_def Let_def)

lemma set_device_fd_sel [simp]:
  "hist (set_device_fd d fd s) = hist s"
  "mDeviceFd (set_device_fd d fd s) = (mDeviceFd s)[d := fd]"
  by (simp_all add: set_device_fd_def)

section \<open>The constructor\<close>

text \<open>A setup function opens a descriptor and brings it to the created state, with calls on
  that descriptor only.\<close>

definition sets_up :: "kernel \<Rightarrow> nat \<Rightarrow> ('a input_server_scheme \<Rightarrow> 'a input_server_scheme) \<Rightarrow> bool" where
  "sets_up k d f \<longleftrightarrow>
     (\<forall>s fds. server_inv k fds (hist s) \<longrightarrow>
        (\<exists>fd. 0 \<le> fd \<and> fd \<notin> fds \<and> mDeviceFd (f s) = (mDeviceFd s)[d := fd] \<and>
              server_inv k (insert fd fds) (hist (f s))))"

lemma sets_upI:
  fixes f :: "'a input_server_scheme \<Rightarrow> 'a input_server_scheme"
  assumes ok: "kernel_ok k"
    and fd: "\<And>s. mDeviceFd (f s) = (mDeviceFd s)[d := k_ret k (Open ''/dev/uinput'' O_WRONLY # hist s)]"
    and hist: "\<And>s. hist (f s) =
      calls (k_ret k (Open ''/dev/uinput'' O_WRONLY # hist s)) @ Open ''/dev/uinput'' O_WRONLY # hist s"
    and same: "\<And>fd h. dev_state k fd h = U_new \<Longrightarrow> dev_state k fd (calls fd @ h) = U_created"
    and other: "\<And>fd fd' h. fd' \<noteq> fd \<Longrightarrow> dev_state k fd' (calls fd @ h) = dev_state k fd' h"
  shows "sets_up k d f"
  unfolding sets_up_def
proof (intro allI impI)
  fix s :: "'a input_server_scheme" and fds
  assume inv: "server_inv k fds (hist s)"
  define fd where "fd = k_ret k (Open ''/dev/uinput'' O_WRONLY # hist s)"
  have "clean k (hist s)"
    using inv by (auto simp: clean_def server_inv_def)
  with ok have absent: "dev_state k fd (hist s) = U_absent"
    by (simp add: kernel_ok_def fd_def)
  moreover have "0 \<le> fd"
    using ok by (simp add: kernel_ok_def fd_def)
  moreover have "fd \<notin> fds"
    using inv absent by (auto simp: server_inv_def split: if_splits)
  moreover have "server_inv k (insert fd fds) (hist (f s))"
    unfolding server_inv_def
  proof
    fix fd'
    show "dev_state k fd' (hist (f s)) = (if fd' \<in> insert fd fds then U_created else U_absent)"
    proof (cases "fd' = fd")
      case True
      have "dev_state k fd (Open ''/dev/uinput'' O_WRONLY # hist s) = U_new"
        using absent by (simp add: dev_step_def flip: fd_def)
      then show ?thesis by (simp add: True hist same flip: fd_def)
    next
      case False
      have "dev_state k fd' (Open ''/dev/uinput'' O_WRONLY # hist s) = dev_state k fd' (hist s)"
        using False by (simp add: dev_step_def flip: fd_def)
      with False inv show ?thesis by (simp add: hist other server_inv_def flip: fd_def)
    qed
  qed
  ultimately show "\<exists>fd. 0 \<le> fd \<and> fd \<notin> fds \<and> mDeviceFd (f s) = (mDeviceFd s)[d := fd] \<and>
      server_inv k (insert fd fds) (hist (f s))"
    using fd by (auto simp: fd_def)
qed


lemma kernel_ok_ret [simp]:
  "kernel_ok k \<Longrightarrow> k_ret k (Open p f # h) < 0 \<longleftrightarrow> False"
  "kernel_ok k \<Longrightarrow> k_ret k (Ioctl fd q # h) < 0 \<longleftrightarrow> False"
  by (simp_all add: kernel_ok_def not_less)

lemmas setup_simps = Let_def sys_call_def hist_simps frame_simps create_and_wait_hist

lemma setup_virtual_mouse_sets_up:
  assumes "kernel_ok k"
  shows "sets_up k VIRTUAL_MOUSE (setup_virtual_mouse k)"
proof (rule sets_upI [OF assms, where calls = "\<lambda>fd.
    [Usleep 250000, Ioctl fd UI_DEV_CREATE, Ioctl fd (UI_DEV_SETUP mouse_setup)] @
    rev (map (Ioctl_int fd UI_SET_KEYBIT) [BTN_LEFT, BTN_RIGHT]) @
    rev (map (Ioctl_int fd UI_SET_EVBIT) [EV_KEY]) @
    rev (map (Ioctl_int fd UI_SET_RELBIT) [REL_X, REL_Y, REL_Z, REL_WHEEL, REL_HWHEEL]) @
    rev (map (Ioctl_int fd UI_SET_EVBIT) [EV_REL])"])
qed (use assms in \<open>simp_all add: setup_virtual_mouse_def setup_simps kernel_ok_def
      dev_step_def\<close>)

lemma setup_virtual_keyboard_sets_up:
  assumes "kernel_ok k"
  shows "sets_up k VIRTUAL_KEYBOARD (setup_virtual_keyboard k)"
proof (rule sets_upI [OF assms, where calls = "\<lambda>fd.
    [Usleep 250000, Ioctl fd UI_DEV_CREATE, Ioctl fd (UI_DEV_SETUP keyboard_setup)] @
    rev (map (Ioctl_int fd UI_SET_KEYBIT) (map int [KEY_ESC..<KEY_MAX])) @
    [Ioctl_int fd UI_SET_EVBIT EV_KEY]"])
  fix fd fd' :: int and h
  assume "fd' \<noteq> fd"
  then show "dev_state k fd' (([Usleep 250000, Ioctl fd UI_DEV_CREATE, Ioctl fd (UI_DEV_SETUP keyboard_setup)] @
      rev (map (Ioctl_int fd UI_SET_KEYBIT) (map int [KEY_ESC..<KEY_MAX])) @
      [Ioctl_int fd UI_SET_EVBIT EV_KEY]) @ h) = dev_state k fd' h"
    by (intro dev_state_append_other) (auto simp: dev_step_other simp del: upt_rec_numeral)
next
  fix fd h
  assume "dev_state k fd h = U_new"
  then have "dev_state k fd (Ioctl_int fd UI_SET_EVBIT EV_KEY # h) = U_new"
    by (simp add: dev_step_def)
  then have "dev_state k fd (rev (map (Ioctl_int fd UI_SET_KEYBIT) (map int [KEY_ESC..<KEY_MAX])) @
      Ioctl_int fd UI_SET_EVBIT EV_KEY # h) = U_new"
    by (subst dev_state_ioctl_ints) (simp_all del: dev_state.simps)
  then show "dev_state k fd (([Usleep 250000, Ioctl fd UI_DEV_CREATE, Ioctl fd (UI_DEV_SETUP keyboard_setup)] @
      rev (map (Ioctl_int fd UI_SET_KEYBIT) (map int [KEY_ESC..<KEY_MAX])) @
      [Ioctl_int fd UI_SET_EVBIT EV_KEY]) @ h) = U_created"
    using assms by (simp add: dev_step_def del: upt_rec_numeral)
qed (use assms in \<open>simp_all add: setup_virtual_keyboard_def setup_simps kernel_ok_def
      del: upt_rec_numeral\<close>)

lemma setup_virtual_touchscreen_sets_up:
  assumes "kernel_ok k"
  shows "sets_up k VIRTUAL_TOUCHSCREEN (setup_virtual_touchscreen k)"
proof (rule sets_upI [OF assms, where calls = "\<lambda>fd.
    [Usleep 250000, Ioctl fd UI_DEV_CREATE,
     Ioctl fd (UI_ABS_SETUP (abs_setup ABS_Y VIRTUAL_MULTITOUCH_ABS_Y_MAX)),
     Ioctl fd (UI_ABS_SETUP (abs_setup ABS_X VIRTUAL_MULTITOUCH_ABS_X_MAX)),
     Ioctl fd (UI_DEV_SETUP touchscreen_setup), Ioctl_int fd UI_SET_PROPBIT INPUT_PROP_DIRECT] @
    rev (map (Ioctl_int fd UI_SET_ABSBIT) [ABS_X, ABS_Y]) @
    [Ioctl_int fd UI_SET_EVBIT EV_ABS, Ioctl_int fd UI_SET_KEYBIT BTN_TOUCH,
     Ioctl_int fd UI_SET_EVBIT EV_KEY]"])
qed (use assms in \<open>simp_all add: setup_virtual_touchscreen_def setup_simps kernel_ok_def
      dev_step_def\<close>)

lemma setup_virtual_multi_touchscreen_sets_up:
  assumes "kernel_ok k"
  shows "sets_up k VIRTUAL_MULTI_TOUCHSCREEN (setup_virtual_multi_touchscreen k)"
proof (rule sets_upI [OF assms, where calls = "\<lambda>fd.
    [Usleep 250000, Ioctl fd UI_DEV_CREATE,
     Ioctl fd (UI_ABS_SETUP (abs_setup ABS_MT_SLOT 4)),
     Ioctl fd (UI_ABS_SETUP (abs_setup ABS_MT_POSITION_Y VIRTUAL_MULTITOUCH_ABS_Y_MAX)),
     Ioctl fd (UI_ABS_SETUP (abs_setup ABS_MT_POSITION_X VIRTUAL_MULTITOUCH_ABS_X_MAX)),
     Ioctl fd (UI_DEV_SETUP multi_touchscreen_setup), Ioctl_int fd UI_SET_PROPBIT INPUT_PROP_DIRECT] @
    rev (map (Ioctl_int fd UI_SET_ABSBIT)
      [ABS_MT_SLOT, ABS_MT_TRACKING_ID, ABS_MT_POSITION_X, ABS_MT_POSITION_Y]) @
    [Ioctl_int fd UI_SET_EVBIT EV_ABS, Ioctl_int fd UI_SET_KEYBIT BTN_TOUCH,
     Ioctl_int fd UI_SET_EVBIT EV_KEY]"])
qed (use assms in \<open>simp_all add: setup_virtual_multi_touchscreen_def setup_simps kernel_ok_def
      dev_step_def\<close>)

lemma setup_xkb_sel [simp]:
  "hist (setup_xkb lib getenv cfg s) = hist s"
  "mDeviceFd (setup_xkb lib getenv cfg s) = mDeviceFd s"
  by (simp_all add: setup_xkb_def log_error_def split: option.split)

lemma construct_input_inv:
  assumes ok: "kernel_ok k" and start: "server_inv k {} (hist s)"
  shows "devices_open (construct_input k lib getenv cfg s)"
    and "server_inv k (set (mDeviceFd (construct_input k lib getenv cfg s)))
           (hist (construct_input k lib getenv cfg s))"
proof -
  let ?s0 = "s\<lparr>mDeviceFd := [- 1, - 1, - 1, - 1]\<rparr>"
  let ?s1 = "setup_virtual_mouse k ?s0"
  let ?s2 = "setup_virtual_keyboard k ?s1"
  let ?s3 = "setup_virtual_touchscreen k ?s2"
  let ?s4 = "setup_virtual_multi_touchscreen k ?s3"
  have "server_inv k {} (hist ?s0)" using start by simp
  with setup_virtual_mouse_sets_up [OF ok] obtain a where
    a: "0 \<le> a" "mDeviceFd ?s1 = (mDeviceFd ?s0)[VIRTUAL_MOUSE := a]" "server_inv k {a} (hist ?s1)"
    unfolding sets_up_def by (metis (no_types, lifting))
  with setup_virtual_keyboard_sets_up [OF ok] obtain b where
    b: "0 \<le> b" "b \<notin> {a}" "mDeviceFd ?s2 = (mDeviceFd ?s1)[VIRTUAL_KEYBOARD := b]"
      "server_inv k {b, a} (hist ?s2)"
    unfolding sets_up_def by (metis (no_types, lifting))
  with setup_virtual_touchscreen_sets_up [OF ok] obtain c where
    c: "0 \<le> c" "c \<notin> {b, a}" "mDeviceFd ?s3 = (mDeviceFd ?s2)[VIRTUAL_TOUCHSCREEN := c]"
      "server_inv k {c, b, a} (hist ?s3)"
    unfolding sets_up_def by (metis (no_types, lifting))
  with setup_virtual_multi_touchscreen_sets_up [OF ok] obtain d where
    d: "0 \<le> d" "d \<notin> {c, b, a}" "mDeviceFd ?s4 = (mDeviceFd ?s3)[VIRTUAL_MULTI_TOUCHSCREEN := d]"
      "server_inv k {d, c, b, a} (hist ?s4)"
    unfolding sets_up_def by (metis (no_types, lifting))
  have fds: "mDeviceFd ?s4 = [a, b, c, d]"
    using a(2) b(3) c(3) d(3) by simp
  then show "devices_open (construct_input k lib getenv cfg s)"
    using a b c d by (auto simp: construct_input_def devices_open_def)
  have "{d, c, b, a} = set [a, b, c, d]" by auto
  with fds d(4) show "server_inv k (set (mDeviceFd (construct_input k lib getenv cfg s)))
      (hist (construct_input k lib getenv cfg s))"
    by (simp add: construct_input_def)
qed

section \<open>The handlers\<close>

lemma emit_packet_hist [hist_simps]:
  "hist (sink.emit_packet k d p s) =
     (if getDeviceFd d s \<ge> 0 then rev (map (Write (getDeviceFd d s)) (packet_events p)) else []) @ hist s"
proof (induction p arbitrary: s)
  case Nil
  then show ?case by (simp add: packet_unfold packet_events_def)
next
  case (Cons e p)
  obtain t c v where e: "e = (t, c, v)" by (cases e)
  then show ?case
    by (simp add: packet_unfold Cons hist_simps sink.fd_emit packet_events_def)
qed

lemma dev_state_writes:
  assumes "dev_state k fd h = U_created"
  shows "dev_state k fd (rev (map (Write fd) es) @ h) = U_created"
  using assms by (induction es rule: rev_induct) (auto simp: dev_step_def)

lemma server_inv_writes:
  assumes "server_inv k fds h" "fd \<in> fds"
  shows "server_inv k fds (rev (map (Write fd) es) @ h)"
  unfolding server_inv_def
proof
  fix fd'
  show "dev_state k fd' (rev (map (Write fd) es) @ h) = (if fd' \<in> fds then U_created else U_absent)"
  proof (cases "fd' = fd")
    case True
    with assms show ?thesis by (simp add: server_inv_def dev_state_writes)
  next
    case False
    then have "dev_state k fd' (rev (map (Write fd) es) @ h) = dev_state k fd' h"
      by (intro dev_state_append_other) (auto simp: dev_step_other)
    with assms show ?thesis by (simp add: server_inv_def)
  qed
qed

text \<open>The invariant of a running server.\<close>

definition running :: "kernel \<Rightarrow> 'a input_server_scheme \<Rightarrow> bool" where
  "running k s \<longleftrightarrow> devices_open s \<and> server_inv k (set (mDeviceFd s)) (hist s)"

lemma handle_input_running:
  assumes "running k s"
  shows "running k (handle_input k lib r s)"
proof (cases rule: handle_input_packet [of k lib r s])
  case emitted
  obtain d p where r: "request_packet lib (m_xkb_keymap s) r = (d, p)" by fastforce
  have "0 \<le> getDeviceFd d s \<Longrightarrow> getDeviceFd d s \<in> set (mDeviceFd s)"
    using assms devices_open_fd [of s d] by (auto simp: running_def getDeviceFd_def split: if_splits)
  with assms show ?thesis
    by (auto simp: running_def emitted r frame_simps hist_simps devices_open_def intro: server_inv_writes)
next
  case (warned m)
  with assms show ?thesis by (simp add: running_def devices_open_def frame_simps)
qed

text \<open>The running server as a transition system: it starts from the constructor, and each
  step is one request.\<close>

definition input_init ::
  "kernel \<Rightarrow> xkb_lib \<Rightarrow> (string \<Rightarrow> string option) \<Rightarrow> XkbConfig \<Rightarrow> input_server \<Rightarrow> bool" where
  "input_init k lib getenv cfg s \<longleftrightarrow> (\<exists>s0. hist s0 = [] \<and> s = construct_input k lib getenv cfg s0)"

definition input_step :: "kernel \<Rightarrow> xkb_lib \<Rightarrow> input_server \<Rightarrow> input_request \<Rightarrow> input_server \<Rightarrow> bool" where
  "input_step k lib s r t \<longleftrightarrow> t = handle_input k lib r s"

interpretation input_sys: transition_system "input_init k lib getenv cfg" "input_step k lib"
  for k lib getenv cfg .

lemma run_input_fold: "input_sys.run k lib s rs t \<longleftrightarrow> t = fold (handle_input k lib) rs s"
proof
  show "input_sys.run k lib s rs t \<Longrightarrow> t = fold (handle_input k lib) rs s"
    by (induction rule: input_sys.run.induct) (auto simp: input_step_def)
next
  have "input_sys.run k lib s rs (fold (handle_input k lib) rs s)"
    by (induction rs arbitrary: s) (auto simp: input_step_def intro: input_sys.run.intros)
  then show "t = fold (handle_input k lib) rs s \<Longrightarrow> input_sys.run k lib s rs t" by simp
qed

lemma server_inv_start: "server_inv k {} []"
  by (simp add: server_inv_def)

lemma reachable_running:
  assumes "kernel_ok k" "input_sys.reachable k lib getenv cfg s"
  shows "running k s"
  using assms(2)
proof (rule input_sys.reachable_invariant)
  show "input_init k lib getenv cfg s0 \<Longrightarrow> running k s0" for s0
    by (auto simp: input_init_def running_def server_inv_start intro!: construct_input_inv assms(1))
  show "input_step k lib u r v \<Longrightarrow> running k u \<Longrightarrow> running k v" for u r v
    by (simp add: input_step_def handle_input_running)
qed

section \<open>The destructor\<close>

lemma close_input_device_hist [hist_simps]:
  "hist (close_input_device k fd s) =
     (if fd < 0 then [] else [Close fd, Ioctl fd UI_DEV_DESTROY]) @ hist s"
  by (simp add: close_input_device_def hist_simps)

lemma server_inv_close:
  assumes "kernel_ok k" "server_inv k fds (hist s)" "fd \<in> fds" "0 \<le> fd"
  shows "server_inv k (fds - {fd}) (hist (close_input_device k fd s))"
  using assms by (auto simp: server_inv_def hist_simps dev_step_def)

lemma server_inv_close_all:
  assumes "kernel_ok k" "distinct fds" "\<forall>fd \<in> set fds. 0 \<le> fd" "server_inv k (set fds) (hist s)"
  shows "server_inv k {} (hist (fold (close_input_device k) fds s))"
  using assms(2-4)
proof (induction fds arbitrary: s)
  case (Cons fd fds)
  then have "server_inv k (set (fd # fds) - {fd}) (hist (close_input_device k fd s))"
    by (intro server_inv_close [OF assms(1)]) auto
  with Cons show ?case by simp
qed simp

lemma destruct_input_inv:
  assumes "kernel_ok k" "running k s"
  shows "server_inv k {} (hist (destruct_input k s))"
  using assms server_inv_close_all [OF assms(1), of "mDeviceFd s" s]
  by (simp add: destruct_input_def running_def devices_open_def)

section \<open>Nothing is written before the first request\<close>

lemma written_call_or_log:
  "(\<forall>fd e. c \<noteq> Write fd e) \<Longrightarrow> written (hist (call_or_log k c m s)) = written (hist s)"
  by (cases c) (simp_all add: hist_simps)

lemma written_setup_calls:
  "written (hist (uinput_capability_setup k fd q v s)) = written (hist s)"
  "written (hist (init_key k fd key s)) = written (hist s)"
  "written (hist (create_and_wait k fd m s)) = written (hist s)"
  by (simp_all add: uinput_capability_setup_def init_key_def written_call_or_log
      create_and_wait_def sys_call_def Let_def)

lemma written_setup_loops:
  "written (hist (fold (uinput_capability_setup k fd q) vs s)) = written (hist s)"
  "written (hist (fold (init_key k fd) ks s)) = written (hist s)"
  by (rule fold_frame [where g = "\<lambda>s. written (hist s)"], simp add: written_setup_calls)+

lemmas written_setup = written_setup_calls written_setup_loops written_call_or_log sys_call_def Let_def

lemma written_setup_virtual:
  "written (hist (setup_virtual_mouse k s)) = written (hist s)"
  "written (hist (setup_virtual_keyboard k s)) = written (hist s)"
  "written (hist (setup_virtual_touchscreen k s)) = written (hist s)"
  "written (hist (setup_virtual_multi_touchscreen k s)) = written (hist s)"
  by (simp_all add: setup_virtual_mouse_def setup_virtual_keyboard_def setup_virtual_touchscreen_def
      setup_virtual_multi_touchscreen_def written_setup del: fold_simps upt_rec_numeral)

lemma written_construct [simp]:
  "written (hist (construct_input k lib getenv cfg s)) = written (hist s)"
  by (simp add: construct_input_def written_setup_virtual)

section \<open>A concrete kernel\<close>

text \<open>A kernel that answers every call with the number of calls made so far: it never fails
  and never hands out a descriptor twice. The witnesses of the server's theorems run on it.\<close>

definition counting_kernel :: kernel where
  "counting_kernel = \<lparr>k_ret = (\<lambda>h. int (length h)), k_errno = (\<lambda>_. 0), k_bytes = (\<lambda>_. []),
     k_text = (\<lambda>_. []), k_abs = (\<lambda>_. zero_absinfo), k_event = (\<lambda>_. syn_report),
     k_dirent = (\<lambda>_. None), k_ready = (\<lambda>_ _. False)\<rparr>"

lemma ioctl_step_absent:
  "ioctl_step q U_error = U_error" "ioctl_step q U_absent = U_error"
  by (cases q; simp)+

lemma dev_step_error_absorbing: "dev_step fd r c U_error = U_error"
  by (auto simp: dev_step_def ioctl_step_absent split: syscall.splits)

lemma dev_step_absent:
  "dev_step fd r c U_absent = U_absent \<or> dev_step fd r c U_absent = U_error \<or>
   (dev_step fd r c U_absent = U_new \<and> r = fd)"
  by (auto simp: dev_step_def ioctl_step_absent split: syscall.splits)

lemma counting_kernel_absent:
  "int (length h) < fd \<Longrightarrow> dev_state counting_kernel fd h \<noteq> U_error \<Longrightarrow>
     dev_state counting_kernel fd h = U_absent"
proof (induction h)
  case (Cons c h)
  then have "dev_state counting_kernel fd h = U_absent"
    using dev_step_error_absorbing by fastforce
  with Cons.prems dev_step_absent [of fd "int (length (c # h))" c] show ?case
    by (auto simp: counting_kernel_def)
qed simp

lemma counting_kernel_ret [simp]: "k_ret counting_kernel h = int (length h)"
  by (simp add: counting_kernel_def)

lemma counting_kernel_ok: "kernel_ok counting_kernel"
  by (simp add: kernel_ok_def clean_def counting_kernel_absent)

text \<open>An XKB library without a keymap, and the empty configuration.\<close>

definition no_xkb :: xkb_lib where
  "no_xkb = \<lparr>xkb_context_new = False, xkb_keymap_new_from_names = (\<lambda>_. None),
     xkb_keysym_from_name = (\<lambda>_. 0)\<rparr>"

definition empty_cfg :: XkbConfig where
  "empty_cfg = \<lparr>xc_rules = [], xc_model = [], xc_layout = [], xc_variant = [], xc_options = []\<rparr>"

definition blank_server :: input_server where
  "blank_server = \<lparr>hist = [], errs = [], mDeviceFd = [], m_xkb_ctx = False, m_xkb_keymap = None\<rparr>"

section \<open>Properties\<close>



end
