(* ===== verification/Input_Properties.thy ===== *)
theory Input_Properties
  imports Uinput_Protocol
begin

text \<open>
  The properties of the input side of the server that follow from the packet specification and
  the uinput protocol: the server as a refinement of an abstract machine with one stream of
  events per virtual device, the slot semantics of multi-touch requests, the choice of key
  codes, the limits of the pass-through request and the behaviour without \<open>/dev/uinput\<close>.
\<close>

section \<open>Support\<close>

text \<open>The keymap a freshly constructed server works with.\<close>

definition configured_keymap ::
  "xkb_lib \<Rightarrow> (string \<Rightarrow> string option) \<Rightarrow> XkbConfig \<Rightarrow> keymap option" where
  "configured_keymap lib getenv cfg =
     (if xkb_context_new lib then xkb_keymap_new_from_names lib (xkb_rules_of getenv cfg) else None)"

lemma setup_loops_keymap [frame_simps]:
  "m_xkb_keymap (fold (uinput_capability_setup k fd q) vs s) = m_xkb_keymap s"
  "m_xkb_keymap (fold (init_key k fd) ks s) = m_xkb_keymap s"
  by (rule fold_frame, simp add: uinput_capability_setup_def init_key_def frame_simps)+

lemma setup_calls_keymap [frame_simps]:
  "m_xkb_keymap (uinput_capability_setup k fd q v s) = m_xkb_keymap s"
  "m_xkb_keymap (create_and_wait k fd m s) = m_xkb_keymap s"
  "m_xkb_keymap (set_device_fd d fd s) = m_xkb_keymap s"
  by (simp_all add: uinput_capability_setup_def create_and_wait_def sys_call_def Let_def
      set_device_fd_def frame_simps)

lemma setup_virtual_keymap [frame_simps]:
  "m_xkb_keymap (setup_virtual_mouse k s) = m_xkb_keymap s"
  "m_xkb_keymap (setup_virtual_keyboard k s) = m_xkb_keymap s"
  "m_xkb_keymap (setup_virtual_touchscreen k s) = m_xkb_keymap s"
  "m_xkb_keymap (setup_virtual_multi_touchscreen k s) = m_xkb_keymap s"
  by (simp_all add: setup_virtual_mouse_def setup_virtual_keyboard_def setup_virtual_touchscreen_def
      setup_virtual_multi_touchscreen_def frame_simps sys_call_def Let_def
      del: fold_simps upt_rec_numeral)

lemma construct_input_keymap:
  assumes "m_xkb_keymap s = None"
  shows "m_xkb_keymap (construct_input k lib getenv cfg s) = configured_keymap lib getenv cfg"
  using assms
  by (simp add: construct_input_def setup_xkb_def configured_keymap_def frame_simps split: option.split)

lemma events_on_written: "written h = [] \<Longrightarrow> events_on fd h = []"
  by (simp add: events_on_def)

lemma abs_streams_construct:
  assumes "hist s = []"
  shows "abs_streams (construct_input k lib getenv cfg s) = (\<lambda>_. [])"
  using assms by (simp add: abs_streams_def events_on_written fun_eq_iff)

lemma fold_handle_input_frame [frame_simps]:
  "m_xkb_keymap (fold (handle_input k lib) rs s) = m_xkb_keymap s"
  "mDeviceFd (fold (handle_input k lib) rs s) = mDeviceFd s"
  by (rule fold_frame, simp add: frame_simps)+

lemma fold_handle_input_refines:
  assumes "devices_open s"
  shows "abs_streams (fold (handle_input k lib) rs s) =
    fold (spec_input lib (m_xkb_keymap s)) rs (abs_streams s)"
  using assms
proof (induction rs arbitrary: s)
  case (Cons r rs)
  then show ?case by (simp add: frame_simps handle_input_refines)
qed simp

section \<open>A kernel without uinput\<close>

text \<open>Without access to \<open>/dev/uinput\<close> each setup function makes one call and no handler
  makes any.\<close>

definition no_devices :: "'a input_server_scheme \<Rightarrow> bool" where
  "no_devices s \<longleftrightarrow> mDeviceFd s = [- 1, - 1, - 1, - 1]"

lemma no_devices_fd [simp]: "no_devices s \<Longrightarrow> getDeviceFd d s = - 1"
  by (auto simp: no_devices_def getDeviceFd_def less_Suc_eq numeral_eq_Suc)

lemma handle_input_no_devices:
  assumes "no_devices s"
  shows "hist (handle_input k lib r s) = hist s"
  using assms by (rule_tac handle_input_packet [of k lib r s]) (auto simp: hist_simps split: prod.splits)

lemma fold_handle_no_devices:
  "no_devices s \<Longrightarrow> hist (fold (handle_input k lib) rs s) = hist s"
  by (induction rs arbitrary: s) (simp_all add: handle_input_no_devices no_devices_def frame_simps)

lemma destruct_no_devices: "no_devices s \<Longrightarrow> hist (destruct_input k s) = hist s"
  by (simp add: destruct_input_def no_devices_def close_input_device_def)

definition refusing_kernel :: kernel where
  "refusing_kernel = counting_kernel\<lparr>k_ret := (\<lambda>_. - 1)\<rparr>"

text \<open>A keymap with two letters: key code 30 gives 97 (a) and, shifted, 65 (A).\<close>

definition two_key_map :: keymap where
  "two_key_map = \<lparr>num_layouts_for_key = (\<lambda>c. if c = 38 then 1 else 0),
     key_get_syms_by_level = (\<lambda>c l level. if c = 38 then (if level = 0 then [97] else [65]) else [])\<rparr>"

section \<open>Properties\<close>

text \<open>What the devices of a fresh server have received after a sequence of requests.\<close>

lemma construct_run_refines:
  fixes s0 :: input_server
  assumes "kernel_ok k" "hist s0 = []" "m_xkb_keymap s0 = None"
  shows "abs_streams (fold (handle_input k lib) rs (construct_input k lib getenv cfg s0)) =
    fold (spec_input lib (configured_keymap lib getenv cfg)) rs (\<lambda>_. [])"
proof -
  have "devices_open (construct_input k lib getenv cfg s0)"
    using assms by (intro construct_input_inv) (simp_all add: server_inv_start)
  then show ?thesis
    using assms by (simp add: fold_handle_input_refines construct_input_keymap abs_streams_construct)
qed

text \<open>C2: Refinement: for any sequence of requests after construction, what each virtual device
  has received is exactly what the abstract machine, which appends to the addressed device's
  stream the packet of each request, says; no event is lost, duplicated, reordered or sent to
  another device.\<close>

theorem input_run_refines:
  fixes s0 :: input_server
  assumes "kernel_ok k" and "hist s0 = []" and "m_xkb_keymap s0 = None"
  shows "abs_streams (fold (handle_input k lib) rs (construct_input k lib getenv cfg s0)) =
    fold (spec_input lib (configured_keymap lib getenv cfg)) rs (\<lambda>_. [])"
  using assms by (rule construct_run_refines)

theorem input_run_refines_witness:
  "abs_streams (fold (handle_input counting_kernel no_xkb)
       [Req_MouseMove \<lparr>relX = 5, relY = - 3\<rparr>, Req_KeyPress \<lparr>kp_pressed = True, kp_which = RawCode 30\<rparr>]
       (construct_input counting_kernel no_xkb (\<lambda>_. None) empty_cfg blank_server)) VIRTUAL_KEYBOARD =
     [mk_event EV_KEY 30 1, syn_report]"
  using input_run_refines [of counting_kernel blank_server no_xkb
      "[Req_MouseMove \<lparr>relX = 5, relY = - 3\<rparr>, Req_KeyPress \<lparr>kp_pressed = True, kp_which = RawCode 30\<rparr>]"
      "\<lambda>_. None" empty_cfg]
  by (simp add: counting_kernel_ok blank_server_def spec_input_def packet_events_def syn_report_def)

text \<open>C21: A multi-touch request has the effect of its entries under the slot protocol of the
  kernel: reading the events the request adds to the device turns any slot state into the one
  obtained by applying the entries in order (a positive tracking identifier starts a contact, 0
  moves it, a negative one ends it and keeps the position), and the packet is closed by a
  report.\<close>

theorem multi_touch_semantics:
  assumes "0 \<le> getDeviceFd VIRTUAL_MULTI_TOUCHSCREEN s"
  shows "\<exists>es. events_on (getDeviceFd VIRTUAL_MULTI_TOUCHSCREEN s) (hist (handle_input k lib (Req_MultiTouch ts) s))
      = events_on (getDeviceFd VIRTUAL_MULTI_TOUCHSCREEN s) (hist s) @ es @ [syn_report] \<and>
    (\<forall>m. fold mt_step es m = fold apply_touch ts m)"
  using assms
  by (intro exI [of _ "packet_events (concat (map touch_packet ts))"])
    (simp add: handle_input_events_on mt_step_touches packet_events_def [of "[(EV_SYN, SYN_REPORT, 0)]"]
      syn_report_def del: handle_input.simps)

theorem multi_touch_semantics_witness:
  "let s = blank_server\<lparr>mDeviceFd := [3, 4, 5, 6]\<rparr> in
   \<exists>es. events_on (getDeviceFd VIRTUAL_MULTI_TOUCHSCREEN s) (hist (handle_input counting_kernel no_xkb
       (Req_MultiTouch [\<lparr>slot = 0, trackingId = 7, mt_absX = 100, mt_absY = 200\<rparr>]) s))
      = events_on (getDeviceFd VIRTUAL_MULTI_TOUCHSCREEN s) (hist s) @ es @ [syn_report] \<and>
    (\<forall>m. fold mt_step es m = fold apply_touch [\<lparr>slot = 0, trackingId = 7, mt_absX = 100, mt_absY = 200\<rparr>] m)"
  unfolding Let_def by (rule multi_touch_semantics) (simp add: getDeviceFd_def)

text \<open>C20: \<open>resolve_keysym\<close> is sound, complete and prefers unshifted keys: the answer is 0
  exactly when no key code from \<open>KEY_ESC\<close> below \<open>KEY_MAX\<close> carries the symbol on level 0 or
  1 of any of its layouts; any other answer is the lowest key code that carries it on level 0,
  or, when level 0 has none, the lowest that carries it on level 1.\<close>

theorem resolve_keysym_correct:
  "(resolve_keysym (Some km) ks = 0 \<longleftrightarrow>
      (\<forall>e level. 1 \<le> e \<and> e < KEY_MAX \<and> level \<le> 1 \<longrightarrow> \<not> key_has_sym km e level ks)) \<and>
   (\<forall>e. resolve_keysym (Some km) ks = e \<and> e \<noteq> 0 \<longrightarrow>
      e < KEY_MAX \<and>
      (\<exists>level \<le> 1. key_has_sym km e level ks \<and>
         (\<forall>e' level'. 1 \<le> e' \<and> e' < KEY_MAX \<and> key_has_sym km e' level' ks \<and> level' \<le> level \<longrightarrow>
            level' = level \<and> e \<le> e')))"
proof -
  let ?r = "resolve_keysym (Some km) ks"
  let ?best = "\<lambda>e. \<exists>level \<le> 1. key_has_sym km e level ks \<and>
    (\<forall>e' level'. 1 \<le> e' \<and> e' < KEY_MAX \<and> key_has_sym km e' level' ks \<and> level' \<le> level \<longrightarrow>
       level' = level \<and> e \<le> e')"
  consider (none) "?r = 0" "\<forall>x. 1 \<le> x \<and> x < KEY_MAX \<longrightarrow> \<not> key_has_sym km x 0 ks \<and> \<not> key_has_sym km x 1 ks"
    | (low) "1 \<le> ?r" "?r < KEY_MAX" "key_has_sym km ?r 0 ks" "\<forall>x. 1 \<le> x \<and> x < ?r \<longrightarrow> \<not> key_has_sym km x 0 ks"
    | (high) "1 \<le> ?r" "?r < KEY_MAX" "key_has_sym km ?r 1 ks"
        "\<forall>x. 1 \<le> x \<and> x < KEY_MAX \<longrightarrow> \<not> key_has_sym km x 0 ks"
        "\<forall>x. 1 \<le> x \<and> x < ?r \<longrightarrow> \<not> key_has_sym km x 1 ks"
    using resolve_keysym_cases [of km ks] by metis
  then show ?thesis
  proof cases
    case none
    moreover have "level \<le> 1 \<Longrightarrow> 1 \<le> e \<and> e < KEY_MAX \<Longrightarrow> \<not> key_has_sym km e level ks" for e level
      using none(2) by (cases level) auto
    ultimately show ?thesis by auto
  next
    case low
    then have "?best ?r" by (intro exI [of _ 0]) (auto simp: not_less [symmetric])
    with low show ?thesis by auto
  next
    case high
    have "level' = 1 \<and> ?r \<le> e'"
      if "1 \<le> e'" "e' < KEY_MAX" "key_has_sym km e' level' ks" "level' \<le> 1" for e' level'
      using that high(4,5) by (cases level') (auto simp: not_less [symmetric])
    then have "?best ?r" using high(3) by (intro exI [of _ 1]) auto
    with high show ?thesis by auto
  qed
qed

theorem resolve_keysym_correct_witness: "resolve_keysym (Some two_key_map) 65 = 30"
proof -
  have "resolve_keysym (Some two_key_map) 65 \<noteq> 0"
    using resolve_keysym_correct [of two_key_map 65]
    by (auto simp: key_has_sym_def two_key_map_def intro!: exI [of _ 30] exI [of _ 1])
  then obtain level where "level \<le> 1" "key_has_sym two_key_map (resolve_keysym (Some two_key_map) 65) level 65"
    using resolve_keysym_correct [of two_key_map 65] by auto
  then show ?thesis
    by (auto simp: key_has_sym_def two_key_map_def split: if_splits)
qed

text \<open>A key request whose symbol or name cannot be resolved is dropped: nothing is written
  to any device, and exactly one warning is logged.\<close>

lemma unresolved_key_dropped:
  assumes "resolve_key lib (m_xkb_keymap s) (kp_which kp) = None"
  shows "hist (handle_input k lib (Req_KeyPress kp) s) = hist s \<and>
    length (errs (handle_input k lib (Req_KeyPress kp) s)) = Suc (length (errs s))"
  using assms by (simp add: handleKeyPress_packet)

text \<open>The pass-through request forwards one event to the addressed virtual device, the type
  and the code cut to their low 16 bits and the value unchanged; a device number outside the
  four virtual devices writes nothing.\<close>

lemma pass_through_event:
  assumes "devices_open s"
  shows "written (hist (handle_input k lib (Req_PassThrough p) s)) =
    written (hist s) @
    (if unat (pt_device p) < MAX_DEVICES
     then [(getDeviceFd (unat (pt_device p)) s,
            \<lparr>ev_type = ucast (pt_type p), ev_code = ucast (pt_code p), ev_value = pt_value p\<rparr>)]
     else [])"
proof -
  have cut: "scast w = (ucast w :: 16 word)" for w :: u32
    by (rule bit_word_eqI) (auto simp: bit_simps)
  have "\<not> unat (pt_device p) < MAX_DEVICES \<Longrightarrow> getDeviceFd (unat (pt_device p)) s = - 1"
    by (simp add: getDeviceFd_def)
  then show ?thesis
    using devices_open_fd(2) [OF assms] unfolding handle_input_written
    by (auto simp: packet_events_def mk_event_def cut)
qed

text \<open>C36: Without access to \<open>/dev/uinput\<close> the server degrades safely: the constructor tries
  to open each device once, and after that neither a request nor the destructor makes any
  further call.\<close>

theorem no_uinput_no_calls:
  fixes s0 :: input_server
  assumes "\<And>p f h. k_ret k (Open p f # h) = - 1" and "hist s0 = []"
  shows "hist (destruct_input k (fold (handle_input k lib) rs (construct_input k lib getenv cfg s0))) =
    replicate 4 (Open ''/dev/uinput'' O_WRONLY)"
proof -
  let ?s = "construct_input k lib getenv cfg s0"
  have s: "no_devices ?s" "hist ?s = replicate 4 (Open ''/dev/uinput'' O_WRONLY)"
    using assms
    by (simp_all add: construct_input_def setup_virtual_mouse_def setup_virtual_keyboard_def
        setup_virtual_touchscreen_def setup_virtual_multi_touchscreen_def sys_call_def Let_def
        no_devices_def frame_simps numeral_eq_Suc)
  then show ?thesis
    by (simp add: destruct_no_devices fold_handle_no_devices no_devices_def frame_simps)
qed

theorem no_uinput_no_calls_witness:
  "hist (destruct_input refusing_kernel (fold (handle_input refusing_kernel no_xkb)
      [Req_MouseMove \<lparr>relX = 1, relY = 1\<rparr>]
      (construct_input refusing_kernel no_xkb (\<lambda>_. None) empty_cfg blank_server))) =
    replicate 4 (Open ''/dev/uinput'' O_WRONLY)"
  by (rule no_uinput_no_calls) (simp_all add: refusing_kernel_def blank_server_def)

end
