(* ===== verification/Recorder_Service.thy ===== *)
theory Recorder_Service
  imports Recorder_Shutdown Input_Properties
begin

text \<open>
  The \<open>Recorder\<close> interface of \<open>server/TestRunnerServer.cpp\<close>: the snapshot recorder the
  constructor starts and up to \<open>MAX_CUSTOM_RECORDERS\<close> custom recorders, each one a recorder
  machine. A call of \<open>Stop\<close> waits for the recorder's threads; the steps they make
  meanwhile are the schedule, an argument of the handlers that stop. Shown here: indices are
  checked, the number of recorders is bounded, the device list can be sent back without loss,
  every file a custom recorder writes lies directly in \<open>/tmp\<close>, and what a snapshot returns.
\<close>

abbreviation (input) MAX_CUSTOM_RECORDERS :: nat where "MAX_CUSTOM_RECORDERS \<equiv> 20"

record recorder_service =
  snapshot_recorder :: "rmach option"
  custom_recorders :: "rmach list"

section \<open>Calls of a recorder\<close>

definition call_start :: "kernel \<Rightarrow> rec_xkb \<Rightarrow> rmach \<Rightarrow> unit result \<times> rmach" where
  "call_start k x m =
     (case rec_exec k x L_start m of
        None \<Rightarrow> (Inl Blocked_forever, m)
      | Some m' \<Rightarrow> (case death m' of Some e \<Rightarrow> (Inl e, m') | None \<Rightarrow> (Inr (), m')))"

text \<open>A call of \<open>Stop\<close> during which the steps \<open>sched\<close> are made, among them the second assignment of the
  request; when these do not end the recording, the call is still waiting, unless one of them has ended the process.\<close>

definition call_stop :: "kernel \<Rightarrow> rec_xkb \<Rightarrow> rlabel list \<Rightarrow> rmach \<Rightarrow> string result \<times> rmach" where
  "call_stop k x sched m =
     (case rec_exec k x L_stop m of
        None \<Rightarrow> (Inl Blocked_forever, m)
      | Some m1 \<Rightarrow>
          (if mpc m1 = Main_idle then (Inl System_error, m1)
           else (case exec_all k x sched m1 of
                   None \<Rightarrow> (Inl Blocked_forever, m1)
                 | Some m2 \<Rightarrow> (case death m2 of
                       Some e \<Rightarrow> (Inl e, m2)
                     | None \<Rightarrow> (case rec_exec k x L_join m2 of
                           None \<Rightarrow> (Inl Blocked_forever, m2)
                         | Some m3 \<Rightarrow> (Inr (m_recording_path (rst m3)), m3))))))"

text \<open>The destructor of a recorder. Its threads make the steps \<open>before\<close> until it is called and then the
  steps \<open>during\<close>, among them the two assignments of the destructor's own request to stop.\<close>

definition call_destroy ::
  "kernel \<Rightarrow> rec_xkb \<Rightarrow> rlabel list \<Rightarrow> rlabel list \<Rightarrow> rmach \<Rightarrow> unit result \<times> rmach" where
  "call_destroy k x before during m =
     (case exec_all k x before m of
        None \<Rightarrow> (Inl Blocked_forever, m)
      | Some m0 \<Rightarrow> (case rec_exec k x L_destroy m0 of
          None \<Rightarrow> (Inl Blocked_forever, m0)
        | Some m1 \<Rightarrow>
            (if mpc m1 = Main_gone then (Inr (), m1)
             else (case exec_all k x during m1 of
                     None \<Rightarrow> (Inl Blocked_forever, m1)
                   | Some m2 \<Rightarrow> (case death m2 of
                         Some e \<Rightarrow> (Inl e, m2)
                       | None \<Rightarrow> (case rec_exec k x L_destroy_join m2 of
                             None \<Rightarrow> (Inl Blocked_forever, m2)
                           | Some m3 \<Rightarrow> (Inr (), m3)))))))"

section \<open>Constructor and destructor\<close>

definition construct_service ::
  "kernel \<Rightarrow> rec_xkb \<Rightarrow> bool \<Rightarrow> recorder_service option" where
  "construct_service k x enable_snapshot_recorder =
     (if enable_snapshot_recorder
      then (case construct_recorder k x ''input_snapshot'' 30 True ''/dev/input'' of
              None \<Rightarrow> None
            | Some s \<Rightarrow> Some \<lparr>snapshot_recorder = Some (snd (call_start k x (rmach_init s))),
                               custom_recorders = []\<rparr>)
      else Some \<lparr>snapshot_recorder = None, custom_recorders = []\<rparr>)"

text \<open>The recorders in the order the destructor of the server destroys them, and that part of the
  destructor, with the schedules of each recorder: the snapshot recorder first, then the custom ones.
  The result has the state every recorder was left in.\<close>

definition all_recorders :: "recorder_service \<Rightarrow> rmach list" where
  "all_recorders sv = (case snapshot_recorder sv of None \<Rightarrow> [] | Some m \<Rightarrow> [m]) @ custom_recorders sv"

fun destroy_all ::
  "kernel \<Rightarrow> rec_xkb \<Rightarrow> (nat \<Rightarrow> rlabel list \<times> rlabel list) \<Rightarrow> nat \<Rightarrow> rmach list \<Rightarrow> unit result \<times> rmach list" where
  "destroy_all k x sched i [] = (Inr (), [])"
| "destroy_all k x sched i (m # ms) =
     (case call_destroy k x (fst (sched i)) (snd (sched i)) m of
        (Inl e, m') \<Rightarrow> (Inl e, m' # ms)
      | (Inr _, m') \<Rightarrow> (case destroy_all k x sched (Suc i) ms of (r, ms') \<Rightarrow> (r, m' # ms')))"

definition destruct_service ::
  "kernel \<Rightarrow> rec_xkb \<Rightarrow> (nat \<Rightarrow> rlabel list \<times> rlabel list) \<Rightarrow> recorder_service \<Rightarrow> unit result \<times> rmach list" where
  "destruct_service k x sched sv = destroy_all k x sched 0 (all_recorders sv)"

text \<open>The whole destructor: the recorders, then the virtual devices and the keymap.\<close>

definition destruct_server ::
  "kernel \<Rightarrow> rec_xkb \<Rightarrow> (nat \<Rightarrow> rlabel list \<times> rlabel list) \<Rightarrow> recorder_service \<Rightarrow> input_server \<Rightarrow>
     unit result \<times> rmach list \<times> input_server" where
  "destruct_server k x sched sv s =
     (case destruct_service k x sched sv of
        (Inl e, ms) \<Rightarrow> (Inl e, ms, s)
      | (Inr _, ms) \<Rightarrow> (Inr (), ms, destruct_input k s))"

section \<open>Handlers\<close>

definition getSnapshot ::
  "kernel \<Rightarrow> rec_xkb \<Rightarrow> rlabel list \<Rightarrow> recorder_service \<Rightarrow> string result \<times> recorder_service" where
  "getSnapshot k x sched sv =
     (case snapshot_recorder sv of
        None \<Rightarrow> (Inl Null_dereference, sv)
      | Some m \<Rightarrow>
          (case call_stop k x sched m of
             (Inl e, m1) \<Rightarrow> (Inl e, sv\<lparr>snapshot_recorder := Some m1\<rparr>)
           | (Inr path, m1) \<Rightarrow>
               (case call_start k x m1 of
                  (Inl e, m2) \<Rightarrow> (Inl e, sv\<lparr>snapshot_recorder := Some m2\<rparr>)
                | (Inr _, m2) \<Rightarrow> (Inr path, sv\<lparr>snapshot_recorder := Some m2\<rparr>))))"

text \<open>The name check of \<open>createCustomRecorder\<close>.\<close>

definition bad_filename :: "string \<Rightarrow> bool" where
  "bad_filename f \<longleftrightarrow> contains_char (CHR ''/'') f \<or> contains_sub ''..'' f"

definition createCustomRecorder ::
  "kernel \<Rightarrow> rec_xkb \<Rightarrow> string \<Rightarrow> u32 \<Rightarrow> bool \<Rightarrow> recorder_service \<Rightarrow> (u8 \<times> recorder_service) option" where
  "createCustomRecorder k x name len cont sv =
     (let filename = c_str name in
      if bad_filename filename then Some (255, sv)
      else if length (custom_recorders sv) < MAX_CUSTOM_RECORDERS
      then (case construct_recorder k x filename len cont ''/dev/input'' of
              None \<Rightarrow> None
            | Some s \<Rightarrow>
                (let rs = custom_recorders sv @ [rmach_init s]
                 in Some (word_of_nat (length rs - 1), sv\<lparr>custom_recorders := rs\<rparr>)))
      else Some (255, sv))"

text \<open>The device descriptions on the wire. The name of a device is a C string.\<close>

definition wire_of_device :: "in_device_s \<Rightarrow> InputDevice" where
  "wire_of_device d = \<lparr>id_fd = word_of_int (dev_fd d), id_name = dev_name d,
     id_type = word_of_nat (device_type_num (dev_type d))\<rparr>"

definition device_of_wire :: "InputDevice \<Rightarrow> in_device_s" where
  "device_of_wire w = \<lparr>dev_fd = sint (id_fd w), dev_name = strncpy_term (c_str (id_name w)) 50,
     dev_type = device_type_of (unat (id_type w)), abs_range_x = zero_absinfo, abs_range_y = zero_absinfo\<rparr>"

definition srv_listDevices :: "u8 \<Rightarrow> recorder_service \<Rightarrow> InputDevice list" where
  "srv_listDevices index sv =
     (if unat index < length (custom_recorders sv)
      then map wire_of_device (listDevices (rst (custom_recorders sv ! unat index)))
      else [])"

definition srv_setDevicesToRecord ::
  "u8 \<Rightarrow> InputDevice list \<Rightarrow> recorder_service \<Rightarrow> recorder_service result" where
  "srv_setDevicesToRecord index devices_in sv =
     (if unat index < length (custom_recorders sv)
      then (let m = custom_recorders sv ! unat index
            in bind_result (rec_setDevicesToRecord (map device_of_wire devices_in) (rst m)) (\<lambda>s.
                 Inr (sv\<lparr>custom_recorders := (custom_recorders sv)[unat index := m\<lparr>rst := s\<rparr>]\<rparr>)))
      else Inr sv)"

definition startCustomRecording ::
  "kernel \<Rightarrow> rec_xkb \<Rightarrow> u8 \<Rightarrow> recorder_service \<Rightarrow> unit result \<times> recorder_service" where
  "startCustomRecording k x index sv =
     (if unat index < length (custom_recorders sv)
      then (case call_start k x (custom_recorders sv ! unat index) of (r, m) \<Rightarrow>
              (r, sv\<lparr>custom_recorders := (custom_recorders sv)[unat index := m]\<rparr>))
      else (Inr (), sv))"

text \<open>Without a result the reply has the empty path.\<close>

definition stopCustomRecording ::
  "kernel \<Rightarrow> rec_xkb \<Rightarrow> rlabel list \<Rightarrow> u8 \<Rightarrow> recorder_service \<Rightarrow> string result \<times> recorder_service" where
  "stopCustomRecording k x sched index sv =
     (if unat index < length (custom_recorders sv)
      then (case call_stop k x sched (custom_recorders sv ! unat index) of (r, m) \<Rightarrow>
              (r, sv\<lparr>custom_recorders := (custom_recorders sv)[unat index := m]\<rparr>))
      else (Inr [], sv))"

definition checkRecorderActive :: "u8 \<Rightarrow> recorder_service \<Rightarrow> bool" where
  "checkRecorderActive index sv =
     (if unat index < length (custom_recorders sv)
      then isActive (rst (custom_recorders sv ! unat index)) else False)"

section \<open>Runs of the machine\<close>

text \<open>The contract of a recorder as its callers use it: a predicate that holds of a fresh recorder
  and is kept by every step of the machine is kept by every call.\<close>

locale recorder_contract =
  fixes k :: kernel and x :: rec_xkb and I :: "rmach \<Rightarrow> bool"
  assumes step_keeps: "rstep k x m l m' \<Longrightarrow> I m \<Longrightarrow> I m'"
begin

lemma exec_keeps: "rec_exec k x l m = Some m' \<Longrightarrow> I m \<Longrightarrow> I m'"
  using step_keeps rstep_iff_exec by blast

lemma exec_all_keeps: "exec_all k x ls m = Some m' \<Longrightarrow> I m \<Longrightarrow> I m'"
  by (induction ls arbitrary: m) (auto split: option.splits dest: exec_keeps)

lemma call_start_keeps: "I m \<Longrightarrow> I (snd (call_start k x m))"
  by (auto simp: call_start_def split: option.split dest: exec_keeps simp del: rec_exec.simps)

lemma call_stop_keeps: "I m \<Longrightarrow> I (snd (call_stop k x sched m))"
  by (auto simp: call_stop_def split: option.split dest: exec_keeps exec_all_keeps simp del: rec_exec.simps)

lemma call_destroy_keeps:
  assumes "I m" "call_destroy k x before during m = (Inr (), m')"
  shows "I m' \<and> mpc m' = Main_gone"
proof -
  obtain m0 m1 where m1: "exec_all k x before m = Some m0" "rec_exec k x L_destroy m0 = Some m1"
    using assms(2) by (simp add: call_destroy_def del: rec_exec.simps split: option.splits)
  have I1: "I m1" using exec_keeps [OF m1(2) exec_all_keeps [OF m1(1) assms(1)]] .
  show ?thesis
  proof (cases "mpc m1 = Main_gone")
    case True
    then show ?thesis using assms(2) m1 I1 by (simp add: call_destroy_def del: rec_exec.simps)
  next
    case False
    then obtain m2 where during: "exec_all k x during m1 = Some m2"
      using assms(2) m1 by (cases "exec_all k x during m1") (simp_all add: call_destroy_def del: rec_exec.simps)
    have m2: "exec_all k x during m1 = Some m2" "rec_exec k x L_destroy_join m2 = Some m'"
      using assms(2) m1 False during
      by (cases "death m2"; cases "rec_exec k x L_destroy_join m2"; simp add: call_destroy_def del: rec_exec.simps)+
    have "I m'" using exec_keeps [OF m2(2) exec_all_keeps [OF m2(1) I1]] .
    with m2(2) show ?thesis by (auto split: if_splits)
  qed
qed

lemma destroy_all_keeps:
  "\<forall>m \<in> set ms. I m \<Longrightarrow> destroy_all k x sched i ms = (Inr (), ms') \<Longrightarrow>
   length ms' = length ms \<and> (\<forall>m \<in> set ms'. I m \<and> mpc m = Main_gone)"
proof (induction ms arbitrary: i ms')
  case (Cons m ms)
  then obtain m' ms1 where m': "call_destroy k x (fst (sched i)) (snd (sched i)) m = (Inr (), m')"
    and ms1: "destroy_all k x sched (Suc i) ms = (Inr (), ms1)" "ms' = m' # ms1"
    by (auto split: prod.splits sum.splits)
  have "I m' \<and> mpc m' = Main_gone" using call_destroy_keeps [OF _ m'] Cons.prems(1) by simp
  moreover have "length ms1 = length ms \<and> (\<forall>m \<in> set ms1. I m \<and> mpc m = Main_gone)"
    using Cons.IH [OF _ ms1(1)] Cons.prems(1) by simp
  ultimately show ?case using ms1(2) by simp
qed simp

end

interpretation files_contract: recorder_contract k x "\<lambda>m. clock_ok k \<longrightarrow> control_inv m \<and> file_inv m"
  for k x
  by unfold_locales (blast intro: control_inv_step file_inv_step)

section \<open>Where files are written\<close>

definition tmp_path :: "string \<Rightarrow> bool" where
  "tmp_path p \<longleftrightarrow> (\<exists>n. p = ''/tmp/'' @ n \<and> CHR ''/'' \<notin> set n)"

text \<open>A local time printed with \<open>%Y%m%d_%H%M%S\<close> has no slash.\<close>

definition stamp_ok :: "kernel \<Rightarrow> bool" where
  "stamp_ok k \<longleftrightarrow> (\<forall>h. CHR ''/'' \<notin> set (k_text k (Clock # h)))"

definition paths_safe :: "rmach \<Rightarrow> bool" where
  "paths_safe m \<longleftrightarrow> (\<forall>p. files (rst m) p \<noteq> None \<longrightarrow> tmp_path p) \<and>
     (if m_continuous (rst m) then CHR ''/'' \<notin> set (m_filename (rst m)) else tmp_path (m_filename (rst m)))"

lemma tmp_path_dump: "stamp_ok k \<Longrightarrow> CHR ''/'' \<notin> set (m_filename s) \<Longrightarrow> tmp_path (dump_path k s)"
  by (simp add: tmp_path_def dump_path_def stamp_ok_def)

lemma paths_safe_advances:
  assumes "advances k (rst m) rs s'" "paths_safe m"
  shows "paths_safe (m\<lparr>rst := s'\<rparr>)"
proof -
  have "tmp_path p" if "files s' p \<noteq> None" for p
  proof (cases "m_continuous (rst m) \<or> p \<noteq> m_filename (rst m)")
    case True
    then have "files s' p = files (rst m) p" using assms(1) by (auto simp: advances_def split: if_splits)
    with that assms(2) show ?thesis by (simp add: paths_safe_def)
  next
    case False
    with assms(2) show ?thesis by (simp add: paths_safe_def)
  qed
  moreover have "m_continuous s' = m_continuous (rst m)" "m_filename s' = m_filename (rst m)"
    using assms(1) by (simp_all add: advances_def same_config_def)
  ultimately show ?thesis using assms(2) by (simp add: paths_safe_def)
qed

lemma paths_safe_frame:
  "files s = files (rst m) \<Longrightarrow> m_continuous s = m_continuous (rst m) \<Longrightarrow> m_filename s = m_filename (rst m) \<Longrightarrow>
   paths_safe (m\<lparr>rst := s\<rparr>) = paths_safe m"
  by (simp add: paths_safe_def)

lemma paths_safe_control [simp]:
  "paths_safe (m\<lparr>rpc := a\<rparr>) = paths_safe m" "paths_safe (m\<lparr>bpc := b\<rparr>) = paths_safe m"
  "paths_safe (m\<lparr>mpc := c\<rparr>) = paths_safe m" "paths_safe (m\<lparr>devs := d\<rparr>) = paths_safe m"
  "paths_safe (m\<lparr>outcome := e\<rparr>) = paths_safe m" "paths_safe (m\<lparr>glog := f\<rparr>) = paths_safe m"
  by (simp_all add: paths_safe_def)

lemma paths_safe_step:
  assumes ok: "clock_ok k" "stamp_ok k" and step: "rstep k x m l m'"
    and ctl: "control_inv m" and inv: "paths_safe m"
  shows "paths_safe m'"
  using step
proof cases
  case (round s sel s')
  have "advances k (rst m) ([] @ []) s'"
    by (rule advances_trans [OF is_done_advances [OF round(5)] record_select_advances [OF round(6)]])
  from paths_safe_advances [OF this inv] round(2) show ?thesis by (auto simp: paths_safe_def)
next
  case (read d ds s')
  obtain rs where "advances k (rst m) rs s'" using read_device_advances [OF ok(1) read(5)] by blast
  from paths_safe_advances [OF this inv] read(2) show ?thesis by (auto simp: paths_safe_def)
next
  case (begin_ok ds s)
  with inv record_begin_effect [OF begin_ok(6)] show ?thesis by (auto simp: paths_safe_def)
next
  case (rec_done s)
  with inv is_done_effect [OF rec_done(5)] show ?thesis by (simp add: paths_safe_def)
next
  case (buf_go s)
  with inv is_done_effect [OF buf_go(5)] show ?thesis by (simp add: paths_safe_def)
next
  case (buf_dump s)
  have "m_continuous (rst m)" using control_buffer [OF ctl] buf_dump(4) by simp
  then have "s = rst m" "CHR ''/'' \<notin> set (m_filename (rst m))"
    using is_done_effect(2) [OF buf_dump(5)] inv by (simp_all add: paths_safe_def)
  with inv buf_dump(2) tmp_path_dump [OF ok(2)] show ?thesis by (auto simp: paths_safe_def dump_buffer_eq)
qed (use inv in \<open>auto simp: paths_safe_def request_stop_effect raise_stop_effect stamp_stop_effect close_devices_frame release_xkb_frame
      trim_round_effect\<close>)

interpretation paths_contract: recorder_contract k x
  "\<lambda>m. clock_ok k \<and> stamp_ok k \<longrightarrow> control_inv m \<and> paths_safe m"
  for k x
  by unfold_locales (blast intro: control_inv_step paths_safe_step)

lemma path_filename_no_slash: "CHR ''/'' \<notin> set (path_filename p)"
  by (auto simp: path_filename_def dest: set_takeWhileD)

lemma construct_paths_safe:
  assumes "construct_recorder k x filename len cont dir = Some s" "cont \<Longrightarrow> CHR ''/'' \<notin> set filename"
  shows "paths_safe (rmach_init s)"
proof -
  obtain u where u: "findDevices k (recorder_init len cont dir) = Some u"
    "s = set_filename filename (rec_setup_xkb x u)"
    using assms(1) by (auto simp: construct_recorder_def split: option.splits)
  have "files u = (\<lambda>_. None)" "m_continuous u = cont"
    using arg_cong [OF unscanned_find [OF u(1)], of files] arg_cong [OF unscanned_find [OF u(1)], of m_continuous]
    by (simp_all add: unscanned_def recorder_init_def)
  then show ?thesis
    using assms(2) path_filename_no_slash [of filename]
    by (auto simp: u(2) paths_safe_def rmach_init_def set_filename_def rec_setup_xkb_def log_error_def
        Let_def tmp_path_def)
qed

lemma construct_fresh_inv:
  assumes "construct_recorder k x filename len cont dir = Some s"
  shows "control_inv (rmach_init s) \<and> file_inv (rmach_init s)"
  using construct_recorder_fields [OF assms] by (simp add: rmach_init_def file_inv_def control_inv_def)

section \<open>The service as a machine\<close>

text \<open>A call, or a step of a thread of one of the recorders between calls.\<close>

datatype svc_label =
    Svc_snapshot "rlabel list"
  | Svc_create string u32 bool
  | Svc_set_devices u8 "InputDevice list"
  | Svc_start u8
  | Svc_stop "rlabel list" u8
  | Svc_thread nat rlabel
  | Svc_snapshot_thread rlabel

definition thread_label :: "rlabel \<Rightarrow> bool" where
  "thread_label l \<longleftrightarrow> l \<notin> {L_start, L_stop, L_stop_time, L_join, L_destroy, L_destroy_stop, L_destroy_join}"

inductive svc_step ::
  "kernel \<Rightarrow> rec_xkb \<Rightarrow> recorder_service \<Rightarrow> svc_label \<Rightarrow> recorder_service \<Rightarrow> bool"
  for k :: kernel and x :: rec_xkb
where
  svc_snapshot: "getSnapshot k x sched sv = (r, sv') \<Longrightarrow> svc_step k x sv (Svc_snapshot sched) sv'"
| svc_create: "createCustomRecorder k x name len cont sv = Some (i, sv') \<Longrightarrow>
    svc_step k x sv (Svc_create name len cont) sv'"
| svc_set_devices: "srv_setDevicesToRecord i ds sv = Inr sv' \<Longrightarrow> svc_step k x sv (Svc_set_devices i ds) sv'"
| svc_start: "startCustomRecording k x i sv = (r, sv') \<Longrightarrow> svc_step k x sv (Svc_start i) sv'"
| svc_stop: "stopCustomRecording k x sched i sv = (r, sv') \<Longrightarrow> svc_step k x sv (Svc_stop sched i) sv'"
| svc_thread: "j < length (custom_recorders sv) \<Longrightarrow> thread_label l \<Longrightarrow>
    rstep k x (custom_recorders sv ! j) l m \<Longrightarrow>
    svc_step k x sv (Svc_thread j l) (sv\<lparr>custom_recorders := (custom_recorders sv)[j := m]\<rparr>)"
| svc_snapshot_thread: "snapshot_recorder sv = Some m \<Longrightarrow> thread_label l \<Longrightarrow> rstep k x m l m' \<Longrightarrow>
    svc_step k x sv (Svc_snapshot_thread l) (sv\<lparr>snapshot_recorder := Some m'\<rparr>)"

definition svc_init :: "kernel \<Rightarrow> rec_xkb \<Rightarrow> bool \<Rightarrow> recorder_service \<Rightarrow> bool" where
  "svc_init k x snap sv \<longleftrightarrow> construct_service k x snap = Some sv"

interpretation svc_sys: transition_system "svc_init k x snap" "svc_step k x"
  for k x snap .

definition service_inv :: "(rmach \<Rightarrow> bool) \<Rightarrow> recorder_service \<Rightarrow> bool" where
  "service_inv I sv \<longleftrightarrow> length (custom_recorders sv) \<le> MAX_CUSTOM_RECORDERS \<and>
     (\<forall>m \<in> set (all_recorders sv). I m)"

lemma service_inv_update:
  "service_inv I sv \<Longrightarrow> I m \<Longrightarrow> service_inv I (sv\<lparr>custom_recorders := (custom_recorders sv)[i := m]\<rparr>)"
  using set_update_subset_insert [of "custom_recorders sv" i m]
  by (fastforce simp: service_inv_def all_recorders_def)

lemma service_inv_nth: "service_inv I sv \<Longrightarrow> i < length (custom_recorders sv) \<Longrightarrow> I (custom_recorders sv ! i)"
  by (simp add: service_inv_def all_recorders_def)

lemma service_inv_snapshot:
  "service_inv I sv \<Longrightarrow> snapshot_recorder sv = Some m \<Longrightarrow> I m"
  "service_inv I sv \<Longrightarrow> I m' \<Longrightarrow> service_inv I (sv\<lparr>snapshot_recorder := Some m'\<rparr>)"
  by (auto simp: service_inv_def all_recorders_def)

context recorder_contract
begin

text \<open>The service keeps the contract of its recorders.\<close>

lemma getSnapshot_keeps:
  assumes "service_inv I sv"
  shows "service_inv I (snd (getSnapshot k x sched sv))"
proof (cases "snapshot_recorder sv")
  case (Some m)
  obtain r m1 where m1: "call_stop k x sched m = (r, m1)" by fastforce
  obtain r' m2 where m2: "call_start k x m1 = (r', m2)" by fastforce
  have "I m1" using call_stop_keeps [OF service_inv_snapshot(1) [OF assms Some], of sched] m1 by simp
  moreover from this have "I m2" using call_start_keeps [of m1] m2 by simp
  ultimately show ?thesis
    using service_inv_snapshot(2) [OF assms] Some m1 m2
    by (simp add: getSnapshot_def split: sum.split)
qed (use assms in \<open>simp add: getSnapshot_def\<close>)

lemma service_step_keeps:
  assumes fresh: "\<And>filename len cont s. \<not> bad_filename filename \<Longrightarrow>
      construct_recorder k x filename len cont ''/dev/input'' = Some s \<Longrightarrow> I (rmach_init s)"
    and mask: "\<And>m w. I m \<Longrightarrow> I (m\<lparr>rst := (rst m)\<lparr>m_device_mask := w\<rparr>\<rparr>)"
    and step: "svc_step k x sv l sv'" and inv: "service_inv I sv"
  shows "service_inv I sv'"
  using step
proof cases
  case (svc_snapshot sched r)
  then show ?thesis using getSnapshot_keeps [OF inv, of sched] by simp
next
  case (svc_create name len cont i)
  then show ?thesis
    using inv fresh
    by (auto simp: createCustomRecorder_def Let_def service_inv_def all_recorders_def split: if_splits option.splits)
next
  case (svc_set_devices i ds)
  show ?thesis
  proof (cases "unat i < length (custom_recorders sv)")
    case True
    from service_inv_update [OF inv mask [OF service_inv_nth [OF inv True]], of "unat i"] svc_set_devices(2) True show ?thesis
      by (auto simp: srv_setDevicesToRecord_def rec_setDevicesToRecord_def Let_def)
  qed (use svc_set_devices inv in \<open>simp add: srv_setDevicesToRecord_def\<close>)
next
  case (svc_start i r)
  show ?thesis
  proof (cases "unat i < length (custom_recorders sv)")
    case True
    from service_inv_update [OF inv call_start_keeps [OF service_inv_nth [OF inv True]], of "unat i"]
      svc_start(2) True
    show ?thesis by (auto simp: startCustomRecording_def split: prod.splits)
  qed (use svc_start inv in \<open>simp add: startCustomRecording_def\<close>)
next
  case (svc_stop sched i r)
  show ?thesis
  proof (cases "unat i < length (custom_recorders sv)")
    case True
    from service_inv_update [OF inv call_stop_keeps [OF service_inv_nth [OF inv True]], of "unat i" sched]
      svc_stop(2) True
    show ?thesis by (auto simp: stopCustomRecording_def split: prod.splits)
  qed (use svc_stop inv in \<open>simp add: stopCustomRecording_def\<close>)
next
  case (svc_thread j l m)
  from service_inv_update [OF inv step_keeps [OF svc_thread(5) service_inv_nth [OF inv svc_thread(3)]]]
    svc_thread(2)
  show ?thesis by simp
next
  case (svc_snapshot_thread m l m')
  from service_inv_snapshot(2) [OF inv step_keeps [OF svc_snapshot_thread(5)
        service_inv_snapshot(1) [OF inv svc_snapshot_thread(3)]]] svc_snapshot_thread(2)
  show ?thesis by simp
qed

lemma service_init_keeps:
  assumes fresh: "\<And>filename len cont s. \<not> bad_filename filename \<Longrightarrow>
      construct_recorder k x filename len cont ''/dev/input'' = Some s \<Longrightarrow> I (rmach_init s)"
    and init: "svc_init k x snap sv"
  shows "service_inv I sv"
proof -
  have "\<not> bad_filename ''input_snapshot''" by (simp add: bad_filename_def contains_char_def has_prefix_def)
  from call_start_keeps [OF fresh [OF this]] init show ?thesis
    by (auto simp: svc_init_def construct_service_def service_inv_def all_recorders_def
        split: if_splits option.splits)
qed

lemma service_reachable_keeps:
  assumes "\<And>filename len cont s. \<not> bad_filename filename \<Longrightarrow>
      construct_recorder k x filename len cont ''/dev/input'' = Some s \<Longrightarrow> I (rmach_init s)"
    and "\<And>m w. I m \<Longrightarrow> I (m\<lparr>rst := (rst m)\<lparr>m_device_mask := w\<rparr>\<rparr>)"
    and "svc_sys.reachable k x snap sv"
  shows "service_inv I sv"
  using assms(3)
proof (rule svc_sys.reachable_invariant)
  show "svc_init k x snap sv0 \<Longrightarrow> service_inv I sv0" for sv0 by (rule service_init_keeps [OF assms(1)])
  show "svc_step k x u l v \<Longrightarrow> service_inv I u \<Longrightarrow> service_inv I v" for u l v
    by (rule service_step_keeps [OF assms(1,2)])
qed

end

lemma fresh_files_contract:
  "\<not> bad_filename filename \<Longrightarrow> construct_recorder k x filename len cont ''/dev/input'' = Some s \<Longrightarrow>
   clock_ok k \<longrightarrow> control_inv (rmach_init s) \<and> file_inv (rmach_init s)"
  using construct_fresh_inv by blast

lemma fresh_paths_contract:
  assumes "\<not> bad_filename filename" "construct_recorder k x filename len cont ''/dev/input'' = Some s"
  shows "clock_ok k \<and> stamp_ok k \<longrightarrow> control_inv (rmach_init s) \<and> paths_safe (rmach_init s)"
  using construct_fresh_inv [OF assms(2)] construct_paths_safe [OF assms(2)] assms(1)
  by (auto simp: bad_filename_def contains_char_def)

lemma mask_irrelevant:
  "control_inv (m\<lparr>rst := (rst m)\<lparr>m_device_mask := w\<rparr>\<rparr>) = control_inv m"
  "paths_safe (m\<lparr>rst := (rst m)\<lparr>m_device_mask := w\<rparr>\<rparr>) = paths_safe m"
  "file_inv (m\<lparr>rst := (rst m)\<lparr>m_device_mask := w\<rparr>\<rparr>) = file_inv m"
  by (simp_all add: control_inv_def paths_safe_def file_inv_def good_file_def)

lemma reachable_service:
  assumes "svc_sys.reachable k x snap sv"
  shows "service_inv (\<lambda>m. clock_ok k \<longrightarrow> control_inv m \<and> file_inv m) sv"
    and "service_inv (\<lambda>m. clock_ok k \<and> stamp_ok k \<longrightarrow> control_inv m \<and> paths_safe m) sv"
  by (rule files_contract.service_reachable_keeps [OF fresh_files_contract _ assms]
      paths_contract.service_reachable_keeps [OF fresh_paths_contract _ assms];
      simp add: mask_irrelevant)+

lemma call_stop_outcome:
  "call_stop k x sched m = (Inr p, m') \<Longrightarrow> outcome m' = Some (Inr p)"
  by (auto simp: call_stop_def split: option.splits if_splits)

section \<open>Device descriptions\<close>

lemma device_of_wire_of_device:
  assumes "device_ok d" "in_int32 (dev_fd d)"
  shows "device_of_wire (wire_of_device d) =
    d\<lparr>abs_range_x := zero_absinfo, abs_range_y := zero_absinfo\<rparr>"
proof -
  have "sint (word_of_int (dev_fd d) :: u32) = dev_fd d"
    using assms(2) by (simp add: in_int32_def sint_sbintrunc' signed_take_bit_int_eq_self)
  moreover have "strncpy_term (c_str (dev_name d)) 50 = dev_name d"
  proof -
    have "c_str (dev_name d) = dev_name d"
      using assms(1) by (auto simp: c_str_def device_ok_def takeWhile_eq_all_conv)
    then show ?thesis using assms(1) by (simp add: device_ok_def strncpy_term_fits)
  qed
  moreover have "unat (word_of_nat (device_type_num (dev_type d)) :: u8) = device_type_num (dev_type d)"
    by (cases "dev_type d") simp_all
  ultimately show ?thesis
    by (simp add: device_of_wire_def wire_of_device_def)
qed

section \<open>A concrete session\<close>

text \<open>A client creates a timed recorder and starts it; its thread begins.\<close>

definition begun :: rmach where
  "begun = (rmach_init (ticking_recorder False))\<lparr>
     rst := (ticking_recorder False)\<lparr>hist := Clock # hist (ticking_recorder False), m_stop := False,
       m_start_time := 2000,
       files := (files (ticking_recorder False))(m_filename (ticking_recorder False) \<mapsto> recording_header 2000)\<rparr>,
     devs := [], rpc := Rec_loop, bpc := Buf_none\<rparr>"

definition session :: recorder_service where
  "session = \<lparr>snapshot_recorder = None, custom_recorders = [begun]\<rparr>"

lemma ticking_stamp_ok: "stamp_ok ticking_kernel"
  by (simp add: stamp_ok_def ticking_kernel_def)

lemma session_reachable: "svc_sys.reachable ticking_kernel blind_xkb False session"
proof -
  let ?sv = "\<lambda>ms. \<lparr>snapshot_recorder = None, custom_recorders = ms\<rparr>"
  let ?m0 = "rmach_init (ticking_recorder False)"
  let ?m1 = "?m0\<lparr>rpc := Rec_spawned\<rparr>"
  have "svc_init ticking_kernel blind_xkb False (?sv [])"
    by (simp add: svc_init_def construct_service_def)
  moreover have "svc_step ticking_kernel blind_xkb (?sv []) (Svc_create ''snap'' 1 False) (?sv [?m0])"
    by (rule svc_create [of _ _ _ _ _ _ 0])
      (simp add: createCustomRecorder_def Let_def c_str_def bad_filename_def contains_char_def has_prefix_def
        ticking_construct)
  moreover have "svc_step ticking_kernel blind_xkb (?sv [?m0]) (Svc_start 0) (?sv [?m1])"
    by (rule svc_start [of _ _ _ _ "Inr ()"])
      (simp add: startCustomRecording_def call_start_def rmach_init_def isActive_def ticking_fields)
  moreover have "rstep ticking_kernel blind_xkb ?m1 L_begin begun"
    unfolding rstep_iff_exec
    by (simp add: threads_alive_def rmach_init_def ticking_begin [OF refl] ticking_fields begun_def)
  then have "svc_step ticking_kernel blind_xkb (?sv [?m1]) (Svc_thread 0 L_begin) session"
    using svc_thread [of 0 "?sv [?m1]" L_begin ticking_kernel blind_xkb begun]
    by (simp add: thread_label_def session_def)
  ultimately show ?thesis
    unfolding svc_sys.reachable_def by (meson svc_sys.run_cons svc_sys.run_nil)
qed

lemma session_stop:
  "\<exists>sv. stopCustomRecording ticking_kernel blind_xkb [L_stop_time, L_done] 0 session =
     (Inr (m_filename (ticking_recorder False)), sv)"
  using construct_recorder_fields(7) [OF ticking_construct [of False]]
  by (simp add: stopCustomRecording_def session_def call_stop_def begun_def rmach_init_def threads_alive_def
      is_done_stopped raise_stop_effect stamp_stop_effect after_loop_def ticking_fields)

definition one_device_service :: recorder_service where
  "one_device_service = \<lparr>snapshot_recorder = None, custom_recorders = [rmach_init
     ((recorder_init 1 False ''/dev/input'')\<lparr>available_devices :=
       [\<lparr>dev_fd = 7, dev_name = ''keys'', dev_type = KEYBOARD, abs_range_x = zero_absinfo,
         abs_range_y = zero_absinfo\<rparr>]\<rparr>)]\<rparr>"

section \<open>Properties\<close>

text \<open>Whatever sequence of calls a client makes and however the recorders' threads run in
  between, there are at most \<open>MAX_CUSTOM_RECORDERS\<close> custom recorders, and every file any of them or
  the snapshot recorder has written lies directly in \<open>/tmp\<close>: the path is \<open>/tmp/\<close> followed by a name
  without a slash.\<close>

lemma recorder_files_in_tmp:
  assumes "clock_ok k" and "stamp_ok k" and "svc_sys.reachable k x snap sv"
    and "m \<in> set (all_recorders sv)" and "files (rst m) p \<noteq> None"
  shows "length (custom_recorders sv) \<le> MAX_CUSTOM_RECORDERS \<and> tmp_path p"
proof -
  have "service_inv (\<lambda>m. clock_ok k \<and> stamp_ok k \<longrightarrow> control_inv m \<and> paths_safe m) sv"
    using assms(3) by (rule reachable_service)
  with assms show ?thesis by (auto simp: service_inv_def paths_safe_def)
qed

text \<open>The path a client gets from \<open>stopCustomRecording\<close> for a valid index names a complete
  recording: reading the file gives a start time and a list of events.\<close>

lemma stop_custom_recording_file:
  assumes "clock_ok k" and "svc_sys.reachable k x snap sv" and "unat i < length (custom_recorders sv)"
    and "stopCustomRecording k x sched i sv = (Inr p, sv')"
  shows "\<exists>t start recs. files (rst (custom_recorders sv' ! unat i)) p = Some t \<and>
    parse_recording t = Some (start, recs)"
proof -
  let ?m = "custom_recorders sv ! unat i"
  obtain m' where m': "call_stop k x sched ?m = (Inr p, m')" "custom_recorders sv' ! unat i = m'"
    using assms(3,4) by (auto simp: stopCustomRecording_def split: prod.splits)
  have "clock_ok k \<longrightarrow> control_inv ?m \<and> file_inv ?m"
    using service_inv_nth [OF reachable_service(1) [OF assms(2)] assms(3)] .
  then have "file_inv m'"
    using files_contract.call_stop_keeps [of k ?m x sched] assms(1) m'(1) by simp
  moreover have "outcome m' = Some (Inr p)" by (rule call_stop_outcome [OF m'(1)])
  ultimately have "good_file (rst m') p" by (simp add: file_inv_def)
  with m'(2) show ?thesis using parse_recording_file by (auto simp: good_file_def)
qed

text \<open>With at most 64 devices, \<open>setDevicesToRecord\<close> with the whole list of \<open>listDevices\<close>
  makes the recorder monitor all of its devices.\<close>

lemma set_listed_devices:
  assumes "unat i < length (custom_recorders sv)" and "ds = available_devices (rst (custom_recorders sv ! unat i))"
    and "length ds \<le> 64" and "list_all (\<lambda>d. device_ok d \<and> in_int32 (dev_fd d)) ds"
  shows "\<exists>sv'. srv_setDevicesToRecord i (srv_listDevices i sv) sv = Inr sv' \<and>
    select_devices (m_device_mask (rst (custom_recorders sv' ! unat i))) 0
      (available_devices (rst (custom_recorders sv' ! unat i))) = Inr ds"
proof -
  let ?s = "rst (custom_recorders sv ! unat i)"
  let ?ds' = "map device_of_wire (srv_listDevices i sv)"
  obtain m where m: "rec_setDevicesToRecord ?ds' ?s = Inr (?s\<lparr>m_device_mask := m\<rparr>)"
    "select_devices m 0 (available_devices ?s) =
       Inr (filter (\<lambda>d. dev_fd d \<in> dev_fd ` set ?ds') (available_devices ?s))"
    using set_devices_filter [of ?s ?ds'] assms(2,3) by auto
  have "map dev_fd ?ds' = map dev_fd ds"
    using assms by (simp add: srv_listDevices_def listDevices_def list_all_iff device_of_wire_of_device)
  then have "dev_fd ` set ?ds' = dev_fd ` set ds" by (metis list.set_map)
  then have "select_devices m 0 ds = Inr ds"
    using m(2) assms(2) by (simp add: filter_id_conv cong: filter_cong)
  with m(1) assms(1,2) show ?thesis by (simp add: srv_setDevicesToRecord_def Let_def)
qed

text \<open>An index that names no recorder is harmless: every call with it leaves the service
  unchanged and answers with an empty list, an empty path, or not active.\<close>

lemma invalid_index_harmless:
  assumes "length (custom_recorders sv) \<le> unat i"
  shows "srv_listDevices i sv = [] \<and> srv_setDevicesToRecord i ds sv = Inr sv \<and>
    startCustomRecording k x i sv = (Inr (), sv) \<and> stopCustomRecording k x sched i sv = (Inr [], sv) \<and>
    \<not> checkRecorderActive i sv"
  using assms by (simp add: srv_listDevices_def srv_setDevicesToRecord_def startCustomRecording_def
      stopCustomRecording_def checkRecorderActive_def)

text \<open>\<open>createCustomRecorder\<close> answers 255 exactly when it refuses: a name with a slash or
  two dots, or a full table, gives 255 and changes nothing; otherwise the answer is the index of
  the new recorder, which is inactive and appended to the table.\<close>

lemma create_custom_recorder_index:
  assumes "createCustomRecorder k x name len cont sv = Some (i, sv')"
    and "length (custom_recorders sv) \<le> MAX_CUSTOM_RECORDERS"
  shows "if bad_filename (c_str name) \<or> length (custom_recorders sv) = MAX_CUSTOM_RECORDERS
    then i = 255 \<and> sv' = sv
    else unat i = length (custom_recorders sv) \<and> i \<noteq> 255 \<and>
      (\<exists>s. custom_recorders sv' = custom_recorders sv @ [rmach_init s] \<and> \<not> checkRecorderActive i sv')"
proof (cases "bad_filename (c_str name) \<or> length (custom_recorders sv) = MAX_CUSTOM_RECORDERS")
  case True
  with assms show ?thesis by (auto simp: createCustomRecorder_def Let_def split: if_splits)
next
  case False
  with assms obtain s where s: "construct_recorder k x (c_str name) len cont ''/dev/input'' = Some s"
    "i = word_of_nat (length (custom_recorders sv))" "custom_recorders sv' = custom_recorders sv @ [rmach_init s]"
    by (auto simp: createCustomRecorder_def Let_def split: if_splits option.splits)
  have "unat i = length (custom_recorders sv)"
    using assms(2) by (simp add: s(2) unat_of_nat)
  moreover from this assms(2) have "i \<noteq> 255" by auto
  ultimately show ?thesis
    using False s(3) construct_recorder_fields(3) [OF s(1)]
    by (auto simp: checkRecorderActive_def isActive_def rmach_init_def)
qed

end
