(* ===== verification/Libinput_Profiles.thy ===== *)
theory Libinput_Profiles
  imports Recorder_Service
begin

text \<open>
  The build with \<open>ENABLE_LIBINPUT\<close>: the block of \<open>findDevices\<close> in
  \<open>recorder/TestRunnerRecorder.cpp\<close> that sets the acceleration profile of every pointer to flat, and
  the one of the destructor that restores the profiles. The rest of the recorder is the same in
  both builds, so its state is paired with the members the build adds. libinput is a parameter.
\<close>

section \<open>libinput\<close>

datatype accel_profile = ACCEL_PROFILE_NONE | ACCEL_PROFILE_FLAT | ACCEL_PROFILE_ADAPTIVE | ACCEL_PROFILE_CUSTOM

datatype li_event = DEVICE_ADDED nat | Other_event

text \<open>What the \<open>n\<close>-th call of \<open>libinput_get_event\<close> returns, the properties of a device, and whether a
  profile can be set on it.\<close>

record libinput =
  li_context :: bool
  li_get_event :: "nat \<Rightarrow> li_event option"
  li_has_pointer :: "nat \<Rightarrow> bool"
  li_accel_available :: "nat \<Rightarrow> bool"
  li_accepts :: "nat \<Rightarrow> accel_profile \<Rightarrow> bool"

text \<open>The members of the build, the profiles as the library has them, and the number of events that were
  fetched and not destroyed. The member \<open>li\<close> has no initialiser: \<open>li_set\<close> tells whether it has been assigned.\<close>

record accel_state =
  device_backups :: "(nat \<times> accel_profile) list"
  li_set :: bool
  accel :: "nat \<Rightarrow> accel_profile"
  live_events :: nat

definition accel_init :: "(nat \<Rightarrow> accel_profile) \<Rightarrow> accel_state" where
  "accel_init profiles = \<lparr>device_backups = [], li_set = False, accel = profiles, live_events = 0\<rparr>"

definition accel_set_profile :: "libinput \<Rightarrow> nat \<Rightarrow> accel_profile \<Rightarrow> accel_state \<Rightarrow> accel_state" where
  "accel_set_profile L dev profile a =
     (if li_accepts L dev profile then a\<lparr>accel := (accel a)(dev := profile)\<rparr> else a)"

section \<open>Setting the profiles\<close>

definition managed :: "libinput \<Rightarrow> nat \<Rightarrow> bool" where
  "managed L dev \<longleftrightarrow> li_has_pointer L dev \<and> li_accel_available L dev"

definition process_li_event :: "libinput \<Rightarrow> li_event \<Rightarrow> accel_state \<Rightarrow> accel_state" where
  "process_li_event L ev a =
     (let a1 = a\<lparr>live_events := Suc (live_events a)\<rparr> in
      case ev of
        DEVICE_ADDED dev \<Rightarrow>
          let a2 = (if managed L dev
                    then accel_set_profile L dev ACCEL_PROFILE_FLAT
                           (a1\<lparr>device_backups := device_backups a1 @ [(dev, accel a1 dev)]\<rparr>)
                    else a1)
          in a2\<lparr>live_events := live_events a2 - 1\<rparr>
      | Other_event \<Rightarrow> a1)"

partial_function (option) li_event_loop :: "libinput \<Rightarrow> nat \<Rightarrow> accel_state \<Rightarrow> accel_state option" where
  "li_event_loop L n a =
     (case li_get_event L n of
        None \<Rightarrow> Some a
      | Some ev \<Rightarrow> li_event_loop L (Suc n) (process_li_event L ev a))"

text \<open>A null context is dereferenced by the next call.\<close>

definition set_flat_profiles :: "libinput \<Rightarrow> accel_state \<Rightarrow> accel_state result option" where
  "set_flat_profiles L a =
     (if li_context L then map_option Inr (li_event_loop L 0 (a\<lparr>li_set := True\<rparr>))
      else Some (Inl Null_dereference))"

definition findDevices_li ::
  "kernel \<Rightarrow> libinput \<Rightarrow> recorder \<times> accel_state \<Rightarrow> (recorder \<times> accel_state) result option" where
  "findDevices_li k L sa =
     (case sa of (s, a) \<Rightarrow>
        (case sys_call k (Opendir (input_dir s)) s of (dir, s1) \<Rightarrow>
           if dir \<noteq> 0
           then (case entry_loop k s1 of
                   None \<Rightarrow> None
                 | Some s2 \<Rightarrow>
                     (case set_flat_profiles L a of
                        None \<Rightarrow> None
                      | Some (Inl e) \<Rightarrow> Some (Inl e)
                      | Some (Inr a') \<Rightarrow> Some (Inr (snd (sys_call k Closedir s2), a'))))
           else Some (Inr (log_error ''Error opening directory '' s1, a))))"

definition construct_recorder_li ::
  "kernel \<Rightarrow> rec_xkb \<Rightarrow> libinput \<Rightarrow> (nat \<Rightarrow> accel_profile) \<Rightarrow> string \<Rightarrow> u32 \<Rightarrow> bool \<Rightarrow> string \<Rightarrow>
     (recorder \<times> accel_state) result option" where
  "construct_recorder_li k x L profiles filename len cont dir =
     (case findDevices_li k L (recorder_init len cont dir, accel_init profiles) of
        None \<Rightarrow> None
      | Some (Inl e) \<Rightarrow> Some (Inl e)
      | Some (Inr (s, a)) \<Rightarrow> Some (Inr (set_filename filename (rec_setup_xkb x s), a)))"

section \<open>Restoring the profiles\<close>

definition restore_profiles :: "libinput \<Rightarrow> accel_state \<Rightarrow> accel_state result" where
  "restore_profiles L a =
     (let a1 = fold (\<lambda>(dev, profile). accel_set_profile L dev profile) (device_backups a) a
      in if li_set a1 then Inr a1 else Inl Uninitialised_read)"

text \<open>The destructor: the profiles are restored before the thread is stopped and joined.\<close>

definition call_destroy_li ::
  "kernel \<Rightarrow> rec_xkb \<Rightarrow> libinput \<Rightarrow> rlabel list \<Rightarrow> rlabel list \<Rightarrow> rmach \<times> accel_state \<Rightarrow> unit result \<times> rmach \<times> accel_state" where
  "call_destroy_li k x L before during ma =
     (case ma of (m, a) \<Rightarrow>
        (case restore_profiles L a of
           Inl e \<Rightarrow> (Inl e, m, a)
         | Inr a' \<Rightarrow> (case call_destroy k x before during m of (r, m') \<Rightarrow> (r, m', a'))))"

section \<open>The loop over the events\<close>

definition delivers :: "libinput \<Rightarrow> nat \<Rightarrow> li_event list \<Rightarrow> bool" where
  "delivers L n evs \<longleftrightarrow> (\<forall>i < length evs. li_get_event L (n + i) = Some (evs ! i)) \<and> li_get_event L (n + length evs) = None"

lemma delivers_Nil [simp]: "delivers L n [] \<longleftrightarrow> li_get_event L n = None"
  by (simp add: delivers_def)

lemma delivers_Cons [simp]: "delivers L n (ev # evs) \<longleftrightarrow> li_get_event L n = Some ev \<and> delivers L (Suc n) evs"
  by (simp add: delivers_def All_less_Suc2 conj_assoc)

lemma li_event_loop_fold:
  assumes "li_event_loop L n a = Some a'"
  shows "\<exists>evs. delivers L n evs \<and> a' = fold (process_li_event L) evs a"
proof (rule li_event_loop.raw_induct [OF _ assms])
  fix loop :: "libinput \<Rightarrow> nat \<Rightarrow> accel_state \<Rightarrow> accel_state option" and L n a a'
  assume IH: "\<And>L n a a'. loop L n a = Some a' \<Longrightarrow> \<exists>evs. delivers L n evs \<and> a' = fold (process_li_event L) evs a"
    and body: "(case li_get_event L n of None \<Rightarrow> Some a
      | Some ev \<Rightarrow> loop L (Suc n) (process_li_event L ev a)) = Some a'"
  show "\<exists>evs. delivers L n evs \<and> a' = fold (process_li_event L) evs a"
  proof (cases "li_get_event L n")
    case None
    with body show ?thesis by (intro exI [of _ "[]"]) simp
  next
    case (Some ev)
    with body IH [of L "Suc n" "process_li_event L ev a" a'] obtain evs where
      "delivers L (Suc n) evs" "a' = fold (process_li_event L) evs (process_li_event L ev a)" by auto
    with Some show ?thesis by (intro exI [of _ "ev # evs"]) simp
  qed
qed

lemma li_event_loop_returns:
  assumes "li_get_event L (n + m) = None"
  shows "\<exists>a'. li_event_loop L n a = Some a'"
  using assms
proof (induction m arbitrary: n a)
  case 0
  then show ?case by (subst li_event_loop.simps) simp
next
  case (Suc m)
  then have "\<exists>a'. li_event_loop L (Suc n) b = Some a'" for b by simp
  then show ?case by (subst li_event_loop.simps) (auto split: option.split)
qed

text \<open>The managed devices among a list of events, and the state after processing it when each device is
  added once.\<close>

definition added :: "li_event list \<Rightarrow> nat list" where
  "added evs = List.map_filter (\<lambda>ev. case ev of DEVICE_ADDED d \<Rightarrow> Some d | Other_event \<Rightarrow> None) evs"

lemma added_simps [simp]:
  "added [] = []" "added (DEVICE_ADDED d # evs) = d # added evs" "added (Other_event # evs) = added evs"
  by (simp_all add: added_def map_filter_simps)

definition flattened :: "libinput \<Rightarrow> nat list \<Rightarrow> (nat \<Rightarrow> accel_profile) \<Rightarrow> nat \<Rightarrow> accel_profile" where
  "flattened L ds profiles d = (if d \<in> set ds \<and> managed L d \<and> li_accepts L d ACCEL_PROFILE_FLAT then ACCEL_PROFILE_FLAT else profiles d)"

lemma process_li_events:
  assumes "distinct (added evs)"
  shows "fold (process_li_event L) evs a = a\<lparr>
    device_backups := device_backups a @ map (\<lambda>d. (d, accel a d)) (filter (managed L) (added evs)),
    accel := flattened L (added evs) (accel a),
    live_events := live_events a + length (filter (\<lambda>ev. ev = Other_event) evs)\<rparr>"
  using assms
proof (induction evs arbitrary: a)
  case Nil
  have "flattened L [] (accel a) = accel a" by (simp add: flattened_def fun_eq_iff)
  then show ?case by simp
next
  case (Cons ev evs)
  show ?case
  proof (cases ev)
    case (DEVICE_ADDED d)
    let ?b = "a\<lparr>device_backups := device_backups a @ (if managed L d then [(d, accel a d)] else []),
      accel := flattened L [d] (accel a)\<rparr>"
    have d: "d \<notin> set (added evs)" "distinct (added evs)" using Cons.prems DEVICE_ADDED by simp_all
    have single: "flattened L [d] (accel a) =
        (if managed L d \<and> li_accepts L d ACCEL_PROFILE_FLAT then (accel a)(d := ACCEL_PROFILE_FLAT) else accel a)"
      by (auto simp: flattened_def fun_eq_iff)
    have b: "process_li_event L ev a = ?b"
      using single by (simp add: DEVICE_ADDED process_li_event_def accel_set_profile_def Let_def)
    have "flattened L (added evs) (flattened L [d] (accel a)) = flattened L (added (ev # evs)) (accel a)"
      by (auto simp: flattened_def DEVICE_ADDED fun_eq_iff)
    moreover have "map (\<lambda>e. (e, flattened L [d] (accel a) e)) (filter (managed L) (added evs)) =
        map (\<lambda>e. (e, accel a e)) (filter (managed L) (added evs))"
      using d(1) by (auto simp: flattened_def)
    ultimately show ?thesis
      using Cons.IH [OF d(2), of ?b] b by (simp add: DEVICE_ADDED)
  qed (use Cons in \<open>simp add: process_li_event_def\<close>)
qed

lemma accel_set_profile_fields [simp]:
  "li_set (accel_set_profile L d p a) = li_set a"
  "accel (accel_set_profile L d p a) = (if li_accepts L d p then (accel a)(d := p) else accel a)"
  by (simp_all add: accel_set_profile_def)

lemma restore_flattened:
  assumes "list_all (\<lambda>d. li_accepts L d (profiles d)) ds"
  shows "accel (fold (\<lambda>(dev, profile). accel_set_profile L dev profile) (map (\<lambda>d. (d, profiles d)) ds) a) =
    (\<lambda>d. if d \<in> set ds then profiles d else accel a d)"
  using assms
proof (induction ds arbitrary: a)
  case (Cons d ds)
  then show ?case by (simp add: fun_eq_iff)
qed simp

lemma restore_li_set:
  "li_set (fold (\<lambda>(dev, profile). accel_set_profile L dev profile) bs a) = li_set a"
proof (induction bs arbitrary: a)
  case (Cons b bs)
  then show ?case by (simp add: case_prod_beta)
qed simp

text \<open>The search for devices is the one of the other build.\<close>

lemma construct_recorder_li_plain:
  assumes "construct_recorder_li k x L profiles filename len cont dir = Some (Inr (s, a))"
  shows "construct_recorder k x filename len cont dir = Some s"
    and "if k_ret k [Opendir dir] = 0 then a = accel_init profiles
      else \<exists>evs. delivers L 0 evs \<and> a = fold (process_li_event L) evs ((accel_init profiles)\<lparr>li_set := True\<rparr>)"
proof -
  have init: "input_dir (recorder_init len cont dir) = dir" "hist (recorder_init len cont dir) = []"
    by (simp_all add: recorder_init_def)
  obtain u where u: "findDevices_li k L (recorder_init len cont dir, accel_init profiles) = Some (Inr (u, a))"
    "s = set_filename filename (rec_setup_xkb x u)"
    using assms by (auto simp: construct_recorder_li_def split: option.splits sum.splits prod.splits)
  then have "findDevices k (recorder_init len cont dir) = Some u"
    by (auto simp: findDevices_li_def findDevices_def sys_call_def init split: if_splits option.splits sum.splits)
  then show "construct_recorder k x filename len cont dir = Some s" by (simp add: construct_recorder_def u(2))
  show "if k_ret k [Opendir dir] = 0 then a = accel_init profiles
      else \<exists>evs. delivers L 0 evs \<and> a = fold (process_li_event L) evs ((accel_init profiles)\<lparr>li_set := True\<rparr>)"
    using u(1) li_event_loop_fold
    by (auto simp: findDevices_li_def sys_call_def init set_flat_profiles_def split: if_splits option.splits sum.splits)
qed

section \<open>Properties\<close>

text \<open>C35: The build with libinput records like the other build, and its acceleration profiles are restored:
  when the library announces each device once and accepts the profiles the devices had, the constructor
  builds the same recorder, sets every announced pointer whose acceleration can be configured to flat (where
  the library accepts it) and leaves all others alone, and the destructor gives every device the profile it
  had before. When the directory of devices cannot be opened, the context is never assigned and the
  destructor reads an uninitialised pointer.\<close>

theorem accel_profiles_restored:
  assumes "construct_recorder_li k x L profiles filename len cont dir = Some (Inr (s, a))"
    and "\<forall>evs. delivers L 0 evs \<longrightarrow> distinct (added evs)" and "\<forall>d. li_accepts L d (profiles d)"
  shows "construct_recorder k x filename len cont dir = Some s \<and>
    (if k_ret k [Opendir dir] = 0 then call_destroy_li k x L before during (m, a) = (Inl Uninitialised_read, m, a)
     else \<exists>evs. delivers L 0 evs \<and> accel a = flattened L (added evs) profiles \<and>
       (\<exists>r m' a'. call_destroy_li k x L before during (m, a) = (r, m', a') \<and> call_destroy k x before during m = (r, m') \<and>
          accel a' = profiles))"
proof (cases "k_ret k [Opendir dir] = 0")
  case True
  with construct_recorder_li_plain [OF assms(1)] show ?thesis
    by (simp add: call_destroy_li_def restore_profiles_def accel_init_def)
next
  case False
  with construct_recorder_li_plain(2) [OF assms(1)] obtain evs where evs: "delivers L 0 evs"
    "a = fold (process_li_event L) evs ((accel_init profiles)\<lparr>li_set := True\<rparr>)" by auto
  let ?ds = "filter (managed L) (added evs)"
  have a: "device_backups a = map (\<lambda>d. (d, profiles d)) ?ds" "li_set a" "accel a = flattened L (added evs) profiles"
    using process_li_events [of evs L] assms(2) evs by (simp_all add: accel_init_def)
  have "list_all (\<lambda>d. li_accepts L d (profiles d)) ?ds" using assms(3) by (simp add: list_all_iff)
  from restore_flattened [OF this, of a] a(1,3)
  have "accel (fold (\<lambda>(dev, profile). accel_set_profile L dev profile) (device_backups a) a) = profiles"
    by (auto simp: flattened_def fun_eq_iff)
  then obtain a' where "restore_profiles L a = Inr a'" "accel a' = profiles"
    using a(2) by (simp add: restore_profiles_def restore_li_set)
  with False construct_recorder_li_plain(1) [OF assms(1)] evs(1) a(3) show ?thesis
    by (auto simp: call_destroy_li_def split: prod.split)
qed

text \<open>A seat with a keyboard, a mouse and a notice that is no new device.\<close>

definition desk_libinput :: libinput where
  "desk_libinput = \<lparr>li_context = True,
     li_get_event = (\<lambda>n. if n < 3 then Some ([DEVICE_ADDED 1, DEVICE_ADDED 2, Other_event] ! n) else None),
     li_has_pointer = (\<lambda>d. d = 2), li_accel_available = (\<lambda>_. True), li_accepts = (\<lambda>_ _. True)\<rparr>"

lemma desk_libinput_simps [simp]: "li_context desk_libinput" "li_accepts desk_libinput d p"
  by (simp_all add: desk_libinput_def)

lemma desk_delivers: "delivers desk_libinput 0 evs \<longleftrightarrow> evs = [DEVICE_ADDED 1, DEVICE_ADDED 2, Other_event]"
proof
  assume d: "delivers desk_libinput 0 evs"
  then have "length evs = 3"
    by (cases "length evs" "3 :: nat" rule: linorder_cases) (auto simp: delivers_def desk_libinput_def)
  with d show "evs = [DEVICE_ADDED 1, DEVICE_ADDED 2, Other_event]"
    by (intro nth_equalityI) (auto simp: delivers_def desk_libinput_def)
qed (simp add: desk_libinput_def)

lemma desk_construct_li:
  "\<exists>s a. construct_recorder_li desk_kernel blind_xkb desk_libinput (\<lambda>_. ACCEL_PROFILE_ADAPTIVE) ''x'' 1 False ''/dev/input'' = Some (Inr (s, a))"
proof -
  have "\<exists>u. entry_loop desk_kernel t = Some u" for t :: recorder by (rule entry_loop_returns [OF desk_readdir_ends])
  moreover have "\<exists>b. li_event_loop desk_libinput 0 c = Some b" for c
    by (rule li_event_loop_returns [of _ _ 3]) (simp add: desk_libinput_def)
  ultimately show ?thesis
    by (simp add: construct_recorder_li_def findDevices_li_def sys_call_def set_flat_profiles_def
        split: option.split)
      (auto simp: desk_kernel_def)
qed

theorem accel_profiles_restored_witness:
  "\<exists>s a. construct_recorder_li desk_kernel blind_xkb desk_libinput (\<lambda>_. ACCEL_PROFILE_ADAPTIVE) ''x'' 1 False ''/dev/input'' = Some (Inr (s, a)) \<and>
     accel a 1 = ACCEL_PROFILE_ADAPTIVE \<and> accel a 2 = ACCEL_PROFILE_FLAT \<and>
     (\<exists>r m' a'. call_destroy_li desk_kernel blind_xkb desk_libinput [] [] (rmach_init s, a) = (r, m', a') \<and>
        accel a' = (\<lambda>_. ACCEL_PROFILE_ADAPTIVE))"
proof -
  obtain s a where s: "construct_recorder_li desk_kernel blind_xkb desk_libinput (\<lambda>_. ACCEL_PROFILE_ADAPTIVE) ''x'' 1 False ''/dev/input'' =
      Some (Inr (s, a))" using desk_construct_li by blast
  have "k_ret desk_kernel [Opendir ''/dev/input''] \<noteq> 0" by (simp add: desk_kernel_def)
  moreover have "accel a 1 = ACCEL_PROFILE_ADAPTIVE" "accel a 2 = ACCEL_PROFILE_FLAT"
    if "accel a = flattened desk_libinput [1, 2] (\<lambda>_. ACCEL_PROFILE_ADAPTIVE)"
    using that by (simp_all add: flattened_def managed_def desk_libinput_def)
  ultimately show ?thesis
    using accel_profiles_restored [OF s, of "[]" "[]" "rmach_init s"] s
    by (fastforce simp: desk_delivers)
qed

end
