(* ===== verification/Service_Properties.thy ===== *)
theory Service_Properties
  imports Recorder_Service
begin

text \<open>
  The recorder service over its whole life: the snapshot recorder, which \<open>getSnapshot\<close> of
  \<open>server/TestRunnerServer.cpp\<close> stops and starts again, and the destructor of the server, which
  destroys all recorders before it closes the virtual devices.
\<close>

section \<open>The snapshot recorder\<close>

lemma rstep_continuous:
  assumes "clock_ok k" "rstep k x m l m'"
  shows "m_continuous (rst m') = m_continuous (rst m)"
  using assms(2)
proof cases
  case (round s sel s')
  with record_select_config [OF round(6)] is_done_effect(9) [OF round(5)] show ?thesis
    by (simp add: same_config_def)
next
  case (read d ds s')
  with read_device_config [OF assms(1) read(5)] show ?thesis by (simp add: same_config_def)
qed (auto simp: op_effects)

interpretation continuous_contract: recorder_contract k x "\<lambda>m. clock_ok k \<longrightarrow> m_continuous (rst m)"
  for k x
  by unfold_locales (use rstep_continuous in blast)

definition snapshot_continuous :: "recorder_service \<Rightarrow> bool" where
  "snapshot_continuous sv \<longleftrightarrow> (\<forall>m. snapshot_recorder sv = Some m \<longrightarrow> m_continuous (rst m))"

lemma getSnapshot_cases:
  assumes "getSnapshot k x sched sv = (r, sv')" "snapshot_recorder sv' = Some m'"
  obtains m where "snapshot_recorder sv = Some m"
    "m' = snd (call_stop k x sched m) \<or> m' = snd (call_start k x (snd (call_stop k x sched m)))"
  using assms by (fastforce simp: getSnapshot_def split: option.splits prod.splits sum.splits)

lemma snapshot_continuous_step:
  assumes ok: "clock_ok k" and step: "svc_step k x sv l sv'" and inv: "snapshot_continuous sv"
  shows "snapshot_continuous sv'"
  using step
proof cases
  case (svc_snapshot sched r)
  then show ?thesis
    using inv continuous_contract.call_stop_keeps [of k _ x sched] continuous_contract.call_start_keeps [of k _ x] ok
    by (auto simp: snapshot_continuous_def elim!: getSnapshot_cases)
next
  case (svc_create name len cont i)
  with inv show ?thesis
    by (auto simp: createCustomRecorder_def snapshot_continuous_def Let_def split: if_splits option.splits)
next
  case (svc_set_devices i ds)
  with inv show ?thesis by (auto simp: srv_setDevicesToRecord_def snapshot_continuous_def Let_def split: if_splits)
next
  case (svc_start i r)
  with inv show ?thesis by (auto simp: startCustomRecording_def snapshot_continuous_def split: if_splits prod.splits)
next
  case (svc_stop sched i r)
  with inv show ?thesis by (auto simp: stopCustomRecording_def snapshot_continuous_def split: if_splits prod.splits)
next
  case (svc_snapshot_thread m l m')
  with inv rstep_continuous [OF ok svc_snapshot_thread(5)] show ?thesis by (simp add: snapshot_continuous_def)
qed (use inv in \<open>simp add: snapshot_continuous_def\<close>)

lemma reachable_snapshot_continuous:
  assumes "clock_ok k" "svc_sys.reachable k x snap sv"
  shows "snapshot_continuous sv"
  using assms(2)
proof (rule svc_sys.reachable_invariant)
  fix sv0
  assume "svc_init k x snap sv0"
  then show "snapshot_continuous sv0"
    using continuous_contract.call_start_keeps [of k _ x] assms(1) construct_recorder_fields(1)
    by (fastforce simp: svc_init_def construct_service_def snapshot_continuous_def rmach_init_def
        split: if_splits option.splits)
qed (rule snapshot_continuous_step [OF assms(1)])

text \<open>A stopped continuous recorder can be started again.\<close>

lemma call_stop_restart:
  assumes ok: "clock_ok k" and "control_inv m" "m_continuous (rst m)" "call_stop k x sched m = (Inr p, m1)"
  shows "call_start k x m1 = (Inr (), m1\<lparr>rpc := Rec_spawned\<rparr>)"
proof -
  obtain m0 m2 where run: "rec_exec k x L_stop m = Some m0" "exec_all k x sched m0 = Some m2"
    and join: "rec_exec k x L_join m2 = Some m1"
    using assms(4) by (auto simp: call_stop_def simp del: rec_exec.simps split: option.splits if_splits)
  have run': "rec_sys.run k x m (L_stop # sched) m2"
    using run by (auto simp: exec_all_run [symmetric] simp del: rec_exec.simps)
  have "control_inv m2 \<and> m_continuous (rst m2)"
    by (rule rec_sys.run_invariant [OF run', where I = "\<lambda>m. control_inv m \<and> m_continuous (rst m)"])
      (use assms control_inv_step rstep_continuous in auto)
  moreover have "rpc m2 = Rec_exited" "mpc m1 = Main_idle" "rpc m1 = Rec_none" "rst m1 = rst m2"
    using join by (auto split: if_splits)
  ultimately show ?thesis by (simp add: call_start_def isActive_def control_inv_def)
qed

section \<open>The destructor\<close>

interpretation shutdown_contract: recorder_contract k x
  "\<lambda>m. clock_ok k \<longrightarrow> control_inv m \<and> shutdown_inv (available_devices (rst m)) m"
  for k x
proof unfold_locales
  fix m l m'
  assume step: "rstep k x m l m'"
    and inv: "clock_ok k \<longrightarrow> control_inv m \<and> shutdown_inv (available_devices (rst m)) m"
  show "clock_ok k \<longrightarrow> control_inv m' \<and> shutdown_inv (available_devices (rst m')) m'"
  proof
    assume ok: "clock_ok k"
    with inv have "control_inv m'" "shutdown_inv (available_devices (rst m)) m'"
      using control_inv_step [OF ok step] shutdown_inv_step [OF ok step] by blast+
    then show "control_inv m' \<and> shutdown_inv (available_devices (rst m')) m'"
      by (simp add: shutdown_inv_def)
  qed
qed

lemma reachable_shutdown:
  assumes "svc_sys.reachable k x snap sv"
  shows "service_inv (\<lambda>m. clock_ok k \<longrightarrow> control_inv m \<and> shutdown_inv (available_devices (rst m)) m) sv"
proof (rule shutdown_contract.service_reachable_keeps [OF _ _ assms])
  fix filename len cont s
  assume "construct_recorder k x filename len cont ''/dev/input'' = Some s"
  then show "clock_ok k \<longrightarrow> control_inv (rmach_init s) \<and>
      shutdown_inv (available_devices (rst (rmach_init s))) (rmach_init s)"
    using construct_fresh_inv shutdown_inv_init by (simp add: rmach_init_def)
qed (simp add: mask_irrelevant shutdown_inv_def)

text \<open>A recorder that has been started can be destroyed.\<close>

lemma call_destroy_started:
  assumes "mpc m = Main_idle" "rpc m = Rec_spawned" "m_continuous (rst m)" "length (available_devices (rst m)) \<le> 64"
  shows "\<exists>m'. call_destroy k x [L_begin] [L_destroy_stop, L_stop_time, L_done, L_buf_dump, L_join_buf] m = (Inr (), m')"
proof -
  obtain ds s where b: "record_begin k (rst m) = Inr (ds, s)" using record_begin_total [OF assms(4)] by blast
  with assms record_begin_effect(2) [OF b] show ?thesis
    by (simp add: call_destroy_def is_done_stopped raise_stop_effect stamp_stop_effect release_xkb_frame dump_buffer_eq
        after_loop_def)
qed

section \<open>A service with its snapshot recorder\<close>

lemma counting_clock_ok: "clock_ok counting_kernel"
  by (simp add: clock_ok_def)

lemma counting_recorder:
  obtains s where "construct_recorder counting_kernel blind_xkb ''input_snapshot'' 30 True ''/dev/input'' = Some s"
    "available_devices s = []" "m_stop s" "m_continuous s"
proof -
  have "\<exists>s. construct_recorder counting_kernel blind_xkb ''input_snapshot'' 30 True ''/dev/input'' = Some s \<and>
      available_devices s = []"
    by (simp add: construct_recorder_def findDevices_def entry_loop.simps sys_call_def counting_kernel_def
        rec_setup_xkb_def blind_xkb_def log_error_def set_filename_def recorder_init_def)
  with that construct_recorder_fields(1,3) show thesis by blast
qed

lemma counting_snapshot_started:
  "\<exists>m. construct_service counting_kernel blind_xkb True = Some \<lparr>snapshot_recorder = Some m, custom_recorders = []\<rparr> \<and>
     mpc m = Main_idle \<and> rpc m = Rec_spawned \<and> m_continuous (rst m) \<and> available_devices (rst m) = []"
proof -
  obtain s where s: "construct_recorder counting_kernel blind_xkb ''input_snapshot'' 30 True ''/dev/input'' = Some s"
    "available_devices s = []" "m_stop s" "m_continuous s" by (rule counting_recorder)
  then show ?thesis
    by (simp add: construct_service_def call_start_def rmach_init_def isActive_def)
qed

lemma snapshot_begins:
  assumes "mpc m = Main_idle" "rpc m = Rec_spawned" "m_continuous (rst m)" "length (available_devices (rst m)) \<le> 64"
  obtains m' where "rec_exec k x L_begin m = Some m'" "mpc m' = Main_idle" "rpc m' = Rec_loop" "bpc m' = Buf_check"
    "m_continuous (rst m')"
proof -
  obtain ds s where b: "record_begin k (rst m) = Inr (ds, s)" using record_begin_total [OF assms(4)] by blast
  let ?m = "m\<lparr>rst := s, devs := ds, rpc := Rec_loop, bpc := (if m_continuous s then Buf_check else Buf_none)\<rparr>"
  have "rstep k x m L_begin ?m" by (rule rstep.begin_ok [OF _ _ assms(2) b]) (simp_all add: assms(1))
  then show thesis
    using assms record_begin_effect(2) [OF b] by (intro that [of ?m]) (simp_all add: rstep_iff_exec del: rec_exec.simps)
qed

lemma getSnapshot_begun:
  assumes "mpc m = Main_idle" "rpc m = Rec_loop" "bpc m = Buf_check" "m_continuous (rst m)"
  shows "\<exists>p sv'. getSnapshot k x [L_stop_time, L_done, L_buf_dump, L_join_buf]
     \<lparr>snapshot_recorder = Some m, custom_recorders = []\<rparr> = (Inr p, sv')"
  using assms
  by (simp add: getSnapshot_def call_stop_def call_start_def is_done_stopped raise_stop_effect stamp_stop_effect dump_buffer_eq
      after_loop_def isActive_def)

text \<open>What the destructor of the server leaves behind.\<close>

lemma shutdown_facts:
  assumes "clock_ok k" and "kernel_ok k" and "svc_sys.reachable k x snap sv"
    and "input_sys.reachable k lib getenv cfg s" and "destruct_server k x sched sv s = (Inr (), ms, s')"
  shows "length ms = length (all_recorders sv) \<and>
    (\<forall>m \<in> set ms. rpc m = Rec_none \<and> bpc m = Buf_none \<and>
       closed (hist (rst m)) = map dev_fd (available_devices (rst m))) \<and>
    (\<forall>fd. dev_state k fd (hist s') = U_absent)"
proof -
  have ms: "destroy_all k x sched 0 (all_recorders sv) = (Inr (), ms)" and s': "s' = destruct_input k s"
    using assms(5) by (auto simp: destruct_server_def destruct_service_def split: prod.splits sum.splits)
  have "length ms = length (all_recorders sv) \<and> (\<forall>m \<in> set ms.
      (clock_ok k \<longrightarrow> control_inv m \<and> shutdown_inv (available_devices (rst m)) m) \<and> mpc m = Main_gone)"
    by (rule shutdown_contract.destroy_all_keeps [OF _ ms])
      (use reachable_shutdown [OF assms(3)] in \<open>simp add: service_inv_def\<close>)
  moreover have "\<forall>fd. dev_state k fd (hist s') = U_absent"
    using destruct_input_inv [OF assms(2) reachable_running [OF assms(2,4)]] by (simp add: s' server_inv_def)
  ultimately show ?thesis
    using assms(1) control_gone by (auto simp: shutdown_inv_def)
qed

section \<open>Snapshots\<close>

text \<open>A snapshot: when \<open>getSnapshot\<close> returns a path, in whatever state the service was and however
  the threads ran, the path names a complete recording, and the snapshot recorder has been started
  again, while the custom recorders are untouched.\<close>

lemma snapshot_recording:
  assumes "clock_ok k" and "svc_sys.reachable k x snap sv" and "getSnapshot k x sched sv = (Inr p, sv')"
  shows "\<exists>m t start recs. snapshot_recorder sv' = Some m \<and> rpc m = Rec_spawned \<and>
    custom_recorders sv' = custom_recorders sv \<and>
    files (rst m) p = Some t \<and> parse_recording t = Some (start, recs)"
proof -
  obtain m m1 where m: "snapshot_recorder sv = Some m" and m1: "call_stop k x sched m = (Inr p, m1)"
    using assms(3) by (auto simp: getSnapshot_def split: option.splits prod.splits sum.splits)
  have inv: "control_inv m" "file_inv m" "m_continuous (rst m)"
    using service_inv_snapshot(1) [OF reachable_service(1) [OF assms(2)] m] assms(1)
      reachable_snapshot_continuous [OF assms(1,2)] m by (simp_all add: snapshot_continuous_def)
  note start = call_stop_restart [OF assms(1) inv(1,3) m1]
  have "file_inv m1" using files_contract.call_stop_keeps [of k m x sched] inv assms(1) m1 by simp
  then have "good_file (rst m1) p" using call_stop_outcome [OF m1] by (simp add: file_inv_def)
  then obtain t b recs where "files (rst m1) p = Some t" "parse_recording t = Some (b, recs)"
    using parse_recording_file by (auto simp: good_file_def)
  with assms(3) m m1 start show ?thesis by (auto simp: getSnapshot_def)
qed

end
