(* ===== verification/Rpc_Client.thy ===== *)
theory Rpc_Client
  imports Prelude
begin

text \<open>
  \<open>client/RPCClient.h\<close>: the connection of a client and the shape every remote call has. The
  network and the peer are parameters: what constructing a connection gives, and how a call
  ends. A \<open>Connection\<close> owns the event loop of its thread (\<open>kj::setupAsyncIo\<close>), of which
  a thread has at most one; \<open>thread_loop\<close> says whether the client's thread has one. The
  theory shows the invariant that makes the null pointer of a closed connection unreachable from
  a remote call, how a connection is lost and regained, and what a client knows of the server's
  state after a call.
\<close>

section \<open>The connection\<close>

record rpc_client =
  conn :: "string option"
  isConnected :: bool
  last_server_ip :: "string option"
  thread_loop :: bool

definition new_client :: "bool \<Rightarrow> rpc_client" where
  "new_client loop =
     \<lparr>conn = None, isConnected = False, last_server_ip = None, thread_loop = loop\<rparr>"

text \<open>\<open>Connect\<close>: \<open>net\<close> is the outcome of resolving the address and connecting to it. The
  new connection is constructed before the old one is released, so an event loop that exists
  makes the constructor throw. An exception leaves the client as it was.\<close>

definition Connect :: "(string \<Rightarrow> unit result) \<Rightarrow> string \<Rightarrow> rpc_client \<Rightarrow> unit result \<times> rpc_client" where
  "Connect net server_ip c =
     (if thread_loop c then (Inl (Kj_exception ''This thread already has an EventLoop.''), c)
      else case net server_ip of
             Inl e \<Rightarrow> (Inl e, c)
           | Inr _ \<Rightarrow> (Inr (), c\<lparr>conn := Some server_ip, thread_loop := True,
                               last_server_ip := Some server_ip, isConnected := True\<rparr>))"

text \<open>\<open>getMain\<close>, \<open>getWaitScope\<close> and \<open>getTimer\<close> dereference the connection.\<close>

definition deref_conn :: "rpc_client \<Rightarrow> string result" where
  "deref_conn c = (case conn c of None \<Rightarrow> Inl Null_dereference | Some a \<Rightarrow> Inr a)"

definition reset_conn :: "rpc_client \<Rightarrow> rpc_client" where
  "reset_conn c = c\<lparr>conn := None, thread_loop := thread_loop c \<and> conn c = None\<rparr>"

section \<open>Calls\<close>

text \<open>How the joined promise of \<open>waitWithTimeout\<close> ends: with the reply, with an exception the
  peer has thrown, with the loss of the connection, or with the timer after \<open>RPC_TIMEOUT\<close>.\<close>

datatype 'a outcome = Reply 'a | Remote_error string | Disconnected | Timed_out

definition waitWithTimeout :: "'a outcome \<Rightarrow> rpc_client \<Rightarrow> 'a result \<times> rpc_client" where
  "waitWithTimeout out c =
     (case out of
        Reply r \<Rightarrow> (Inr r, c)
      | Remote_error msg \<Rightarrow> (Inl (Kj_exception msg), c)
      | Timed_out \<Rightarrow> (Inl (Kj_exception ''RPC timed out''), c)
      | Disconnected \<Rightarrow> (Inl Kj_disconnected, (reset_conn c)\<lparr>isConnected := False\<rparr>))"

text \<open>
  The pattern of every remote method: \<open>KJ_REQUIRE(isConnected)\<close>, \<open>getMain\<close>, building the
  request (which may itself fail), \<open>send\<close> and \<open>waitWithTimeout\<close>. The peer maps a request
  to its outcome and may change its own state.
\<close>

definition rpc_call ::
  "('req \<Rightarrow> 's \<Rightarrow> 'rep outcome \<times> 's) \<Rightarrow> 'req result \<Rightarrow> rpc_client \<times> 's \<Rightarrow> 'rep result \<times> rpc_client \<times> 's" where
  "rpc_call peer request cs =
     (case cs of (c, s) \<Rightarrow>
        if \<not> isConnected c
        then (Inl (Kj_exception ''Not connected to Test Runner server''), c, s)
        else case bind_result (deref_conn c) (\<lambda>_. request) of
               Inl e \<Rightarrow> (Inl e, c, s)
             | Inr req \<Rightarrow>
                 (case peer req s of (out, s') \<Rightarrow>
                    (case waitWithTimeout out c of (r, c') \<Rightarrow> (r, c', s'))))"

text \<open>
  A peer: a server reached over a network. The fate of a call is chosen by the network: it is
  delivered and answered in time, the connection breaks before the request arrives or after it has
  been served, the answer is late, and then the request may have been served or dropped, or a message
  reaches the size limit of the vendored Cap'n Proto (64 MiB, \<open>traversalLimitInWords\<close>): \<open>send\<close>
  refuses it, the request on the client's side or the answer of a request that was served, and the
  exception ends the call while the connection stays. An exception of a handler travels to the client; a handler that never returns makes the client time
  out; a server that ends or runs into undefined behaviour is a lost connection.
\<close>

datatype fate = Delivered | Lost_request | Lost_reply | Late bool | Oversized bool

definition oversized_error :: string where
  "oversized_error = ''Trying to send Cap'' @ [CHR 0x27] @ ''n Proto message larger than our single-message size limit. '' @
     ''The other side probably won'' @ [CHR 0x27] @ ''t accept it (assuming its traversalLimitInWords matches ours) '' @
     ''and would abort the connection, so I won'' @ [CHR 0x27] @ ''t send it.''"

fun remote_outcome :: "'a result \<Rightarrow> 'a outcome" where
  "remote_outcome (Inr r) = Reply r"
| "remote_outcome (Inl (Kj_exception msg)) = Remote_error msg"
| "remote_outcome (Inl (Json_type_error n)) = Remote_error ''json type_error''"
| "remote_outcome (Inl (Json_out_of_range n)) = Remote_error ''json out_of_range''"
| "remote_outcome (Inl Json_parse_error) = Remote_error ''json parse_error''"
| "remote_outcome (Inl System_error) = Remote_error ''system_error''"
| "remote_outcome (Inl Blocked_forever) = Timed_out"
| "remote_outcome (Inl _) = Disconnected"

fun deliver :: "('req \<Rightarrow> 's \<Rightarrow> 'rep result \<times> 's) \<Rightarrow> fate \<Rightarrow> 'req \<Rightarrow> 's \<Rightarrow> 'rep outcome \<times> 's" where
  "deliver serve Delivered req s = apfst remote_outcome (serve req s)"
| "deliver serve Lost_request req s = (Disconnected, s)"
| "deliver serve Lost_reply req s = (Disconnected, snd (serve req s))"
| "deliver serve (Late served) req s = (Timed_out, if served then snd (serve req s) else s)"
| "deliver serve (Oversized served) req s =
     (if served
      then apfst (\<lambda>r. case r of Inr _ \<Rightarrow> Remote_error oversized_error | Inl _ \<Rightarrow> remote_outcome r) (serve req s)
      else (Remote_error oversized_error, s))"

text \<open>A session: a sequence of calls, each with its fate; the results in order.\<close>

fun rpc_session ::
  "('req \<Rightarrow> 's \<Rightarrow> 'rep result \<times> 's) \<Rightarrow> (fate \<times> 'req result) list \<Rightarrow> rpc_client \<times> 's \<Rightarrow>
     'rep result list \<times> rpc_client \<times> 's" where
  "rpc_session serve [] cs = ([], cs)"
| "rpc_session serve ((f, request) # calls) cs =
     (case rpc_call (deliver serve f) request cs of (r, cs') \<Rightarrow>
        (case rpc_session serve calls cs' of (rs, cs'') \<Rightarrow> (r # rs, cs'')))"

section \<open>The client as a machine\<close>

datatype client_label = L_connect string "unit result" | L_call "unit outcome"

definition client_exec :: "client_label \<Rightarrow> rpc_client \<Rightarrow> rpc_client" where
  "client_exec l c =
     (case l of
        L_connect ip r \<Rightarrow> snd (Connect (\<lambda>_. r) ip c)
      | L_call out \<Rightarrow> fst (snd (rpc_call (\<lambda>_ _. (out, ())) (Inr ()) (c, ()))))"

inductive client_step :: "rpc_client \<Rightarrow> client_label \<Rightarrow> rpc_client \<Rightarrow> bool" where
  client_step: "client_step c l (client_exec l c)"

inductive_simps client_step_iff: "client_step c l c'"

definition client_init :: "rpc_client \<Rightarrow> bool" where
  "client_init c \<longleftrightarrow> (\<exists>loop. c = new_client loop)"

interpretation client_sys: transition_system client_init client_step .

definition conn_inv :: "rpc_client \<Rightarrow> bool" where
  "conn_inv c \<longleftrightarrow> (isConnected c \<longleftrightarrow> conn c \<noteq> None) \<and> (conn c \<noteq> None \<longrightarrow> thread_loop c) \<and>
     (conn c \<noteq> None \<longrightarrow> conn c = last_server_ip c)"

lemma conn_inv_new: "conn_inv (new_client loop)"
  by (simp add: conn_inv_def new_client_def)

lemma conn_inv_connect: "conn_inv c \<Longrightarrow> conn_inv (snd (Connect net ip c))"
  by (auto simp: conn_inv_def Connect_def split: sum.split)

lemma conn_inv_wait: "conn_inv c \<Longrightarrow> conn_inv (snd (waitWithTimeout out c))"
  by (simp add: conn_inv_def waitWithTimeout_def reset_conn_def split: outcome.split)

lemma conn_inv_call:
  assumes "conn_inv c"
  shows "conn_inv (fst (snd (rpc_call peer request (c, s))))"
proof -
  have "conn_inv c'" if "waitWithTimeout out c = (r, c')" for out r c'
    using conn_inv_wait [OF assms, of out] that by simp
  then show ?thesis
    using assms by (auto simp: rpc_call_def split: sum.split prod.split)
qed

lemma client_reachable_inv: "client_sys.reachable c \<Longrightarrow> conn_inv c"
  by (erule client_sys.reachable_invariant)
    (auto simp: client_init_def conn_inv_new client_step_iff client_exec_def
      conn_inv_connect conn_inv_call split: client_label.split)

lemma rpc_call_connected:
  assumes "conn_inv c" "isConnected c"
  shows "rpc_call peer (Inr req) (c, s) =
    (case peer req s of (out, s') \<Rightarrow> (fst (waitWithTimeout out c), snd (waitWithTimeout out c), s'))"
  using assms by (auto simp: rpc_call_def conn_inv_def deref_conn_def split: prod.split)

lemma rpc_call_failed_request:
  assumes "conn_inv c" "isConnected c"
  shows "rpc_call peer (Inl e) (c, s) = (Inl e, c, s)"
  using assms by (auto simp: rpc_call_def conn_inv_def deref_conn_def)

lemma rpc_call_not_connected:
  "\<not> isConnected c \<Longrightarrow>
     rpc_call peer request (c, s) = (Inl (Kj_exception ''Not connected to Test Runner server''), c, s)"
  by (simp add: rpc_call_def)

text \<open>A reply means that the request was delivered and served.\<close>

lemma remote_outcome_Reply [simp]: "remote_outcome r = Reply rep \<longleftrightarrow> r = Inr rep"
  by (cases r rule: remote_outcome.cases) simp_all

lemma rpc_call_Inr:
  assumes "rpc_call (deliver serve f) request (c, s) = (Inr rep, c', s')"
  shows "f = Delivered" and "\<exists>req. request = Inr req \<and> serve req s = (Inr rep, s')"
proof -
  obtain req out where req: "request = Inr req" and out: "deliver serve f req s = (out, s')" "out = Reply rep"
    using assms
    by (auto simp: rpc_call_def waitWithTimeout_def split: if_splits sum.splits prod.splits outcome.splits)
  then have "f = Delivered \<and> serve req s = (Inr rep, s')"
    by (cases f) (auto simp: apfst_def map_prod_def split: prod.splits if_splits sum.splits)
  with req show "f = Delivered" "\<exists>req. request = Inr req \<and> serve req s = (Inr rep, s')" by simp_all
qed

text \<open>Whatever its result, a call either leaves the server alone or is served once.\<close>

lemma rpc_call_effect:
  "snd (snd (rpc_call (deliver serve f) request (c, s))) = s \<or>
   (\<exists>req. request = Inr req \<and> snd (snd (rpc_call (deliver serve f) request (c, s))) = snd (serve req s))"
  by (cases f) (auto simp: rpc_call_def case_prod_beta split: sum.split)

text \<open>The only error a call adds to those of its request is an exception of KJ.\<close>

lemma rpc_call_no_null:
  assumes "conn_inv c"
  shows "fst (rpc_call peer (Inr req) (c, s)) \<noteq> Inl Null_dereference"
  using assms
  by (cases "isConnected c")
    (auto simp: rpc_call_connected rpc_call_not_connected waitWithTimeout_def
      split: prod.split outcome.split)

section \<open>Servers behind a network\<close>

text \<open>The contract between a client and a server: an invariant of the server that its handlers
  keep is kept by every session, whatever the network does.\<close>

locale remote_service =
  fixes serve :: "'req \<Rightarrow> 's \<Rightarrow> 'rep result \<times> 's"
    and I :: "'s \<Rightarrow> bool"
  assumes serve_keeps: "I s \<Longrightarrow> I (snd (serve req s))"
begin

lemma deliver_keeps: "I s \<Longrightarrow> I (snd (deliver serve f req s))"
  by (cases f) (simp_all add: serve_keeps)

lemma call_keeps: "I s \<Longrightarrow> I (snd (snd (rpc_call (deliver serve f) request (c, s))))"
  using deliver_keeps [of s f]
  by (auto simp: rpc_call_def split: sum.split prod.split) (metis snd_conv)+

lemma session_keeps: "I (snd cs) \<Longrightarrow> I (snd (snd (rpc_session serve calls cs)))"
proof (induction calls arbitrary: cs)
  case Nil
  then show ?case by simp
next
  case (Cons call calls)
  obtain f request where [simp]: "call = (f, request)" by (cases call)
  obtain c s where [simp]: "cs = (c, s)" by (cases cs)
  show ?case
    using Cons.IH [of "snd (rpc_call (deliver serve f) request cs)"] call_keeps [of s f request c] Cons.prems
    by (simp add: split_beta)
qed

end

section \<open>Servers whose handlers always answer\<close>

text \<open>For a server whose handlers always answer, the requests that are served are determined by
  the fates: a call is served when the connection stands and the request arrives, and the first
  loss ends the session.\<close>

fun served :: "(fate \<times> 'req result) list \<Rightarrow> 'req list" where
  "served [] = []"
| "served ((f, Inl e) # calls) = served calls"
| "served ((Delivered, Inr req) # calls) = req # served calls"
| "served ((Lost_request, Inr req) # calls) = []"
| "served ((Lost_reply, Inr req) # calls) = [req]"
| "served ((Late b, Inr req) # calls) = (if b then req # served calls else served calls)"
| "served ((Oversized b, Inr req) # calls) = (if b then req # served calls else served calls)"

fun acknowledged :: "(fate \<times> 'req result) list \<Rightarrow> bool list" where
  "acknowledged [] = []"
| "acknowledged ((f, Inl e) # calls) = False # acknowledged calls"
| "acknowledged ((Delivered, Inr req) # calls) = True # acknowledged calls"
| "acknowledged ((Late b, Inr req) # calls) = False # acknowledged calls"
| "acknowledged ((Oversized b, Inr req) # calls) = False # acknowledged calls"
| "acknowledged ((f, Inr req) # calls) = False # map (\<lambda>_. False) calls"

definition ok_result :: "'a result \<Rightarrow> bool" where
  "ok_result r \<longleftrightarrow> (case r of Inr _ \<Rightarrow> True | Inl _ \<Rightarrow> False)"

lemma ok_result_simps [simp]: "ok_result (Inr x)" "\<not> ok_result (Inl e)"
  by (simp_all add: ok_result_def)

lemma session_not_connected:
  assumes "\<not> isConnected c"
  shows "rpc_session serve calls (c, s) =
    (map (\<lambda>_. Inl (Kj_exception ''Not connected to Test Runner server'')) calls, c, s)"
proof (induction calls)
  case (Cons call calls)
  then show ?case by (cases call) (simp add: rpc_call_not_connected [OF assms])
qed simp

locale total_service =
  fixes serve :: "'req \<Rightarrow> 's \<Rightarrow> 'rep result \<times> 's"
    and answer :: "'req \<Rightarrow> 's \<Rightarrow> 'rep"
    and apply_req :: "'req \<Rightarrow> 's \<Rightarrow> 's"
  assumes serve_total: "serve req s = (Inr (answer req s), apply_req req s)"
begin

lemma call_lost:
  assumes "conn_inv c" "isConnected c" "f = Lost_request \<or> f = Lost_reply"
  shows "\<exists>c' e. rpc_call (deliver serve f) (Inr req) (c, s) =
      (Inl e, c', if f = Lost_reply then apply_req req s else s) \<and> \<not> isConnected c'"
  using assms by (auto simp: rpc_call_connected waitWithTimeout_def serve_total)

lemma call_kept:
  assumes "conn_inv c" "isConnected c" "f = Delivered \<or> f = Late b \<or> f = Oversized b"
  shows "rpc_call (deliver serve f) (Inr req) (c, s) =
    (if f = Delivered then Inr (answer req s)
     else Inl (Kj_exception (if f = Late b then ''RPC timed out'' else oversized_error)), c,
     if f = Delivered \<or> b then apply_req req s else s)"
  using assms by (auto simp: rpc_call_connected waitWithTimeout_def serve_total)

lemma session_exact:
  assumes "conn_inv c" "isConnected c"
  shows "snd (snd (rpc_session serve calls (c, s))) = fold apply_req (served calls) s \<and>
    map ok_result (fst (rpc_session serve calls (c, s))) = acknowledged calls"
proof (induction calls arbitrary: s)
  case (Cons call calls)
  obtain f request where call [simp]: "call = (f, request)" by (cases call)
  show ?case
  proof (cases request)
    case (Inl e)
    then show ?thesis
      using Cons.IH [of s] by (simp add: rpc_call_failed_request [OF assms] split_beta)
  next
    case (Inr req)
    consider b where "f = Delivered \<or> f = Late b \<or> f = Oversized b" | "f = Lost_request \<or> f = Lost_reply"
      by (cases f) auto
    then show ?thesis
    proof cases
      case (1 b)
      then show ?thesis
        using Cons.IH [of "if f = Delivered \<or> b then apply_req req s else s"] Inr
        by (auto simp: call_kept [OF assms 1] split_beta simp del: deliver.simps)
    next
      case 2
      obtain c' e where "rpc_call (deliver serve f) (Inr req) (c, s) =
          (Inl e, c', if f = Lost_reply then apply_req req s else s)" "\<not> isConnected c'"
        using call_lost [OF assms 2] by blast
      with 2 Inr show ?thesis
        by (auto simp: session_not_connected comp_def simp del: deliver.simps)
    qed
  qed
qed simp

end

end
