(* ===== verification/Json_Documents.thy ===== *)
theory Json_Documents
  imports Touch_Transform
begin

text \<open>
  The part of \<open>third_party/nlohmann/json.hpp\<close> (version 3.7.3) the AGL health plugin uses: the
  data model and the accessors \<open>value\<close>, \<open>at\<close>, \<open>operator[]\<close>, \<open>size\<close>,
  \<open>contains\<close>, \<open>get\<close> with their exceptions. The text parser is not modelled; where a
  text is parsed, the parser is a parameter. An exception carries its documented number: 302
  (wrong type in a conversion), 304 (\<open>at\<close> on a non-object), 305 (\<open>operator[]\<close> on
  the wrong type), 306 (\<open>value\<close> on a non-object), 403 (key not found).
\<close>

section \<open>Documents\<close>

text \<open>
  The parser stores a number without fraction and exponent as \<open>number_unsigned\<close>, or as
  \<open>number_integer\<close> when it is negative, and any other as \<open>number_float\<close>. A finite
  \<open>double\<close> is the rational number it denotes. An object is a list of members with lookup by
  key.
\<close>

datatype json =
    JNull
  | JBool bool
  | JUnsigned u64
  | JInteger "64 word"
  | JFloat rat
  | JString string
  | JArray "json list"
  | JObject "(string \<times> json) list"

fun is_object :: "json \<Rightarrow> bool" where
  "is_object (JObject _) = True"
| "is_object _ = False"

fun is_array :: "json \<Rightarrow> bool" where
  "is_array (JArray _) = True"
| "is_array _ = False"

text \<open>\<open>m_value.object->find(key)\<close>\<close>

fun json_find :: "json \<Rightarrow> string \<Rightarrow> json option" where
  "json_find (JObject kvs) k = map_of kvs k"
| "json_find _ k = None"

fun json_size :: "json \<Rightarrow> nat" where
  "json_size JNull = 0"
| "json_size (JArray xs) = length xs"
| "json_size (JObject kvs) = length kvs"
| "json_size _ = 1"

definition json_contains :: "json \<Rightarrow> string \<Rightarrow> bool" where
  "json_contains d k \<longleftrightarrow> is_object d \<and> json_find d k \<noteq> None"

section \<open>Conversions\<close>

text \<open>\<open>static_cast\<close> of a \<open>double\<close> to an unsigned type of the given width: truncation,
  undefined when the result does not fit.\<close>

definition unsigned_of_double :: "rat \<Rightarrow> 'w::len word result" where
  "unsigned_of_double q =
     (if 0 \<le> trunc_rat q \<and> trunc_rat q < 2 ^ LENGTH('w) then Inr (word_of_int (trunc_rat q))
      else Inl Float_conversion)"

text \<open>
  \<open>get_arithmetic_value\<close> serves the library's own number types, here \<open>uint64_t\<close> and
  \<open>double\<close>; the other overload of \<open>from_json\<close> serves every other arithmetic type, here
  \<open>unsigned long long\<close>, \<open>unsigned\<close> and \<open>uint8_t\<close>, and accepts a boolean as well.
\<close>

fun get_number_unsigned :: "json \<Rightarrow> u64 result" where
  "get_number_unsigned (JUnsigned n) = Inr n"
| "get_number_unsigned (JInteger i) = Inr i"
| "get_number_unsigned (JFloat q) = unsigned_of_double q"
| "get_number_unsigned _ = Inl (Json_type_error 302)"

fun get_double :: "json \<Rightarrow> rat result" where
  "get_double (JUnsigned n) = Inr (to_double (rat_of_int (uint n)))"
| "get_double (JInteger i) = Inr (to_double (rat_of_int (sint i)))"
| "get_double (JFloat q) = Inr q"
| "get_double _ = Inl (Json_type_error 302)"

fun get_arithmetic :: "json \<Rightarrow> 'w::len word result" where
  "get_arithmetic (JUnsigned n) = Inr (ucast n)"
| "get_arithmetic (JInteger i) = Inr (ucast i)"
| "get_arithmetic (JFloat q) = unsigned_of_double q"
| "get_arithmetic (JBool b) = Inr (if b then 1 else 0)"
| "get_arithmetic _ = Inl (Json_type_error 302)"

fun get_string :: "json \<Rightarrow> string result" where
  "get_string (JString s) = Inr s"
| "get_string _ = Inl (Json_type_error 302)"

section \<open>Access\<close>

text \<open>\<open>value(key, default)\<close>; the conversion of a member that is found is the implicit one to
  the type of the default.\<close>

definition json_value :: "(json \<Rightarrow> 'a result) \<Rightarrow> json \<Rightarrow> string \<Rightarrow> 'a \<Rightarrow> 'a result" where
  "json_value conv d k dflt =
     (if is_object d
      then (case json_find d k of Some v \<Rightarrow> conv v | None \<Rightarrow> Inr dflt)
      else Inl (Json_type_error 306))"

abbreviation value_u64 :: "json \<Rightarrow> string \<Rightarrow> u64 \<Rightarrow> u64 result" where
  "value_u64 \<equiv> json_value get_arithmetic"

abbreviation value_u32 :: "json \<Rightarrow> string \<Rightarrow> u32 \<Rightarrow> u32 result" where
  "value_u32 \<equiv> json_value get_arithmetic"

abbreviation value_double :: "json \<Rightarrow> string \<Rightarrow> rat \<Rightarrow> rat result" where
  "value_double \<equiv> json_value get_double"

abbreviation value_string :: "json \<Rightarrow> string \<Rightarrow> string \<Rightarrow> string result" where
  "value_string \<equiv> json_value get_string"

definition json_at :: "json \<Rightarrow> string \<Rightarrow> json result" where
  "json_at d k =
     (if is_object d
      then (case json_find d k of Some v \<Rightarrow> Inr v | None \<Rightarrow> Inl (Json_out_of_range 403))
      else Inl (Json_type_error 304))"

text \<open>The constant \<open>operator[]\<close> with a position and with a key. Out of range and on a
  missing key its behaviour is undefined.\<close>

fun json_index :: "json \<Rightarrow> nat \<Rightarrow> json result" where
  "json_index (JArray xs) i = (if i < length xs then Inr (xs ! i) else Inl Out_of_bounds)"
| "json_index _ i = Inl (Json_type_error 305)"

definition json_key :: "json \<Rightarrow> string \<Rightarrow> json result" where
  "json_key d k =
     (if is_object d
      then (case json_find d k of Some v \<Rightarrow> Inr v | None \<Rightarrow> Inl Out_of_bounds)
      else Inl (Json_type_error 305))"

text \<open>What a range-based \<open>for\<close> visits: the elements, the member values, a scalar itself.\<close>

fun json_elems :: "json \<Rightarrow> json list" where
  "json_elems JNull = []"
| "json_elems (JArray xs) = xs"
| "json_elems (JObject kvs) = map snd kvs"
| "json_elems d = [d]"

section \<open>Facts\<close>

lemma json_find_object: "json_find d k = Some v \<Longrightarrow> is_object d"
  by (cases d) simp_all

lemma json_value_found [simp]: "json_find d k = Some v \<Longrightarrow> json_value conv d k dflt = conv v"
  by (simp add: json_value_def json_find_object)

lemma json_value_default [simp]:
  "is_object d \<Longrightarrow> json_find d k = None \<Longrightarrow> json_value conv d k dflt = Inr dflt"
  by (simp add: json_value_def)

lemma json_value_type_error: "\<not> is_object d \<Longrightarrow> json_value conv d k dflt = Inl (Json_type_error 306)"
  by (simp add: json_value_def)

lemma json_at_found [simp]: "json_find d k = Some v \<Longrightarrow> json_at d k = Inr v"
  by (simp add: json_at_def json_find_object)

lemma json_at_Inr_iff: "json_at d k = Inr v \<longleftrightarrow> json_find d k = Some v"
  by (auto simp: json_at_def json_find_object split: option.splits if_splits)

lemma json_key_contains: "json_contains d k \<Longrightarrow> \<exists>v. json_find d k = Some v \<and> json_key d k = Inr v"
  by (auto simp: json_contains_def json_key_def)

text \<open>A document that holds the given members, and possibly others.\<close>

definition carries :: "(string \<times> json) list \<Rightarrow> json \<Rightarrow> bool" where
  "carries fs d \<longleftrightarrow> is_object d \<and> list_all (\<lambda>(k, v). json_find d k = Some v) fs"

lemma carries_find:
  assumes "carries fs d" "map_of fs k = Some v"
  shows "json_find d k = Some v"
  using assms map_of_SomeD [OF assms(2)] by (auto simp: carries_def list_all_iff)

lemma carries_object: "carries fs d \<Longrightarrow> is_object d"
  by (simp add: carries_def)

lemma carries_self: "distinct (map fst fs) \<Longrightarrow> carries fs (JObject fs)"
  by (auto simp: carries_def list_all_iff)

end
