(* ===== verification/Agl_Health.thy ===== *)
theory Agl_Health
  imports Json_Documents
begin

text \<open>
  The server side of the AGL health plugin, \<open>plugins/agl_health/AglHealth.cpp\<close>: a REST client
  of the health daemon that turns its JSON documents into the structures of
  \<open>plugins/agl_health/agl_health.capnp\<close>. The transfer library libcurl is the parameter
  \<open>curl\<close>, the text parser of the JSON library the parameter \<open>parse\<close>. An exception thrown
  while a reply is being filled discards the reply, so every \<open>fill\<close> function returns either
  the whole structure or the exception.
\<close>

section \<open>Structures of the schema\<close>

record MemorySnapshot =
  totalBytes :: u64
  freeBytes :: u64
  cachedBytes :: u64
  bufferedBytes :: u64
  slabBytes :: u64
  swapUsedBytes :: u64
  swapFreeBytes :: u64
  pageFaultsMinor :: u64
  pageFaultsMajor :: u64
  psiSomePctX100 :: u32
  psiFullPctX100 :: u32
  oomKillsTotal :: u64

record CpuStats =
  cpuId :: u32
  userNs :: u64
  systemNs :: u64
  iowaitNs :: u64
  irqNs :: u64
  softirqNs :: u64
  idleNs :: u64
  ctxSwitches :: u64

record CpuSnapshot =
  load1 :: rat
  load5 :: rat
  load15 :: rat
  cores :: "CpuStats list"

record ProcessStats =
  pid :: u32
  ppid :: u32
  uid :: u32
  threadCount :: u32
  cpuUserNs :: u64
  cpuSystemNs :: u64
  memRssBytes :: u64
  memVmsBytes :: u64
  voluntaryCtxSw :: u64
  involuntaryCtxSw :: u64
  readBytes :: u64
  writeBytes :: u64
  pageFaultsMinor :: u64
  pageFaultsMajor :: u64
  startTimeNs :: u64
  openFds :: u32
  comm :: string

record NetIfaceStats =
  ifaceIdx :: u32
  name :: string
  rxBytes :: u64
  txBytes :: u64
  rxPackets :: u64
  txPackets :: u64
  rxDrops :: u64
  txDrops :: u64
  rxErrors :: u64
  txErrors :: u64

record TcpStateSnapshot =
  established :: u64
  synSent :: u64
  synRecv :: u64
  finWait1 :: u64
  finWait2 :: u64
  timeWait :: u64
  closeWait :: u64
  listen :: u64
  listenOverflows :: u64
  retransmits :: u64
  resetsIn :: u64
  resetsOut :: u64

record NetworkSnapshot =
  ifaces :: "NetIfaceStats list"
  tcp :: TcpStateSnapshot

record SecuritySnapshot =
  ptrace :: u64
  memfdCreate :: u64
  prctl :: u64
  setuid :: u64
  execAnomaly :: u64
  capabilityUse :: u64

record SchedBuckets =
  lt10Us :: u64
  lt100Us :: u64
  lt1Ms :: u64
  lt10Ms :: u64
  lt100Ms :: u64
  lt1S :: u64
  lt10S :: u64
  ge10S :: u64

record SchedulerSnapshot =
  histogram :: SchedBuckets
  totalCount :: u64
  totalLatNs :: u64
  maxLatNs :: u64
  p50Ns :: u64
  p95Ns :: u64
  p99Ns :: u64

record MetricSnapshot =
  timestampNs :: u64
  memory :: MemorySnapshot
  cpu :: CpuSnapshot
  processes :: "ProcessStats list"
  network :: NetworkSnapshot
  security :: SecuritySnapshot
  scheduler :: SchedulerSnapshot

text \<open>
  The allocation of a list of structures in \<open>initStructListPointer\<close> of the vendored Cap'n
  Proto: the count arrives as a \<open>uint32_t\<close>, a list has fewer than $2^{29}$ elements and its
  elements take at most $2^{29} - 2$ words. The sizes of the three element structures follow from
  the schema.
\<close>

definition init_list :: "nat \<Rightarrow> nat \<Rightarrow> nat result" where
  "init_list words n =
     (let count = n mod 2 ^ 32 in
      if count > 2 ^ 29 - 1
      then Inl (Kj_exception ''tried to allocate list with too many elements'')
      else if count * words > 2 ^ 29 - 2
      then Inl (Kj_exception ''total size of struct list is larger than max segment size'')
      else Inr count)"

definition cpu_stats_words :: nat where
  "cpu_stats_words = 8"

definition process_stats_words :: nat where
  "process_stats_words = 15"

definition iface_stats_words :: nat where
  "iface_stats_words = 10"

text \<open>The loops \<open>for (size_t i = 0; i < arr.size(); ++i)\<close> that read \<open>arr[i]\<close> and fill
  element \<open>i\<close> of a list of \<open>count\<close> elements; an element that does not exist is out of
  bounds.\<close>

definition fill_list :: "(json \<Rightarrow> 'a result) \<Rightarrow> nat \<Rightarrow> json \<Rightarrow> 'a list result" where
  "fill_list fill count arr =
     map_result (\<lambda>i. bind_result (json_index arr i) (\<lambda>src.
                     if i < count then fill src else Inl (Kj_exception ''list index out of bounds'')))
       [0..<json_size arr]"

section \<open>Populating the structures\<close>

definition fill_memory :: "json \<Rightarrow> MemorySnapshot result" where
  "fill_memory j =
     bind_result (value_u64 j ''total_bytes'' 0) (\<lambda>total.
     bind_result (value_u64 j ''free_bytes'' 0) (\<lambda>free.
     bind_result (value_u64 j ''cached_bytes'' 0) (\<lambda>cached.
     bind_result (value_u64 j ''buffered_bytes'' 0) (\<lambda>buffered.
     bind_result (value_u64 j ''slab_bytes'' 0) (\<lambda>slab.
     bind_result (value_u64 j ''swap_used_bytes'' 0) (\<lambda>swap_used.
     bind_result (value_u64 j ''swap_free_bytes'' 0) (\<lambda>swap_free.
     bind_result (value_u64 j ''page_faults_minor'' 0) (\<lambda>minor.
     bind_result (value_u64 j ''page_faults_major'' 0) (\<lambda>major.
     bind_result (value_u32 j ''psi_some_pct_x100'' 0) (\<lambda>psi_some.
     bind_result (value_u32 j ''psi_full_pct_x100'' 0) (\<lambda>psi_full.
     bind_result (value_u64 j ''oom_kills_total'' 0) (\<lambda>oom.
       Inr \<lparr>totalBytes = total, freeBytes = free, cachedBytes = cached, bufferedBytes = buffered,
            slabBytes = slab, swapUsedBytes = swap_used, swapFreeBytes = swap_free,
            pageFaultsMinor = minor, pageFaultsMajor = major, psiSomePctX100 = psi_some,
            psiFullPctX100 = psi_full, oomKillsTotal = oom\<rparr>))))))))))))"

definition fill_core :: "json \<Rightarrow> CpuStats result" where
  "fill_core c =
     bind_result (value_u32 c ''cpu_id'' 0) (\<lambda>cpu_id.
     bind_result (value_u64 c ''user_ns'' 0) (\<lambda>user.
     bind_result (value_u64 c ''system_ns'' 0) (\<lambda>system.
     bind_result (value_u64 c ''iowait_ns'' 0) (\<lambda>iowait.
     bind_result (value_u64 c ''irq_ns'' 0) (\<lambda>irq.
     bind_result (value_u64 c ''softirq_ns'' 0) (\<lambda>softirq.
     bind_result (value_u64 c ''idle_ns'' 0) (\<lambda>idle.
     bind_result (value_u64 c ''ctx_switches'' 0) (\<lambda>ctx.
       Inr \<lparr>cpuId = cpu_id, userNs = user, systemNs = system, iowaitNs = iowait, irqNs = irq,
            softirqNs = softirq, idleNs = idle, ctxSwitches = ctx\<rparr>))))))))"

definition fill_cpu :: "json \<Rightarrow> CpuSnapshot result" where
  "fill_cpu j =
     bind_result (json_at j ''load'') (\<lambda>load.
     bind_result (value_double load ''load_1'' 0) (\<lambda>l1.
     bind_result (value_double load ''load_5'' 0) (\<lambda>l5.
     bind_result (value_double load ''load_15'' 0) (\<lambda>l15.
     bind_result (json_at j ''cores'') (\<lambda>cores_j.
     bind_result (init_list cpu_stats_words (json_size cores_j)) (\<lambda>count.
     bind_result (fill_list fill_core count cores_j) (\<lambda>cs.
       Inr \<lparr>load1 = l1, load5 = l5, load15 = l15, cores = cs\<rparr>)))))))"

text \<open>The name of a process: bytes up to the first zero when it is an array, a string
  otherwise.\<close>

fun comm_bytes :: "json list \<Rightarrow> string result" where
  "comm_bytes [] = Inr []"
| "comm_bytes (b # bs) =
     bind_result (get_arithmetic b) (\<lambda>c :: u8.
       if c = 0 then Inr []
       else bind_result (comm_bytes bs) (\<lambda>s. Inr (char_of (unat c) # s)))"

definition fill_comm :: "json \<Rightarrow> string result" where
  "fill_comm p =
     (if json_contains p ''comm'' \<and> (case json_key p ''comm'' of Inr v \<Rightarrow> is_array v | Inl _ \<Rightarrow> False)
      then bind_result (json_key p ''comm'') (\<lambda>v. comm_bytes (json_elems v))
      else value_string p ''comm'' [])"

definition fill_process :: "json \<Rightarrow> ProcessStats result" where
  "fill_process p =
     bind_result (value_u32 p ''pid'' 0) (\<lambda>pid_v.
     bind_result (value_u32 p ''ppid'' 0) (\<lambda>ppid_v.
     bind_result (value_u32 p ''uid'' 0) (\<lambda>uid_v.
     bind_result (value_u32 p ''thread_count'' 0) (\<lambda>threads.
     bind_result (value_u64 p ''cpu_user_ns'' 0) (\<lambda>cpu_user.
     bind_result (value_u64 p ''cpu_system_ns'' 0) (\<lambda>cpu_system.
     bind_result (value_u64 p ''mem_rss_bytes'' 0) (\<lambda>rss.
     bind_result (value_u64 p ''mem_vms_bytes'' 0) (\<lambda>vms.
     bind_result (value_u64 p ''voluntary_ctx_sw'' 0) (\<lambda>voluntary.
     bind_result (value_u64 p ''involuntary_ctx_sw'' 0) (\<lambda>involuntary.
     bind_result (value_u64 p ''read_bytes'' 0) (\<lambda>rd.
     bind_result (value_u64 p ''write_bytes'' 0) (\<lambda>wr.
     bind_result (value_u64 p ''page_faults_minor'' 0) (\<lambda>minor.
     bind_result (value_u64 p ''page_faults_major'' 0) (\<lambda>major.
     bind_result (value_u64 p ''start_time_ns'' 0) (\<lambda>start.
     bind_result (value_u32 p ''open_fds'' 0) (\<lambda>fds.
     bind_result (fill_comm p) (\<lambda>cm.
       Inr \<lparr>pid = pid_v, ppid = ppid_v, uid = uid_v, threadCount = threads, cpuUserNs = cpu_user,
            cpuSystemNs = cpu_system, memRssBytes = rss, memVmsBytes = vms,
            voluntaryCtxSw = voluntary, involuntaryCtxSw = involuntary, readBytes = rd,
            writeBytes = wr, pageFaultsMinor = minor, pageFaultsMajor = major,
            startTimeNs = start, openFds = fds, comm = cm\<rparr>)))))))))))))))))"

definition fill_processes :: "nat \<Rightarrow> json \<Rightarrow> ProcessStats list result" where
  "fill_processes count arr = fill_list fill_process count arr"

definition fill_iface :: "json \<Rightarrow> NetIfaceStats result" where
  "fill_iface src =
     bind_result (value_u32 src ''iface_idx'' 0) (\<lambda>idx.
     bind_result (value_string src ''name'' []) (\<lambda>nm.
     bind_result (value_u64 src ''rx_bytes'' 0) (\<lambda>rxb.
     bind_result (value_u64 src ''tx_bytes'' 0) (\<lambda>txb.
     bind_result (value_u64 src ''rx_packets'' 0) (\<lambda>rxp.
     bind_result (value_u64 src ''tx_packets'' 0) (\<lambda>txp.
     bind_result (value_u64 src ''rx_drops'' 0) (\<lambda>rxd.
     bind_result (value_u64 src ''tx_drops'' 0) (\<lambda>txd.
     bind_result (value_u64 src ''rx_errors'' 0) (\<lambda>rxe.
     bind_result (value_u64 src ''tx_errors'' 0) (\<lambda>txe.
       Inr \<lparr>ifaceIdx = idx, name = nm, rxBytes = rxb, txBytes = txb, rxPackets = rxp,
            txPackets = txp, rxDrops = rxd, txDrops = txd, rxErrors = rxe, txErrors = txe\<rparr>))))))))))"

definition fill_tcp :: "json \<Rightarrow> TcpStateSnapshot result" where
  "fill_tcp t =
     bind_result (value_u64 t ''established'' 0) (\<lambda>est.
     bind_result (value_u64 t ''syn_sent'' 0) (\<lambda>ss.
     bind_result (value_u64 t ''syn_recv'' 0) (\<lambda>sr.
     bind_result (value_u64 t ''fin_wait1'' 0) (\<lambda>fw1.
     bind_result (value_u64 t ''fin_wait2'' 0) (\<lambda>fw2.
     bind_result (value_u64 t ''time_wait'' 0) (\<lambda>tw.
     bind_result (value_u64 t ''close_wait'' 0) (\<lambda>cw.
     bind_result (value_u64 t ''listen'' 0) (\<lambda>li.
     bind_result (value_u64 t ''listen_overflows'' 0) (\<lambda>lo.
     bind_result (value_u64 t ''retransmits'' 0) (\<lambda>re.
     bind_result (value_u64 t ''resets_in'' 0) (\<lambda>ri.
     bind_result (value_u64 t ''resets_out'' 0) (\<lambda>ro.
       Inr \<lparr>established = est, synSent = ss, synRecv = sr, finWait1 = fw1, finWait2 = fw2,
            timeWait = tw, closeWait = cw, listen = li, listenOverflows = lo, retransmits = re,
            resetsIn = ri, resetsOut = ro\<rparr>))))))))))))"

definition fill_network :: "json \<Rightarrow> NetworkSnapshot result" where
  "fill_network j =
     bind_result (json_at j ''ifaces'') (\<lambda>ifaces_j.
     bind_result (init_list iface_stats_words (json_size ifaces_j)) (\<lambda>count.
     bind_result (fill_list fill_iface count ifaces_j) (\<lambda>ifs.
     bind_result (json_at j ''tcp'') (\<lambda>tcp_j.
     bind_result (fill_tcp tcp_j) (\<lambda>t.
       Inr \<lparr>ifaces = ifs, tcp = t\<rparr>)))))"

definition fill_security :: "json \<Rightarrow> SecuritySnapshot result" where
  "fill_security j =
     bind_result (value_u64 j ''ptrace'' 0) (\<lambda>pt.
     bind_result (value_u64 j ''memfd_create'' 0) (\<lambda>mf.
     bind_result (value_u64 j ''prctl'' 0) (\<lambda>pr.
     bind_result (value_u64 j ''setuid'' 0) (\<lambda>su.
     bind_result (value_u64 j ''exec_anomaly'' 0) (\<lambda>ea.
     bind_result (value_u64 j ''capability_use'' 0) (\<lambda>cu.
       Inr \<lparr>ptrace = pt, memfdCreate = mf, prctl = pr, setuid = su, execAnomaly = ea,
            capabilityUse = cu\<rparr>))))))"

definition get_bucket :: "json \<Rightarrow> nat \<Rightarrow> u64 result" where
  "get_bucket buckets i =
     (if i < json_size buckets then bind_result (json_index buckets i) get_number_unsigned
      else Inr 0)"

definition fill_buckets :: "json \<Rightarrow> SchedBuckets result" where
  "fill_buckets buckets =
     bind_result (get_bucket buckets 0) (\<lambda>b0.
     bind_result (get_bucket buckets 1) (\<lambda>b1.
     bind_result (get_bucket buckets 2) (\<lambda>b2.
     bind_result (get_bucket buckets 3) (\<lambda>b3.
     bind_result (get_bucket buckets 4) (\<lambda>b4.
     bind_result (get_bucket buckets 5) (\<lambda>b5.
     bind_result (get_bucket buckets 6) (\<lambda>b6.
     bind_result (get_bucket buckets 7) (\<lambda>b7.
       Inr \<lparr>lt10Us = b0, lt100Us = b1, lt1Ms = b2, lt10Ms = b3, lt100Ms = b4, lt1S = b5,
            lt10S = b6, ge10S = b7\<rparr>))))))))"

definition fill_scheduler :: "json \<Rightarrow> SchedulerSnapshot result" where
  "fill_scheduler j =
     bind_result (json_at j ''histogram'') (\<lambda>hist.
     bind_result (json_at hist ''buckets'') (\<lambda>buckets.
     bind_result (fill_buckets buckets) (\<lambda>hb.
     bind_result (value_u64 hist ''total_count'' 0) (\<lambda>count.
     bind_result (value_u64 hist ''total_latency_ns'' 0) (\<lambda>lat.
     bind_result (value_u64 hist ''max_latency_ns'' 0) (\<lambda>mx.
     bind_result (value_u64 j ''p50_ns'' 0) (\<lambda>p50.
     bind_result (value_u64 j ''p95_ns'' 0) (\<lambda>p95.
     bind_result (value_u64 j ''p99_ns'' 0) (\<lambda>p99.
       Inr \<lparr>histogram = hb, totalCount = count, totalLatNs = lat, maxLatNs = mx, p50Ns = p50,
            p95Ns = p95, p99Ns = p99\<rparr>)))))))))"

text \<open>The body of \<open>getMetrics\<close>, whose document is flat: the members of the processor and the
  network parts are collected into documents of their own first.\<close>

definition fill_metrics :: "json \<Rightarrow> MetricSnapshot result" where
  "fill_metrics j =
     bind_result (value_u64 j ''timestamp_ns'' 0) (\<lambda>ts.
     bind_result (json_at j ''memory'') (\<lambda>mem_j.
     bind_result (fill_memory mem_j) (\<lambda>mem.
     bind_result (json_at j ''load'') (\<lambda>load.
     bind_result (json_at j ''cpu_cores'') (\<lambda>cpu_cores.
     bind_result (fill_cpu (JObject [(''load'', load), (''cores'', cpu_cores)])) (\<lambda>c.
     bind_result (json_at j ''top_processes'') (\<lambda>procs_j.
     bind_result (init_list process_stats_words (json_size procs_j)) (\<lambda>count.
     bind_result (fill_processes count procs_j) (\<lambda>ps.
     bind_result (json_at j ''net_ifaces'') (\<lambda>net_ifaces.
     bind_result (json_at j ''tcp'') (\<lambda>tcp_j.
     bind_result (fill_network (JObject [(''ifaces'', net_ifaces), (''tcp'', tcp_j)])) (\<lambda>net.
     bind_result (json_at j ''security'') (\<lambda>sec_j.
     bind_result (fill_security sec_j) (\<lambda>sec.
     bind_result (json_at j ''sched'') (\<lambda>sched_j.
     bind_result (fill_scheduler sched_j) (\<lambda>sched.
       Inr \<lparr>timestampNs = ts, memory = mem, cpu = c, processes = ps, network = net,
            security = sec, scheduler = sched\<rparr>))))))))))))))))"

definition fill_process_reply :: "json \<Rightarrow> ProcessStats list result" where
  "fill_process_reply arr =
     bind_result (init_list process_stats_words (json_size arr)) (\<lambda>count. fill_processes count arr)"

end
