(* ===== verification/Agl_Service.thy ===== *)
theory Agl_Service
  imports Agl_Health
begin

text \<open>
  The state and the RPC methods of the AGL health plugin: the address of the daemon, the transfer
  through libcurl, and one handler per method of the interface. libcurl is the parameter
  \<open>curl\<close>: whether \<open>curl_easy_init\<close> returns a handle and, for a performed transfer, its
  return code and the chunks it hands to the write callback; both may depend on the requests made
  so far. Shown here: which addresses are requested and that no transfer handle is leaked.
\<close>

section \<open>State and transfer\<close>

record curl_lib =
  c_init :: "string list \<Rightarrow> bool"
  c_perform :: "string list \<Rightarrow> int \<times> string list"

text \<open>\<open>requests\<close> are the addresses of the performed transfers, newest first;
  \<open>easy_handles\<close> counts the handles that are not cleaned up.\<close>

record agl_plugin =
  daemon_url :: string
  requests :: "string list"
  easy_handles :: nat

definition construct_agl :: "string \<Rightarrow> agl_plugin" where
  "construct_agl url = \<lparr>daemon_url = url, requests = [], easy_handles = 0\<rparr>"

definition default_daemon_url :: string where
  "default_daemon_url = ''http://127.0.0.1:7777''"

definition daemonUrl :: "agl_plugin \<Rightarrow> string" where
  "daemonUrl p = daemon_url p"

definition curl_write_cb :: "string \<Rightarrow> string \<Rightarrow> string" where
  "curl_write_cb chunk buf = buf @ chunk"

definition fetchJson :: "curl_lib \<Rightarrow> string \<Rightarrow> agl_plugin \<Rightarrow> string result \<times> agl_plugin" where
  "fetchJson curl path p =
     (let url = daemonUrl p @ path in
      if \<not> c_init curl (requests p) then (Inl (Kj_exception ''curl_easy_init failed''), p)
      else
        let p1 = p\<lparr>easy_handles := easy_handles p + 1\<rparr>;
            p2 = p1\<lparr>requests := c_str url # requests p1\<rparr>;
            (rc, chunks) = c_perform curl (requests p2);
            body = fold curl_write_cb chunks [];
            p3 = p2\<lparr>easy_handles := easy_handles p2 - 1\<rparr>
        in if rc \<noteq> 0 then (Inl (Kj_exception ''curl GET failed''), p3) else (Inr body, p3))"

section \<open>Handlers\<close>

text \<open>The shape all query handlers share: fetch, parse, fill.\<close>

definition query ::
  "curl_lib \<Rightarrow> (string \<Rightarrow> json result) \<Rightarrow> string \<Rightarrow> (json \<Rightarrow> 'a result) \<Rightarrow> agl_plugin \<Rightarrow> 'a result \<times> agl_plugin" where
  "query curl parse path fill p =
     (case fetchJson curl path p of (r, p') \<Rightarrow>
        (bind_result r (\<lambda>body. bind_result (parse body) fill), p'))"

definition getMetrics ::
  "curl_lib \<Rightarrow> (string \<Rightarrow> json result) \<Rightarrow> agl_plugin \<Rightarrow> MetricSnapshot result \<times> agl_plugin" where
  "getMetrics curl parse = query curl parse ''/metrics'' fill_metrics"

definition getMemory ::
  "curl_lib \<Rightarrow> (string \<Rightarrow> json result) \<Rightarrow> agl_plugin \<Rightarrow> MemorySnapshot result \<times> agl_plugin" where
  "getMemory curl parse = query curl parse ''/metrics/memory'' fill_memory"

definition getCpu ::
  "curl_lib \<Rightarrow> (string \<Rightarrow> json result) \<Rightarrow> agl_plugin \<Rightarrow> CpuSnapshot result \<times> agl_plugin" where
  "getCpu curl parse = query curl parse ''/metrics/cpu'' fill_cpu"

definition process_path :: "u32 \<Rightarrow> string" where
  "process_path limit =
     ''/metrics/process'' @ (if limit > 0 then ''?limit='' @ show_nat (unat limit) else [])"

definition getProcesses ::
  "curl_lib \<Rightarrow> (string \<Rightarrow> json result) \<Rightarrow> u32 \<Rightarrow> agl_plugin \<Rightarrow> ProcessStats list result \<times> agl_plugin" where
  "getProcesses curl parse limit = query curl parse (process_path limit) fill_process_reply"

definition getNetwork ::
  "curl_lib \<Rightarrow> (string \<Rightarrow> json result) \<Rightarrow> agl_plugin \<Rightarrow> NetworkSnapshot result \<times> agl_plugin" where
  "getNetwork curl parse = query curl parse ''/metrics/network'' fill_network"

definition getSecurity ::
  "curl_lib \<Rightarrow> (string \<Rightarrow> json result) \<Rightarrow> agl_plugin \<Rightarrow> SecuritySnapshot result \<times> agl_plugin" where
  "getSecurity curl parse = query curl parse ''/metrics/security'' fill_security"

definition getScheduler ::
  "curl_lib \<Rightarrow> (string \<Rightarrow> json result) \<Rightarrow> agl_plugin \<Rightarrow> SchedulerSnapshot result \<times> agl_plugin" where
  "getScheduler curl parse = query curl parse ''/metrics/scheduler'' fill_scheduler"

definition setDaemonUrl :: "string \<Rightarrow> agl_plugin \<Rightarrow> unit result \<times> agl_plugin" where
  "setDaemonUrl url p = (Inr (), p\<lparr>daemon_url := url\<rparr>)"

section \<open>Calls of the interface\<close>

datatype agl_request =
    GetMetrics
  | GetMemory
  | GetCpu
  | GetProcesses u32
  | GetNetwork
  | GetSecurity
  | GetScheduler
  | SetDaemonUrl string

datatype agl_reply =
    Metrics_reply MetricSnapshot
  | Memory_reply MemorySnapshot
  | Cpu_reply CpuSnapshot
  | Processes_reply "ProcessStats list"
  | Network_reply NetworkSnapshot
  | Security_reply SecuritySnapshot
  | Scheduler_reply SchedulerSnapshot
  | Url_reply

definition reply_with :: "('a \<Rightarrow> agl_reply) \<Rightarrow> 'a result \<times> agl_plugin \<Rightarrow> agl_reply result \<times> agl_plugin" where
  "reply_with f r = (bind_result (fst r) (\<lambda>x. Inr (f x)), snd r)"

fun handle_agl ::
  "curl_lib \<Rightarrow> (string \<Rightarrow> json result) \<Rightarrow> agl_request \<Rightarrow> agl_plugin \<Rightarrow> agl_reply result \<times> agl_plugin" where
  "handle_agl curl parse GetMetrics p = reply_with Metrics_reply (getMetrics curl parse p)"
| "handle_agl curl parse GetMemory p = reply_with Memory_reply (getMemory curl parse p)"
| "handle_agl curl parse GetCpu p = reply_with Cpu_reply (getCpu curl parse p)"
| "handle_agl curl parse (GetProcesses limit) p =
     reply_with Processes_reply (getProcesses curl parse limit p)"
| "handle_agl curl parse GetNetwork p = reply_with Network_reply (getNetwork curl parse p)"
| "handle_agl curl parse GetSecurity p = reply_with Security_reply (getSecurity curl parse p)"
| "handle_agl curl parse GetScheduler p = reply_with Scheduler_reply (getScheduler curl parse p)"
| "handle_agl curl parse (SetDaemonUrl url) p = reply_with (\<lambda>_. Url_reply) (setDaemonUrl url p)"

definition agl_run ::
  "curl_lib \<Rightarrow> (string \<Rightarrow> json result) \<Rightarrow> agl_request list \<Rightarrow> agl_plugin \<Rightarrow> agl_plugin" where
  "agl_run curl parse rs p = fold (\<lambda>r q. snd (handle_agl curl parse r q)) rs p"

section \<open>Addresses and handles\<close>

text \<open>The specification: the path each query asks for, and the addresses a sequence of calls
  requests when the daemon is at \<open>url\<close> first.\<close>

fun path_of :: "agl_request \<Rightarrow> string option" where
  "path_of GetMetrics = Some ''/metrics''"
| "path_of GetMemory = Some ''/metrics/memory''"
| "path_of GetCpu = Some ''/metrics/cpu''"
| "path_of (GetProcesses n) =
     Some (if n = 0 then ''/metrics/process'' else ''/metrics/process?limit='' @ show_nat (unat n))"
| "path_of GetNetwork = Some ''/metrics/network''"
| "path_of GetSecurity = Some ''/metrics/security''"
| "path_of GetScheduler = Some ''/metrics/scheduler''"
| "path_of (SetDaemonUrl _) = None"

fun asked_urls :: "string \<Rightarrow> agl_request list \<Rightarrow> string list" where
  "asked_urls url [] = []"
| "asked_urls url (SetDaemonUrl u # rs) = asked_urls u rs"
| "asked_urls url (r # rs) =
     (case path_of r of None \<Rightarrow> [] | Some path \<Rightarrow> [c_str (url @ path)]) @ asked_urls url rs"

lemma fetchJson_state:
  "snd (fetchJson curl path p) =
     (if c_init curl (requests p) then p\<lparr>requests := c_str (daemon_url p @ path) # requests p\<rparr> else p)"
  by (simp add: fetchJson_def daemonUrl_def Let_def split: prod.splits)

lemma query_state: "snd (query curl parse path fill p) = snd (fetchJson curl path p)"
  by (simp add: query_def split: prod.splits)

lemmas agl_handler_defs = getMetrics_def getMemory_def getCpu_def getProcesses_def getNetwork_def
  getSecurity_def getScheduler_def

lemma handle_agl_state:
  "snd (handle_agl curl parse r p) =
     (case path_of r of
        Some path \<Rightarrow> snd (fetchJson curl path p)
      | None \<Rightarrow> (case r of SetDaemonUrl u \<Rightarrow> p\<lparr>daemon_url := u\<rparr> | _ \<Rightarrow> p))"
  by (cases r)
    (simp_all add: reply_with_def agl_handler_defs query_state setDaemonUrl_def process_path_def
      word_neq_0_conv)

lemma handle_agl_handles: "easy_handles (snd (handle_agl curl parse r p)) = easy_handles p"
  by (simp add: handle_agl_state fetchJson_state split: option.split agl_request.split)

lemma agl_run_handles: "easy_handles (agl_run curl parse rs p) = easy_handles p"
  unfolding agl_run_def by (induction rs arbitrary: p) (simp_all add: handle_agl_handles)

lemma asked_urls_Cons:
  "asked_urls url (r # rs) =
     (case path_of r of Some path \<Rightarrow> [c_str (url @ path)] | None \<Rightarrow> []) @
     asked_urls (case r of SetDaemonUrl u \<Rightarrow> u | _ \<Rightarrow> url) rs"
  by (cases r) simp_all

lemma agl_run_requests:
  assumes "\<And>h. c_init curl h"
  shows "requests (agl_run curl parse rs p) = rev (asked_urls (daemon_url p) rs) @ requests p"
proof (induction rs arbitrary: p)
  case Nil
  show ?case by (simp add: agl_run_def)
next
  case (Cons r rs)
  let ?q = "snd (handle_agl curl parse r p)"
  have "agl_run curl parse (r # rs) p = agl_run curl parse rs ?q"
    by (simp add: agl_run_def)
  moreover have "daemon_url ?q = (case r of SetDaemonUrl u \<Rightarrow> u | _ \<Rightarrow> daemon_url p)"
    by (simp add: handle_agl_state fetchJson_state split: agl_request.split)
  moreover have "requests ?q =
      rev (case path_of r of Some path \<Rightarrow> [c_str (daemon_url p @ path)] | None \<Rightarrow> []) @ requests p"
    by (simp add: handle_agl_state fetchJson_state assms split: agl_request.split option.split)
  ultimately show ?case
    by (simp add: Cons.IH asked_urls_Cons)
qed


text \<open>A daemon that answers every request with the same text.\<close>

definition steady_curl :: "string list \<Rightarrow> curl_lib" where
  "steady_curl chunks = \<lparr>c_init = (\<lambda>_. True), c_perform = (\<lambda>_. (0, chunks))\<rparr>"


end
