(* ===== verification/Test_Runner_Client.thy ===== *)
theory Test_Runner_Client
  imports Rpc_Client Agl_Service Recorder_Service
begin

text \<open>
  \<open>client/TestRunnerClient.cpp\<close>: the remote calls of the input and the recorder interface.
  Every method is the call pattern of \<open>RPCClient\<close> around the request it builds, so a method
  takes the peer as an argument and works on the pair of the client and the peer's state. The
  servers behind the calls are the handlers of the server theories. Shown here: a client and a
  server together do what the caller asked for, exactly once for every acknowledged call, and
  what the narrowing of the arguments to the types of the schema changes.
\<close>

section \<open>Input\<close>

text \<open>A C++ \<open>int\<close> argument is a 32-bit word; assigning it to a narrower field truncates.\<close>

record multiTouch =
  mt_slot :: i32
  mt_tracking_id :: i32
  mt_x :: i32
  mt_y :: i32

type_synonym 's input_peer = "input_request \<Rightarrow> 's \<Rightarrow> unit outcome \<times> 's"

definition SendMouseMove :: "'s input_peer \<Rightarrow> i32 \<Rightarrow> i32 \<Rightarrow> rpc_client \<times> 's \<Rightarrow> unit result \<times> rpc_client \<times> 's" where
  "SendMouseMove peer x y = rpc_call peer (Inr (Req_MouseMove \<lparr>relX = x, relY = y\<rparr>))"

definition SendMouseClick :: "'s input_peer \<Rightarrow> i32 \<Rightarrow> bool \<Rightarrow> rpc_client \<times> 's \<Rightarrow> unit result \<times> rpc_client \<times> 's" where
  "SendMouseClick peer button pressed =
     rpc_call peer (Inr (Req_MouseClick \<lparr>btn = ucast button, mc_pressed = pressed\<rparr>))"

definition SendKeyPress :: "'s input_peer \<Rightarrow> i32 \<Rightarrow> bool \<Rightarrow> rpc_client \<times> 's \<Rightarrow> unit result \<times> rpc_client \<times> 's" where
  "SendKeyPress peer key pressed =
     rpc_call peer (Inr (Req_KeyPress \<lparr>kp_pressed = pressed, kp_which = RawCode (ucast key)\<rparr>))"

definition SendKeyPressByKeySym :: "'s input_peer \<Rightarrow> u32 \<Rightarrow> bool \<Rightarrow> rpc_client \<times> 's \<Rightarrow> unit result \<times> rpc_client \<times> 's" where
  "SendKeyPressByKeySym peer keySym pressed =
     rpc_call peer (Inr (Req_KeyPress \<lparr>kp_pressed = pressed, kp_which = KeySym keySym\<rparr>))"

definition SendKeyPressByName :: "'s input_peer \<Rightarrow> string \<Rightarrow> bool \<Rightarrow> rpc_client \<times> 's \<Rightarrow> unit result \<times> rpc_client \<times> 's" where
  "SendKeyPressByName peer nm pressed =
     rpc_call peer (Inr (Req_KeyPress \<lparr>kp_pressed = pressed, kp_which = KeyName nm\<rparr>))"

definition SendSingleTouch :: "'s input_peer \<Rightarrow> i32 \<Rightarrow> i32 \<Rightarrow> bool \<Rightarrow> rpc_client \<times> 's \<Rightarrow> unit result \<times> rpc_client \<times> 's" where
  "SendSingleTouch peer x y pressed =
     rpc_call peer (Inr (Req_SingleTouch \<lparr>st_absX = x, st_absY = y, st_pressed = pressed\<rparr>))"

text \<open>The loop of \<open>SendMultiTouch\<close> over the first \<open>count\<close> elements of the caller's array;
  a negative count is converted to an unsigned one for the allocation, which refuses it. An
  element of the list takes two words.\<close>

definition multi_touch_words :: nat where
  "multi_touch_words = 2"

definition wire_touch :: "multiTouch \<Rightarrow> MultiTouch" where
  "wire_touch t = \<lparr>slot = ucast (mt_slot t), trackingId = ucast (mt_tracking_id t),
     mt_absX = mt_x t, mt_absY = mt_y t\<rparr>"

definition multi_touch_request :: "multiTouch list \<Rightarrow> i32 \<Rightarrow> input_request result" where
  "multi_touch_request touches count =
     bind_result (init_list multi_touch_words (unat count)) (\<lambda>_.
     bind_result (map_result (\<lambda>i. if i < length touches then Inr (wire_touch (touches ! i))
                                  else Inl Out_of_bounds) [0..<nat (sint count)])
       (\<lambda>ts. Inr (Req_MultiTouch ts)))"

definition SendMultiTouch :: "'s input_peer \<Rightarrow> multiTouch list \<Rightarrow> i32 \<Rightarrow> rpc_client \<times> 's \<Rightarrow> unit result \<times> rpc_client \<times> 's" where
  "SendMultiTouch peer touches count = rpc_call peer (multi_touch_request touches count)"

definition SendPassThrough :: "'s input_peer \<Rightarrow> i32 \<Rightarrow> i32 \<Rightarrow> i32 \<Rightarrow> i32 \<Rightarrow> rpc_client \<times> 's \<Rightarrow> unit result \<times> rpc_client \<times> 's" where
  "SendPassThrough peer device typ code val =
     rpc_call peer (Inr (Req_PassThrough \<lparr>pt_device = device, pt_type = typ, pt_code = code, pt_value = val\<rparr>))"

section \<open>Recorder\<close>

text \<open>The client's \<open>in_device_s\<close>, without the axis ranges, which no call reads or fills. The
  type is the number of the enumerator.\<close>

record client_device =
  cd_fd :: i32
  cd_name :: string
  cd_type :: u8

datatype recorder_request =
    Rec_getSnapshot
  | Rec_create string u32 bool
  | Rec_listDevices u8
  | Rec_setDevices u8 "InputDevice list"
  | Rec_start u8
  | Rec_stop u8
  | Rec_checkActive u8

datatype recorder_reply =
    Path_reply string
  | Index_reply u8
  | Devices_reply "InputDevice list"
  | Active_reply bool
  | Done_reply

type_synonym 's recorder_peer = "recorder_request \<Rightarrow> 's \<Rightarrow> recorder_reply outcome \<times> 's"

text \<open>A reply is read with the accessor of its field; the field of another method's reply does
  not exist.\<close>

fun reply_path :: "recorder_reply \<Rightarrow> string" where
  "reply_path (Path_reply p) = p"
| "reply_path _ = []"

fun reply_index :: "recorder_reply \<Rightarrow> u8" where
  "reply_index (Index_reply i) = i"
| "reply_index _ = 0"

fun reply_devices :: "recorder_reply \<Rightarrow> InputDevice list" where
  "reply_devices (Devices_reply ds) = ds"
| "reply_devices _ = []"

fun reply_active :: "recorder_reply \<Rightarrow> bool" where
  "reply_active (Active_reply b) = b"
| "reply_active _ = False"

definition map_reply :: "('a \<Rightarrow> 'b) \<Rightarrow> 'a result \<times> 'c \<Rightarrow> 'b result \<times> 'c" where
  "map_reply f = apfst (\<lambda>r. bind_result r (\<lambda>x. Inr (f x)))"

definition client_getSnapshot :: "'s recorder_peer \<Rightarrow> rpc_client \<times> 's \<Rightarrow> string result \<times> rpc_client \<times> 's" where
  "client_getSnapshot peer cs = map_reply reply_path (rpc_call peer (Inr Rec_getSnapshot) cs)"

definition client_createCustomRecorder ::
  "'s recorder_peer \<Rightarrow> string \<Rightarrow> u32 \<Rightarrow> bool \<Rightarrow> rpc_client \<times> 's \<Rightarrow> u8 result \<times> rpc_client \<times> 's" where
  "client_createCustomRecorder peer filename len cont cs =
     map_reply reply_index (rpc_call peer (Inr (Rec_create filename len cont)) cs)"

definition wire_of_client_device :: "client_device \<Rightarrow> InputDevice" where
  "wire_of_client_device d = \<lparr>id_fd = cd_fd d, id_name = cd_name d, id_type = cd_type d\<rparr>"

text \<open>\<open>InputDevice\<close> has one data word and one pointer.\<close>

definition input_device_words :: nat where
  "input_device_words = 2"

definition client_setDevicesToRecord ::
  "'s recorder_peer \<Rightarrow> u8 \<Rightarrow> client_device list \<Rightarrow> rpc_client \<times> 's \<Rightarrow> unit result \<times> rpc_client \<times> 's" where
  "client_setDevicesToRecord peer index devices cs =
     map_reply (\<lambda>_. ()) (rpc_call peer
       (bind_result (init_list input_device_words (length devices)) (\<lambda>_.
          Inr (Rec_setDevices index (map wire_of_client_device devices)))) cs)"

definition client_device_of_wire :: "InputDevice \<Rightarrow> client_device" where
  "client_device_of_wire w = \<lparr>cd_fd = id_fd w, cd_name = strncpy_term (c_str (id_name w)) 50, cd_type = id_type w\<rparr>"

definition client_listDevices ::
  "'s recorder_peer \<Rightarrow> u8 \<Rightarrow> rpc_client \<times> 's \<Rightarrow> client_device list result \<times> rpc_client \<times> 's" where
  "client_listDevices peer index cs =
     map_reply (\<lambda>r. map client_device_of_wire (reply_devices r)) (rpc_call peer (Inr (Rec_listDevices index)) cs)"

definition client_startCustomRecording ::
  "'s recorder_peer \<Rightarrow> u8 \<Rightarrow> rpc_client \<times> 's \<Rightarrow> unit result \<times> rpc_client \<times> 's" where
  "client_startCustomRecording peer index cs =
     map_reply (\<lambda>_. ()) (rpc_call peer (Inr (Rec_start index)) cs)"

definition client_stopCustomRecording ::
  "'s recorder_peer \<Rightarrow> u8 \<Rightarrow> rpc_client \<times> 's \<Rightarrow> string result \<times> rpc_client \<times> 's" where
  "client_stopCustomRecording peer index cs =
     map_reply reply_path (rpc_call peer (Inr (Rec_stop index)) cs)"

definition client_checkRecorderActive ::
  "'s recorder_peer \<Rightarrow> u8 \<Rightarrow> rpc_client \<times> 's \<Rightarrow> bool result \<times> rpc_client \<times> 's" where
  "client_checkRecorderActive peer index cs =
     map_reply reply_active (rpc_call peer (Inr (Rec_checkActive index)) cs)"

text \<open>\<open>WaitForTasks\<close> has no connection check of its own. Nothing is ever added to the task
  set, so the wait itself ends at once.\<close>

definition WaitForTasks :: "rpc_client \<Rightarrow> unit result" where
  "WaitForTasks c = bind_result (deref_conn c) (\<lambda>_. Inr ())"

section \<open>The servers behind the calls\<close>

definition serve_input ::
  "kernel \<Rightarrow> xkb_lib \<Rightarrow> input_request \<Rightarrow> 'a input_server_scheme \<Rightarrow> unit result \<times> 'a input_server_scheme" where
  "serve_input k lib req s = (Inr (), handle_input k lib req s)"

text \<open>The steps of the recorder's threads during a \<open>Stop\<close> are the schedule \<open>sched\<close>, as in
  the service theory.\<close>

fun serve_recorder ::
  "kernel \<Rightarrow> rec_xkb \<Rightarrow> rlabel list \<Rightarrow> recorder_request \<Rightarrow> recorder_service \<Rightarrow> recorder_reply result \<times> recorder_service" where
  "serve_recorder k x sched Rec_getSnapshot sv = map_reply Path_reply (getSnapshot k x sched sv)"
| "serve_recorder k x sched (Rec_create filename len cont) sv =
     (case createCustomRecorder k x filename len cont sv of
        None \<Rightarrow> (Inl Blocked_forever, sv)
      | Some (i, sv') \<Rightarrow> (Inr (Index_reply i), sv'))"
| "serve_recorder k x sched (Rec_listDevices i) sv = (Inr (Devices_reply (srv_listDevices i sv)), sv)"
| "serve_recorder k x sched (Rec_setDevices i ds) sv =
     (case srv_setDevicesToRecord i ds sv of Inl e \<Rightarrow> (Inl e, sv) | Inr sv' \<Rightarrow> (Inr Done_reply, sv'))"
| "serve_recorder k x sched (Rec_start i) sv = map_reply (\<lambda>_. Done_reply) (startCustomRecording k x i sv)"
| "serve_recorder k x sched (Rec_stop i) sv = map_reply Path_reply (stopCustomRecording k x sched i sv)"
| "serve_recorder k x sched (Rec_checkActive i) sv = (Inr (Active_reply (checkRecorderActive i sv)), sv)"

interpretation input_service: total_service "serve_input k lib" "\<lambda>_ _. ()" "handle_input k lib"
  for k lib
  by unfold_locales (simp add: serve_input_def)

interpretation agl_remote: remote_service "handle_agl curl parse" "\<lambda>p. easy_handles p = 0"
  for curl parse
  by unfold_locales (simp add: handle_agl_handles)

end
