(* ===== verification/Client_Properties.thy ===== *)
theory Client_Properties
  imports Test_Runner_Client
begin

text \<open>
  The client and the servers together: the life of a connection, sessions of input calls over an
  unreliable network, the arguments a multi-touch call accepts, and the device list a client
  receives and sends back.
\<close>

section \<open>Sessions of input calls\<close>

datatype input_call =
    Call_mouse_move i32 i32
  | Call_mouse_click i32 bool
  | Call_key_press i32 bool
  | Call_key_sym u32 bool
  | Call_key_name string bool
  | Call_single_touch i32 i32 bool
  | Call_multi_touch "multiTouch list" i32
  | Call_pass_through i32 i32 i32 i32

fun send_call :: "'s input_peer \<Rightarrow> input_call \<Rightarrow> rpc_client \<times> 's \<Rightarrow> unit result \<times> rpc_client \<times> 's" where
  "send_call peer (Call_mouse_move x y) = SendMouseMove peer x y"
| "send_call peer (Call_mouse_click b pressed) = SendMouseClick peer b pressed"
| "send_call peer (Call_key_press key pressed) = SendKeyPress peer key pressed"
| "send_call peer (Call_key_sym ks pressed) = SendKeyPressByKeySym peer ks pressed"
| "send_call peer (Call_key_name nm pressed) = SendKeyPressByName peer nm pressed"
| "send_call peer (Call_single_touch x y pressed) = SendSingleTouch peer x y pressed"
| "send_call peer (Call_multi_touch ts count) = SendMultiTouch peer ts count"
| "send_call peer (Call_pass_through d t c v) = SendPassThrough peer d t c v"

text \<open>What a call means, at the width of the schema's fields.\<close>

fun request_of :: "input_call \<Rightarrow> input_request result" where
  "request_of (Call_mouse_move x y) = Inr (Req_MouseMove \<lparr>relX = x, relY = y\<rparr>)"
| "request_of (Call_mouse_click b pressed) = Inr (Req_MouseClick \<lparr>btn = ucast b, mc_pressed = pressed\<rparr>)"
| "request_of (Call_key_press key pressed) =
     Inr (Req_KeyPress \<lparr>kp_pressed = pressed, kp_which = RawCode (ucast key)\<rparr>)"
| "request_of (Call_key_sym ks pressed) = Inr (Req_KeyPress \<lparr>kp_pressed = pressed, kp_which = KeySym ks\<rparr>)"
| "request_of (Call_key_name nm pressed) = Inr (Req_KeyPress \<lparr>kp_pressed = pressed, kp_which = KeyName nm\<rparr>)"
| "request_of (Call_single_touch x y pressed) =
     Inr (Req_SingleTouch \<lparr>st_absX = x, st_absY = y, st_pressed = pressed\<rparr>)"
| "request_of (Call_multi_touch ts count) =
     (if sint count < 0
      then Inl (Kj_exception ''tried to allocate list with too many elements'')
      else if 2 ^ 28 \<le> unat count
      then Inl (Kj_exception
             (if 2 ^ 29 \<le> unat count then ''tried to allocate list with too many elements''
              else ''total size of struct list is larger than max segment size''))
      else if length ts < unat count then Inl Out_of_bounds
      else Inr (Req_MultiTouch (map wire_touch (take (unat count) ts))))"
| "request_of (Call_pass_through d t c v) =
     Inr (Req_PassThrough \<lparr>pt_device = d, pt_type = t, pt_code = c, pt_value = v\<rparr>)"

fun input_session ::
  "kernel \<Rightarrow> xkb_lib \<Rightarrow> (fate \<times> input_call) list \<Rightarrow> rpc_client \<times> 'a input_server_scheme \<Rightarrow>
     unit result list \<times> rpc_client \<times> 'a input_server_scheme" where
  "input_session k lib [] cs = ([], cs)"
| "input_session k lib ((f, call) # calls) cs =
     (case send_call (deliver (serve_input k lib) f) call cs of (r, cs') \<Rightarrow>
        (case input_session k lib calls cs' of (rs, cs'') \<Rightarrow> (r # rs, cs'')))"

section \<open>Building the requests\<close>

lemma map_result_error:
  assumes "f x = Inl e" "\<forall>y \<in> set xs. \<exists>z. f y = Inr z"
  shows "map_result f (xs @ x # ys) = Inl e"
  using assms(2) by (induction xs) (auto simp: assms(1))

lemma init_touch_list:
  "init_list multi_touch_words n =
     (if 2 ^ 28 \<le> n mod 2 ^ 32
      then Inl (Kj_exception
             (if 2 ^ 29 \<le> n mod 2 ^ 32 then ''tried to allocate list with too many elements''
              else ''total size of struct list is larger than max segment size''))
      else Inr (n mod 2 ^ 32))"
  by (auto simp: init_list_def multi_touch_words_def Let_def)

lemma touch_loop:
  "map_result (\<lambda>i. if i < length ts then Inr (wire_touch (ts ! i)) else Inl Out_of_bounds) [0..<n] =
     (if n \<le> length ts then Inr (map wire_touch (take n ts)) else Inl Out_of_bounds)"
proof (cases "n \<le> length ts")
  case True
  then have "map_result (\<lambda>i. if i < length ts then Inr (wire_touch (ts ! i)) else Inl Out_of_bounds) [0..<n] =
      Inr (map (\<lambda>i. wire_touch (ts ! i)) [0..<n])"
    unfolding map_result_Inr_iff by (auto simp: list_all2_conv_all_nth)
  also have "map (\<lambda>i. wire_touch (ts ! i)) [0..<n] = map wire_touch (take n ts)"
    using True by (auto intro: nth_equalityI)
  finally show ?thesis using True by simp
next
  case False
  then have "[0..<n] = [0..<length ts] @ length ts # [Suc (length ts)..<n]"
    using upt_add_eq_append [of 0 "length ts" "n - length ts"] by (simp add: upt_conv_Cons)
  with False show ?thesis by (simp add: map_result_error)
qed

lemma uint_32_bounds: "0 \<le> uint (w :: 32 word)" "uint (w :: 32 word) < 2 ^ 32"
  using unsigned_less [of w, where ?'a = int] by simp_all

lemma sint_32_of_int: "- (2 ^ 31) \<le> i \<Longrightarrow> i < 2 ^ 31 \<Longrightarrow> sint (word_of_int i :: 32 word) = i"
  by (simp only: sint_sbintrunc') (simp add: signed_take_bit_int_eq_self)

lemma sint_32_cases: "sint (w :: 32 word) = (if uint w < 2 ^ 31 then uint w else uint w - 2 ^ 32)"
proof (cases "uint w < 2 ^ 31")
  case True
  have "- (2 ^ 31) \<le> uint w" by (rule order_trans [OF _ uint_32_bounds(1)]) simp
  from sint_32_of_int [OF this True] True show ?thesis by simp
next
  case False
  have "- (2 ^ 31) \<le> uint w - 2 ^ 32" "uint w - 2 ^ 32 < 2 ^ 31"
    using uint_32_bounds(2) [of w] False by simp_all
  moreover have "(word_of_int (uint w - 2 ^ 32) :: 32 word) = w"
    by (simp add: word_of_int_eq_iff)
  ultimately show ?thesis using sint_32_of_int [of "uint w - 2 ^ 32"] False by metis
qed

lemma unat_32_bound: "unat (w :: 32 word) < 2 ^ 32"
  using unsigned_less [of w, where ?'a = nat] by simp

lemma sint_32_neg: "sint (w :: 32 word) < 0 \<longleftrightarrow> 2 ^ 31 \<le> unat w"
  using uint_32_bounds [of w] of_nat_le_iff [of "2 ^ 31" "unat w", where ?'a = int]
  by (auto simp: sint_32_cases not_less)

lemma nat_sint_32: "nat (sint (w :: 32 word)) = (if sint w < 0 then 0 else unat w)"
  using uint_32_bounds [of w] unfolding sint_32_cases unat_eq_nat_uint by simp

lemma multi_touch_request_of: "multi_touch_request ts count = request_of (Call_multi_touch ts count)"
  using unat_32_bound [of count]
  by (simp add: multi_touch_request_def init_touch_list touch_loop nat_sint_32 sint_32_neg)

section \<open>Sessions\<close>

lemma send_call_request: "send_call peer call = rpc_call peer (request_of call)"
  by (cases call)
    (simp_all only: send_call.simps SendMouseMove_def SendMouseClick_def SendKeyPress_def
      SendKeyPressByKeySym_def SendKeyPressByName_def SendSingleTouch_def SendMultiTouch_def
      SendPassThrough_def multi_touch_request_of request_of.simps(1-6,8))

lemma input_session_rpc:
  "input_session k lib calls cs = rpc_session (serve_input k lib) (map (apsnd request_of) calls) cs"
proof (induction calls arbitrary: cs)
  case (Cons call calls)
  then show ?case by (cases call) (simp add: send_call_request split: prod.split)
qed simp

lemma connected_session:
  assumes "client_sys.reachable c" "isConnected c"
  shows "snd (snd (input_session k lib calls (c, s))) =
      fold (handle_input k lib) (served (map (apsnd request_of) calls)) s"
    and "map ok_result (fst (input_session k lib calls (c, s))) = acknowledged (map (apsnd request_of) calls)"
  using input_service.session_exact [OF client_reachable_inv [OF assms(1)] assms(2), where k = k and
      lib = lib and calls = "map (apsnd request_of) calls" and s = s]
  by (simp_all add: input_session_rpc)

text \<open>A client that has connected to the default port.\<close>

definition desk_client :: rpc_client where
  "desk_client = snd (Connect (\<lambda>_. Inr ()) ''localhost:4004'' (new_client False))"

lemma desk_client_reachable: "client_sys.reachable desk_client"
proof -
  have "client_step (new_client False) (L_connect ''localhost:4004'' (Inr ())) desk_client"
    by (simp add: client_step_iff client_exec_def desk_client_def)
  then show ?thesis
    unfolding client_sys.reachable_def client_init_def
    by (intro exI [of _ "new_client False"] exI conjI) (auto intro: client_sys.run_singleton)
qed

lemma desk_client_connected [simp]: "isConnected desk_client"
  by (simp add: desk_client_def Connect_def new_client_def)

text \<open>C4: End to end over an unreliable network: for any sequence of input calls a connected client
  makes against a freshly constructed server, whatever happens to each message, the virtual
  devices receive exactly the packets of the calls that reached the server, each once and in the
  order of the calls, where the first loss of the connection ends the effect of the sequence; a
  call returns normally exactly when its request was built, it was delivered and the reply came
  back in time.\<close>

theorem client_server_end_to_end:
  fixes s0 :: input_server
  assumes "kernel_ok k" and "hist s0 = []" and "m_xkb_keymap s0 = None"
    and "client_sys.reachable c" and "isConnected c"
    and "input_session k lib calls (c, construct_input k lib getenv cfg s0) = (rs, c', s')"
  shows "abs_streams s' =
      fold (spec_input lib (configured_keymap lib getenv cfg)) (served (map (apsnd request_of) calls)) (\<lambda>_. []) \<and>
    map ok_result rs = acknowledged (map (apsnd request_of) calls)"
proof -
  let ?s = "construct_input k lib getenv cfg s0"
  have "s' = fold (handle_input k lib) (served (map (apsnd request_of) calls)) ?s"
    and "map ok_result rs = acknowledged (map (apsnd request_of) calls)"
    using connected_session [OF assms(4,5), where k = k and lib = lib and calls = calls and s = ?s]
      assms(6) by simp_all
  then show ?thesis using construct_run_refines [OF assms(1-3)] by simp
qed

theorem client_server_end_to_end_witness:
  "\<exists>rs c' s'. input_session counting_kernel no_xkb
       [(Delivered, Call_key_press 30 True), (Late True, Call_key_press 30 False), (Lost_request, Call_mouse_move 1 1),
        (Delivered, Call_mouse_move 2 2)]
       (desk_client, construct_input counting_kernel no_xkb (\<lambda>_. None) empty_cfg blank_server) = (rs, c', s') \<and>
     abs_streams s' VIRTUAL_KEYBOARD =
       [mk_event EV_KEY 30 1, syn_report, mk_event EV_KEY 30 0, syn_report] \<and>
     abs_streams s' VIRTUAL_MOUSE = [] \<and> map ok_result rs = [True, False, False, False]"
proof -
  let ?calls = "[(Delivered, Call_key_press 30 True), (Late True, Call_key_press 30 False),
    (Lost_request, Call_mouse_move 1 1), (Delivered, Call_mouse_move 2 2)]"
  obtain rs c' s' where run: "input_session counting_kernel no_xkb ?calls
      (desk_client, construct_input counting_kernel no_xkb (\<lambda>_. None) empty_cfg blank_server) = (rs, c', s')"
    by (metis surj_pair)
  show ?thesis
    using client_server_end_to_end [OF counting_kernel_ok _ _ desk_client_reachable desk_client_connected run] run
    by (simp add: blank_server_def spec_input_def packet_events_def syn_report_def del: input_session.simps)
qed

section \<open>Multi-touch arguments\<close>

definition client_touch_values :: "multiTouch \<Rightarrow> int \<times> int \<times> int \<times> int" where
  "client_touch_values t = (sint (mt_slot t), sint (mt_tracking_id t), sint (mt_x t), sint (mt_y t))"

definition wire_touch_values :: "MultiTouch \<Rightarrow> int \<times> int \<times> int \<times> int" where
  "wire_touch_values t = (sint (slot t), sint (trackingId t), sint (mt_absX t), sint (mt_absY t))"

definition touch_fits :: "multiTouch \<Rightarrow> bool" where
  "touch_fits t \<longleftrightarrow> - (2 ^ 7) \<le> sint (mt_slot t) \<and> sint (mt_slot t) < 2 ^ 7 \<and>
     - (2 ^ 15) \<le> sint (mt_tracking_id t) \<and> sint (mt_tracking_id t) < 2 ^ 15"

lemma sint_narrow_8:
  assumes "- (2 ^ 7) \<le> sint (w :: 32 word)" "sint w < 2 ^ 7"
  shows "sint (ucast w :: 8 word) = sint w"
proof -
  have "(ucast w :: 8 word) = word_of_int (sint w)"
    by (rule bit_word_eqI) (simp add: bit_simps)
  then show ?thesis using assms by (simp only: sint_sbintrunc') (simp add: signed_take_bit_int_eq_self)
qed

lemma sint_narrow_16:
  assumes "- (2 ^ 15) \<le> sint (w :: 32 word)" "sint w < 2 ^ 15"
  shows "sint (ucast w :: 16 word) = sint w"
proof -
  have "(ucast w :: 16 word) = word_of_int (sint w)"
    by (rule bit_word_eqI) (simp add: bit_simps)
  then show ?thesis using assms by (simp only: sint_sbintrunc') (simp add: signed_take_bit_int_eq_self)
qed

lemma wire_touch_fits: "touch_fits t \<Longrightarrow> wire_touch_values (wire_touch t) = client_touch_values t"
  by (simp add: touch_fits_def wire_touch_values_def wire_touch_def client_touch_values_def
      sint_narrow_8 sint_narrow_16)

lemma wire_touch_unfit_slot:
  "wire_touch_values (wire_touch \<lparr>mt_slot = 256, mt_tracking_id = 1, mt_x = 0, mt_y = 0\<rparr>) = (0, 1, 0, 0)"
  by (simp add: wire_touch_values_def wire_touch_def)

text \<open>C33: A multi-touch call takes the first \<open>count\<close> elements of the caller's array: when they exist
  and their slots and tracking identifiers fit the schema's 8 and 16 bits, a delivered call makes
  the server handle a list with exactly the given numbers in the given order; a negative count
  is refused with an exception on the client, and nothing is sent.\<close>

theorem send_multi_touch_exact:
  assumes "client_sys.reachable c" and "isConnected c"
  shows "(sint count < 0 \<longrightarrow>
      SendMultiTouch (deliver (serve_input k lib) f) ts count (c, s) =
        (Inl (Kj_exception ''tried to allocate list with too many elements''), c, s)) \<and>
    (0 \<le> sint count \<and> unat count \<le> length ts \<and> unat count < 2 ^ 28 \<and>
     list_all touch_fits (take (unat count) ts) \<longrightarrow>
      (\<exists>req. SendMultiTouch (deliver (serve_input k lib) Delivered) ts count (c, s) =
          (Inr (), c, handleMultiTouch k req s) \<and>
        map wire_touch_values req = map client_touch_values (take (unat count) ts)))"
proof (intro conjI impI)
  note inv = client_reachable_inv [OF assms(1)]
  assume "sint count < 0"
  then show "SendMultiTouch (deliver (serve_input k lib) f) ts count (c, s) =
      (Inl (Kj_exception ''tried to allocate list with too many elements''), c, s)"
    unfolding SendMultiTouch_def multi_touch_request_of request_of.simps
    by (simp add: rpc_call_failed_request [OF inv assms(2)])
next
  assume fits: "0 \<le> sint count \<and> unat count \<le> length ts \<and> unat count < 2 ^ 28 \<and>
    list_all touch_fits (take (unat count) ts)"
  let ?req = "map wire_touch (take (unat count) ts)"
  have "multi_touch_request ts count = Inr (Req_MultiTouch ?req)"
    using fits unfolding multi_touch_request_of request_of.simps by simp
  then have "SendMultiTouch (deliver (serve_input k lib) Delivered) ts count (c, s) =
      (Inr (), c, handleMultiTouch k ?req s)"
    using input_service.call_kept [OF client_reachable_inv [OF assms(1)] assms(2), where f = Delivered
        and k = k and lib = lib and req = "Req_MultiTouch ?req" and s = s]
    by (simp add: SendMultiTouch_def)
  moreover have "map wire_touch_values ?req = map client_touch_values (take (unat count) ts)"
    using fits by (auto simp: list_all_iff wire_touch_fits)
  ultimately show "\<exists>req. SendMultiTouch (deliver (serve_input k lib) Delivered) ts count (c, s) =
      (Inr (), c, handleMultiTouch k req s) \<and>
      map wire_touch_values req = map client_touch_values (take (unat count) ts)" by blast
qed

theorem send_multi_touch_exact_witness:
  "SendMultiTouch (deliver (serve_input counting_kernel no_xkb) Delivered) [] (- 1) (desk_client, blank_server) =
     (Inl (Kj_exception ''tried to allocate list with too many elements''), desk_client, blank_server) \<and>
   (\<exists>req. SendMultiTouch (deliver (serve_input counting_kernel no_xkb) Delivered)
        [\<lparr>mt_slot = 0, mt_tracking_id = 7, mt_x = 100, mt_y = 200\<rparr>] 1 (desk_client, blank_server) =
      (Inr (), desk_client, handleMultiTouch counting_kernel req blank_server) \<and>
      map wire_touch_values req = [(0, 7, 100, 200)])"
  using send_multi_touch_exact [OF desk_client_reachable desk_client_connected, of "- 1" counting_kernel no_xkb
      Delivered "[]" blank_server]
    send_multi_touch_exact [OF desk_client_reachable desk_client_connected, of 1 counting_kernel no_xkb
      Delivered "[\<lparr>mt_slot = 0, mt_tracking_id = 7, mt_x = 100, mt_y = 200\<rparr>]" blank_server]
  by (simp add: touch_fits_def client_touch_values_def)

section \<open>The connection\<close>

text \<open>C18: In every reachable state of a client, the flag \<open>isConnected\<close> says exactly whether there
  is a connection, so no remote call dereferences the null connection, whatever its request and
  whatever the network does. \<open>WaitForTasks\<close>, which does not test the flag, dereferences it
  exactly when the client is not connected.\<close>

theorem connection_never_null:
  assumes "client_sys.reachable c"
  shows "(isConnected c \<longleftrightarrow> conn c \<noteq> None) \<and>
    fst (rpc_call peer (Inr req) (c, s)) \<noteq> Inl Null_dereference \<and>
    (WaitForTasks c = Inl Null_dereference \<longleftrightarrow> \<not> isConnected c)"
  using client_reachable_inv [OF assms] rpc_call_no_null [OF client_reachable_inv [OF assms], of peer req s]
  by (auto simp: conn_inv_def WaitForTasks_def deref_conn_def split: option.split)

theorem connection_never_null_witness:
  "(isConnected desk_client \<longleftrightarrow> conn desk_client \<noteq> None) \<and>
    fst (rpc_call (\<lambda>_ s. (Disconnected :: unit outcome, s)) (Inr ()) (desk_client, ())) \<noteq> Inl Null_dereference \<and>
    (WaitForTasks desk_client = Inl Null_dereference \<longleftrightarrow> \<not> isConnected desk_client)"
  by (rule connection_never_null [OF desk_client_reachable])

text \<open>C28: The life of a connection: while a client is connected, another \<open>Connect\<close> always throws
  (the thread has its event loop already) and changes nothing; a call that times out or that the
  server answers with an exception keeps the connection; a call that loses the connection leaves
  the client unconnected, after which every call is refused without reaching the server until a
  \<open>Connect\<close> to a reachable address, which then succeeds.\<close>

theorem connection_lifecycle:
  assumes "client_sys.reachable c" and "isConnected c"
    and "rpc_call peer (Inr req) (c, s) = (r, c', s')"
  shows "Connect net ip c = (Inl (Kj_exception ''This thread already has an EventLoop.''), c) \<and>
    (fst (peer req s) \<noteq> Disconnected \<longrightarrow> c' = c) \<and>
    (fst (peer req s) = Disconnected \<longrightarrow> r = Inl Kj_disconnected \<and>
       rpc_call peer request (c', s') = (Inl (Kj_exception ''Not connected to Test Runner server''), c', s') \<and>
       (net ip = Inr () \<longrightarrow> fst (Connect net ip c') = Inr () \<and> isConnected (snd (Connect net ip c'))))"
  using assms client_reachable_inv [OF assms(1)]
  by (auto simp: rpc_call_connected waitWithTimeout_def Connect_def conn_inv_def reset_conn_def
      rpc_call_not_connected split: prod.splits outcome.splits)

theorem connection_lifecycle_witness:
  "let c = desk_client; lost = (\<lambda>_ s. (Disconnected :: unit outcome, s)); reach = (\<lambda>_. Inr ()) in
   \<exists>r c' s'. rpc_call lost (Inr ()) (c, ()) = (r, c', s') \<and>
     Connect reach ''h'' c = (Inl (Kj_exception ''This thread already has an EventLoop.''), c) \<and>
     r = Inl Kj_disconnected \<and>
     rpc_call lost (Inr ()) (c', s') = (Inl (Kj_exception ''Not connected to Test Runner server''), c', s') \<and>
     isConnected (snd (Connect reach ''h'' c'))"
proof -
  let ?lost = "\<lambda>_ s. (Disconnected :: unit outcome, s)"
  obtain r c' s' where call: "rpc_call ?lost (Inr ()) (desk_client, ()) = (r, c', s')"
    by (metis surj_pair)
  show ?thesis
    using connection_lifecycle [OF desk_client_reachable desk_client_connected call, of "\<lambda>_. Inr ()" "''h''" "Inr ()"] call
    by simp
qed

section \<open>The device list\<close>

lemma client_device_wire:
  assumes "device_ok d"
  shows "wire_of_client_device (client_device_of_wire (wire_of_device d)) = wire_of_device d"
proof -
  have "c_str (dev_name d) = dev_name d"
    using assms by (auto simp: c_str_def device_ok_def takeWhile_eq_all_conv)
  then show ?thesis
    using assms by (simp add: wire_of_client_device_def client_device_of_wire_def wire_of_device_def
        device_ok_def strncpy_term_fits)
qed

lemma recorder_delivered:
  assumes "client_sys.reachable c" "isConnected c" "serve_recorder k x sched req sv = (Inr rep, sv')"
  shows "rpc_call (deliver (serve_recorder k x sched) Delivered) (Inr req) (c, sv) = (Inr rep, c, sv')"
  using assms(3) by (simp add: rpc_call_connected [OF client_reachable_inv [OF assms(1)] assms(2)] waitWithTimeout_def)

text \<open>C24: A client can send back the device list it has received: with at most 64 devices,
  \<open>listDevices\<close> returns their descriptors and names, and \<open>setDevicesToRecord\<close> with that list
  succeeds and makes the recorder monitor all of its devices.\<close>

theorem client_list_then_set:
  assumes "client_sys.reachable c" and "isConnected c"
    and "unat i < length (custom_recorders sv)" and "ds = available_devices (rst (custom_recorders sv ! unat i))"
    and "length ds \<le> 64" and "list_all (\<lambda>d. device_ok d \<and> in_int32 (dev_fd d)) ds"
  shows "\<exists>cds sv'. client_listDevices (deliver (serve_recorder k x sched) Delivered) i (c, sv) = (Inr cds, c, sv) \<and>
    map (\<lambda>d. (sint (cd_fd d), cd_name d)) cds = map (\<lambda>d. (dev_fd d, dev_name d)) ds \<and>
    client_setDevicesToRecord (deliver (serve_recorder k x sched) Delivered) i cds (c, sv) = (Inr (), c, sv') \<and>
    select_devices (m_device_mask (rst (custom_recorders sv' ! unat i))) 0
      (available_devices (rst (custom_recorders sv' ! unat i))) = Inr ds"
proof -
  let ?wire = "srv_listDevices i sv"
  let ?cds = "map client_device_of_wire ?wire"
  have wire: "?wire = map wire_of_device ds"
    using assms(3,4) by (simp add: srv_listDevices_def listDevices_def)
  have resent: "map wire_of_client_device ?cds = ?wire"
    using assms(6) by (simp add: wire list_all_iff client_device_wire)
  obtain sv' where set: "srv_setDevicesToRecord i ?wire sv = Inr sv'"
    "select_devices (m_device_mask (rst (custom_recorders sv' ! unat i))) 0
      (available_devices (rst (custom_recorders sv' ! unat i))) = Inr ds"
    using set_listed_devices [OF assms(3-6)] by blast
  have alloc: "init_list input_device_words (length ?cds) = Inr (length ?cds)"
    using assms(5) by (simp add: wire init_list_def input_device_words_def Let_def)
  have "client_listDevices (deliver (serve_recorder k x sched) Delivered) i (c, sv) = (Inr ?cds, c, sv)"
    by (simp add: client_listDevices_def map_reply_def recorder_delivered [OF assms(1,2)])
  moreover have "client_setDevicesToRecord (deliver (serve_recorder k x sched) Delivered) i ?cds (c, sv) =
      (Inr (), c, sv')"
    using recorder_delivered [OF assms(1,2), of k x sched "Rec_setDevices i ?wire" sv Done_reply sv'] set(1)
    unfolding client_setDevicesToRecord_def alloc by (simp only: bind_result_simps resent) (simp add: map_reply_def)
  moreover have "map (\<lambda>d. (sint (cd_fd d), cd_name d)) ?cds = map (\<lambda>d. (dev_fd d, dev_name d)) ds"
  proof -
    have "(sint (cd_fd (client_device_of_wire (wire_of_device d))), cd_name (client_device_of_wire (wire_of_device d))) =
        (dev_fd d, dev_name d)" if "d \<in> set ds" for d
      using arg_cong [OF device_of_wire_of_device [of d], of dev_fd]
        arg_cong [OF device_of_wire_of_device [of d], of dev_name] assms(6) that
      by (simp add: list_all_iff client_device_of_wire_def device_of_wire_def)
    then show ?thesis by (simp add: wire)
  qed
  ultimately show ?thesis using set(2) by blast
qed

theorem client_list_then_set_witness:
  "\<exists>cds sv'. client_listDevices (deliver (serve_recorder counting_kernel blind_xkb []) Delivered) 0
       (desk_client, one_device_service) = (Inr cds, desk_client, one_device_service) \<and>
    map (\<lambda>d. (sint (cd_fd d), cd_name d)) cds = [(7, ''keys'')] \<and>
    client_setDevicesToRecord (deliver (serve_recorder counting_kernel blind_xkb []) Delivered) 0 cds
       (desk_client, one_device_service) = (Inr (), desk_client, sv') \<and>
    select_devices (m_device_mask (rst (custom_recorders sv' ! 0))) 0
      (available_devices (rst (custom_recorders sv' ! 0))) =
      Inr [\<lparr>dev_fd = 7, dev_name = ''keys'', dev_type = KEYBOARD, abs_range_x = zero_absinfo,
        abs_range_y = zero_absinfo\<rparr>]"
  using client_list_then_set [OF desk_client_reachable desk_client_connected, of 0 one_device_service _
      counting_kernel blind_xkb "[]"]
  by (simp add: one_device_service_def rmach_init_def device_ok_def in_int32_def)

end
