(* ===== verification/Weston_Screenshooter.thy ===== *)
theory Weston_Screenshooter
  imports Client_Properties "HOL-Library.Multiset"
begin

text \<open>
  The screenshot plugin, \<open>plugins/weston_screenshooter\<close>: the listeners of the Wayland client,
  \<open>capture\<close> with every early exit, the remote method and the client's call. The compositor,
  libwayland and the memory calls are the parameter \<open>w\<close>: which globals and output events
  arrive in the two round trips and in each dispatch, which calls fail, and what the shared
  memory holds when it is read. Every resource the code obtains and gives back is recorded, so
  that its discipline can be stated.
\<close>

section \<open>The compositor and the system\<close>

text \<open>An object of the Wayland client library is a number; an event names the object it is for.\<close>

datatype wl_event =
    Global u32 string u32
  | Global_remove u32
  | Output_geometry nat "string option"
  | Output_mode nat u32 i32 i32
  | Output_done nat
  | Output_scale nat i32
  | Shoot_done

datatype resource = Display | Proxy nat | Fd int | Mapping

datatype act = Acquire resource | Release resource | Shoot "nat option" "nat option"

record wayland =
  w_connect :: bool
  w_globals :: "wl_event list"
  w_flush :: "wl_event list"
  w_dispatch :: "nat \<Rightarrow> wl_event list option"
  w_bind :: "act list \<Rightarrow> bool"
  w_buffer :: bool
  w_memfd :: int
  w_ftruncate :: int
  w_mmap :: bool
  w_shm_byte :: "nat \<Rightarrow> u8"

section \<open>Capture state\<close>

record ScreenshotResult =
  imageData :: "u8 list"
  img_width :: u32
  img_height :: u32
  error :: string

definition no_result :: ScreenshotResult where
  "no_result = \<lparr>imageData = [], img_width = 0, img_height = 0, error = []\<rparr>"

record OutputInfo =
  o_output :: "nat option"
  model :: string
  o_width :: i32
  o_height :: i32

record CaptureState =
  shooter :: "nat option"
  shm :: "nat option"
  outputs :: "OutputInfo list"
  finished :: bool
  acts :: "act list"

definition acquire :: "resource \<Rightarrow> CaptureState \<Rightarrow> CaptureState" where
  "acquire r s = s\<lparr>acts := Acquire r # acts s\<rparr>"

definition release :: "resource \<Rightarrow> CaptureState \<Rightarrow> CaptureState" where
  "release r s = s\<lparr>acts := Release r # acts s\<rparr>"

text \<open>\<open>wl_registry_bind\<close>: a new object, or null when \<open>w_bind\<close> says so. The new object is
  named by the position of its creation in the trace.\<close>

definition bind_global :: "wayland \<Rightarrow> CaptureState \<Rightarrow> nat option \<times> CaptureState" where
  "bind_global w s =
     (if w_bind w (acts s) then (let p = length (acts s) in (Some p, acquire (Proxy p) s)) else (None, s))"

section \<open>Listeners\<close>

text \<open>\<open>find_output_info\<close> with the update its callers make: the first entry for the object.\<close>

fun update_output :: "nat \<Rightarrow> (OutputInfo \<Rightarrow> OutputInfo) \<Rightarrow> OutputInfo list \<Rightarrow> OutputInfo list" where
  "update_output p f [] = []"
| "update_output p f (o1 # os) = (if o_output o1 = Some p then f o1 # os else o1 # update_output p f os)"

definition on_output_geometry :: "nat \<Rightarrow> string option \<Rightarrow> CaptureState \<Rightarrow> CaptureState" where
  "on_output_geometry p mdl s =
     s\<lparr>outputs := update_output p (\<lambda>x. x\<lparr>model := (case mdl of Some m \<Rightarrow> m | None \<Rightarrow> [])\<rparr>) (outputs s)\<rparr>"

unbundle bit_operations_syntax

definition WL_OUTPUT_MODE_CURRENT :: u32 where
  "WL_OUTPUT_MODE_CURRENT = 1"

definition on_output_mode :: "nat \<Rightarrow> u32 \<Rightarrow> i32 \<Rightarrow> i32 \<Rightarrow> CaptureState \<Rightarrow> CaptureState" where
  "on_output_mode p flags wd ht s =
     (if flags AND WL_OUTPUT_MODE_CURRENT \<noteq> 0
      then s\<lparr>outputs := update_output p (\<lambda>x. x\<lparr>o_width := wd, o_height := ht\<rparr>) (outputs s)\<rparr> else s)"

text \<open>Adding a listener to a null output dereferences it. The version the output is bound with is
  at most 3; nothing else depends on it.\<close>

definition on_registry_global :: "wayland \<Rightarrow> string \<Rightarrow> CaptureState \<Rightarrow> CaptureState result" where
  "on_registry_global w iface s =
     (if iface = ''weston_screenshooter'' then
        (case bind_global w s of (p, s') \<Rightarrow> Inr (s'\<lparr>shooter := p\<rparr>))
      else if iface = ''wl_shm'' then
        (case bind_global w s of (p, s') \<Rightarrow> Inr (s'\<lparr>shm := p\<rparr>))
      else if iface = ''wl_output'' then
        (case bind_global w s of (p, s') \<Rightarrow>
           (case p of
              None \<Rightarrow> Inl Null_dereference
            | Some _ \<Rightarrow> Inr (s'\<lparr>outputs := outputs s' @
                [\<lparr>o_output = p, model = [], o_width = 0, o_height = 0\<rparr>]\<rparr>)))
      else Inr s)"

definition on_shoot_done :: "CaptureState \<Rightarrow> CaptureState" where
  "on_shoot_done s = s\<lparr>finished := True\<rparr>"

fun handle_event :: "wayland \<Rightarrow> wl_event \<Rightarrow> CaptureState \<Rightarrow> CaptureState result" where
  "handle_event w (Global nm iface version) s = on_registry_global w iface s"
| "handle_event w (Global_remove nm) s = Inr s"
| "handle_event w (Output_geometry p mdl) s = Inr (on_output_geometry p mdl s)"
| "handle_event w (Output_mode p flags wd ht) s = Inr (on_output_mode p flags wd ht s)"
| "handle_event w (Output_done p) s = Inr s"
| "handle_event w (Output_scale p f) s = Inr s"
| "handle_event w Shoot_done s = Inr (on_shoot_done s)"

fun handle_events :: "wayland \<Rightarrow> wl_event list \<Rightarrow> CaptureState \<Rightarrow> CaptureState result" where
  "handle_events w [] s = Inr s"
| "handle_events w (e # es) s = bind_result (handle_event w e s) (handle_events w es)"

section \<open>Capture\<close>

text \<open>The output to capture: the first whose model is DP-1, otherwise the first.\<close>

definition select_output :: "OutputInfo list \<Rightarrow> OutputInfo option" where
  "select_output os =
     (case List.find (\<lambda>x. model x = ''DP-1'') os of
        Some x \<Rightarrow> Some x
      | None \<Rightarrow> (case os of [] \<Rightarrow> None | x # _ \<Rightarrow> Some x))"

text \<open>The loop \<open>while (!s.finished && wl_display_dispatch(s.display) != -1)\<close>; it may not end,
  and then has no value.\<close>

partial_function (option) dispatch_loop ::
  "wayland \<Rightarrow> nat \<Rightarrow> CaptureState \<Rightarrow> CaptureState result option" where
  "dispatch_loop w n s =
     (if finished s then Some (Inr s)
      else case w_dispatch w n of
             None \<Rightarrow> Some (Inr s)
           | Some es \<Rightarrow>
               (case handle_events w es s of
                  Inl e \<Rightarrow> Some (Inl e)
                | Inr s' \<Rightarrow> dispatch_loop w (Suc n) s'))"

text \<open>The part behind the label \<open>cleanup\<close>.\<close>

definition destroy_opt :: "nat option \<Rightarrow> CaptureState \<Rightarrow> CaptureState" where
  "destroy_opt p s = (case p of None \<Rightarrow> s | Some q \<Rightarrow> release (Proxy q) s)"

definition cleanup :: "nat \<Rightarrow> CaptureState \<Rightarrow> CaptureState" where
  "cleanup registry s =
     (let s1 = fold (\<lambda>x. destroy_opt (o_output x)) (outputs s) s;
          s2 = destroy_opt (shm s1) s1;
          s3 = destroy_opt (shooter s2) s2;
          s4 = release (Proxy registry) s3
      in release Display s4)"

text \<open>The request \<open>shoot\<close> of the protocol, marshalled with the output and the buffer.\<close>

definition weston_screenshooter_shoot :: "nat option \<Rightarrow> nat option \<Rightarrow> CaptureState \<Rightarrow> CaptureState" where
  [simp]: "weston_screenshooter_shoot out buffer s = s\<lparr>acts := Shoot out buffer # acts s\<rparr>"

text \<open>From the creation of the shared memory to its release: the block after the selection. The
  size of the pool is passed as an \<open>int32_t\<close>, so it wraps. A null buffer is passed on and not
  destroyed.\<close>

definition shoot_output ::
  "wayland \<Rightarrow> OutputInfo \<Rightarrow> CaptureState \<Rightarrow> (ScreenshotResult \<times> CaptureState) result option" where
  "shoot_output w sel s =
     (let wd = o_width sel; ht = o_height sel in
      if \<not> in_int32 (sint wd * 4) then Some (Inl Signed_overflow)
      else
        let size = nat (sint wd * 4) * nat (sint ht) in
        if w_memfd w < 0 then Some (Inr (no_result\<lparr>error := ''memfd_create failed''\<rparr>, s))
        else
          let s1 = acquire (Fd (w_memfd w)) s in
          if w_ftruncate w < 0
          then Some (Inr (no_result\<lparr>error := ''ftruncate failed''\<rparr>, release (Fd (w_memfd w)) s1))
          else if \<not> w_mmap w
          then Some (Inr (no_result\<lparr>error := ''mmap failed''\<rparr>, release (Fd (w_memfd w)) s1))
          else
            let s2 = acquire Mapping s1;
                pool = length (acts s2);
                s3 = acquire (Proxy pool) s2;
                buffer = (if w_buffer w then Some (length (acts s3)) else None);
                s4 = (case buffer of None \<Rightarrow> s3 | Some b \<Rightarrow> acquire (Proxy b) s3);
                s5 = release (Proxy pool) s4;
                s6 = release (Fd (w_memfd w)) s5;
                s7 = weston_screenshooter_shoot (o_output sel) buffer s6
            in (case dispatch_loop w 0 s7 of
                  None \<Rightarrow> None
                | Some (Inl e) \<Rightarrow> Some (Inl e)
                | Some (Inr s8) \<Rightarrow>
                    let res = \<lparr>imageData = map (w_shm_byte w) [0..<size], img_width = wd,
                               img_height = ht, error = []\<rparr>;
                        s9 = destroy_opt buffer s8
                    in Some (Inr (res, release Mapping s9))))"

definition no_display_error :: string where
  "no_display_error =
     ''wl_display_connect failed '' @ [CHR 0xE2, CHR 0x80, CHR 0x94] @ '' is WAYLAND_DISPLAY set?''"

definition capture :: "wayland \<Rightarrow> (ScreenshotResult \<times> CaptureState) result option" where
  "capture w =
     (let s0 = \<lparr>shooter = None, shm = None, outputs = [], finished = False, acts = []\<rparr> in
      if \<not> w_connect w
      then Some (Inr (no_result\<lparr>error := no_display_error\<rparr>, s0))
      else
        let s1 = acquire Display s0;
            registry = length (acts s1);
            s2 = acquire (Proxy registry) s1;
            finish = (\<lambda>(res, s). (res, cleanup registry s))
        in case bind_result (handle_events w (w_globals w) s2) (handle_events w (w_flush w)) of
             Inl e \<Rightarrow> Some (Inl e)
           | Inr s \<Rightarrow>
               if shooter s = None
               then Some (Inr (finish (no_result\<lparr>error := ''weston_screenshooter global not found''\<rparr>, s)))
               else if shm s = None
               then Some (Inr (finish (no_result\<lparr>error := ''wl_shm global not found''\<rparr>, s)))
               else (case select_output (outputs s) of
                       None \<Rightarrow> Some (Inr (finish (no_result\<lparr>error := ''no wl_output found''\<rparr>, s)))
                     | Some sel \<Rightarrow>
                         if sint (o_width sel) \<le> 0 \<or> sint (o_height sel) \<le> 0
                         then Some (Inr (finish (no_result\<lparr>error := ''wl_output dimensions not received''\<rparr>, s)))
                         else (case shoot_output w sel s of
                                 None \<Rightarrow> None
                               | Some (Inl e) \<Rightarrow> Some (Inl e)
                               | Some (Inr rs) \<Rightarrow> Some (Inr (finish rs)))))"

section \<open>The remote method and the client's call\<close>

record screenshot_reply =
  r_imageData :: "u8 list"
  r_width :: u32
  r_height :: u32

text \<open>The setter \<open>setImageData\<close> of the results is \<open>setDataPointer\<close> of the vendored Cap'n Proto
  (\<open>layout.c++\<close>): a blob whose size does not fit 29 bits is refused with an exception, which
  leaves \<open>takeScreenshot\<close> and answers the call.\<close>

definition setImageData :: "u8 list \<Rightarrow> u8 list result" where
  "setImageData bytes =
     (if length bytes > 2 ^ 29 - 1 then Inl (Kj_exception ''text blob too big'') else Inr bytes)"

definition takeScreenshot :: "wayland \<Rightarrow> screenshot_reply result" where
  "takeScreenshot w =
     (case capture w of
        None \<Rightarrow> Inl Blocked_forever
      | Some (Inl e) \<Rightarrow> Inl e
      | Some (Inr (res, s)) \<Rightarrow>
          if error res \<noteq> [] then Inl (Kj_exception (error res))
          else bind_result (setImageData (imageData res))
            (\<lambda>bytes. Inr \<lparr>r_imageData = bytes, r_width = img_width res, r_height = img_height res\<rparr>))"

definition serve_screenshot :: "unit \<Rightarrow> wayland \<Rightarrow> screenshot_reply result \<times> wayland" where
  "serve_screenshot _ w = (takeScreenshot w, w)"

definition client_TakeScreenshot ::
  "(unit \<Rightarrow> 's \<Rightarrow> screenshot_reply outcome \<times> 's) \<Rightarrow> rpc_client \<times> 's \<Rightarrow>
     ScreenshotResult result \<times> rpc_client \<times> 's" where
  "client_TakeScreenshot peer cs =
     map_reply (\<lambda>r. \<lparr>imageData = r_imageData r, img_width = r_width r, img_height = r_height r, error = []\<rparr>)
       (rpc_call peer (Inr ()) cs)"

end
