(* ===== verification/Test_Runner_Server.thy ===== *)
theory Test_Runner_Server
  imports Service_Properties Weston_Screenshooter
begin

text \<open>
  The server as a whole: \<open>TestRunnerServer\<close> of \<open>server/TestRunnerServer.cpp\<close> implements
  \<open>TestRunnerService\<close> of \<open>capnp/test_runner_server.capnp\<close>, which extends the input, the recorder
  and the plugin interfaces; the plugins are base classes of the server (\<open>plugins/plugins.h\<close>,
  \<open>plugins/plugins.capnp\<close>). All handlers run on the one thread of the RPC event loop: a
  handler that never returns blocks every later request, and undefined behaviour or
  \<open>std::terminate\<close>, in a handler or in a thread of a recorder, ends the process; an exception of a
  handler only goes back to its caller.
\<close>

section \<open>Requests and replies\<close>

datatype service_request =
    Input_request input_request
  | Recorder_request recorder_request
  | Agl_request agl_request
  | TakeScreenshot

datatype service_reply =
    Input_reply
  | Recorder_reply recorder_reply
  | Agl_reply agl_reply
  | Screenshot_reply screenshot_reply

text \<open>The world around the server: the kernel, libxkbcommon for the server and for the recorders, the
  environment variables, libcurl, the JSON parser, and the compositor at the \<open>n\<close>-th screenshot.\<close>

record environment =
  e_kernel :: kernel
  e_lib :: xkb_lib
  e_rec_xkb :: rec_xkb
  e_getenv :: "string \<Rightarrow> string option"
  e_curl :: curl_lib
  e_parse :: "string \<Rightarrow> json result"
  e_wayland :: "nat \<Rightarrow> wayland"

text \<open>The parts of the server object; \<open>shots\<close> counts the screenshots taken.\<close>

record server_object =
  input_part :: input_server
  recorder_part :: recorder_service
  agl_part :: agl_plugin
  shots :: nat

datatype status = Serving | Hung | Dead cxx_error

record server =
  obj :: server_object
  status :: status

section \<open>Construction\<close>

text \<open>\<open>init_plugins\<close> has an empty body; the AGL plugin starts with its default address.\<close>

definition init_plugins :: "'a \<Rightarrow> 'a" where
  "init_plugins s = s"

text \<open>The state of a server object before its constructor runs.\<close>

definition raw_input :: input_server where
  "raw_input = \<lparr>hist = [], errs = [], mDeviceFd = [], m_xkb_ctx = False, m_xkb_keymap = None\<rparr>"

definition construct_server :: "environment \<Rightarrow> bool \<Rightarrow> bool \<Rightarrow> XkbConfig \<Rightarrow> server_object option" where
  "construct_server E enable_plugins enable_snapshot_recorder xkb_cfg =
     (let s = construct_input (e_kernel E) (e_lib E) (e_getenv E) xkb_cfg raw_input
      in case construct_service (e_kernel E) (e_rec_xkb E) enable_snapshot_recorder of
           None \<Rightarrow> None
         | Some sv \<Rightarrow>
             let object = \<lparr>input_part = s, recorder_part = sv, agl_part = construct_agl default_daemon_url, shots = 0\<rparr>
             in Some (if enable_plugins then init_plugins object else object))"

section \<open>Serving\<close>

fun handle_request ::
  "environment \<Rightarrow> rlabel list \<Rightarrow> service_request \<Rightarrow> server_object \<Rightarrow> service_reply result \<times> server_object" where
  "handle_request E sched (Input_request r) s =
     (case serve_input (e_kernel E) (e_lib E) r (input_part s) of (rep, i) \<Rightarrow>
        (bind_result rep (\<lambda>_. Inr Input_reply), s\<lparr>input_part := i\<rparr>))"
| "handle_request E sched (Recorder_request r) s =
     (case serve_recorder (e_kernel E) (e_rec_xkb E) sched r (recorder_part s) of (rep, sv) \<Rightarrow>
        (bind_result rep (\<lambda>q. Inr (Recorder_reply q)), s\<lparr>recorder_part := sv\<rparr>))"
| "handle_request E sched (Agl_request r) s =
     (case handle_agl (e_curl E) (e_parse E) r (agl_part s) of (rep, p) \<Rightarrow>
        (bind_result rep (\<lambda>q. Inr (Agl_reply q)), s\<lparr>agl_part := p\<rparr>))"
| "handle_request E sched TakeScreenshot s =
     (bind_result (takeScreenshot (e_wayland E (shots s))) (\<lambda>q. Inr (Screenshot_reply q)),
      s\<lparr>shots := Suc (shots s)\<rparr>)"

text \<open>What an error of a handler does to the process.\<close>

fun error_status :: "cxx_error \<Rightarrow> status" where
  "error_status Blocked_forever = Hung"
| "error_status (Json_type_error n) = Serving"
| "error_status (Json_out_of_range n) = Serving"
| "error_status Json_parse_error = Serving"
| "error_status (Kj_exception msg) = Serving"
| "error_status Kj_disconnected = Serving"
| "error_status System_error = Serving"
| "error_status e = Dead e"

definition result_status :: "'a result \<Rightarrow> status" where
  "result_status r = (case r of Inr _ \<Rightarrow> Serving | Inl e \<Rightarrow> error_status e)"

definition serve_request ::
  "environment \<Rightarrow> rlabel list \<Rightarrow> service_request \<Rightarrow> server \<Rightarrow> service_reply result \<times> server" where
  "serve_request E sched req s =
     (case status s of
        Serving \<Rightarrow> (case handle_request E sched req (obj s) of (r, s') \<Rightarrow>
                      (r, \<lparr>obj = s', status = result_status r\<rparr>))
      | Hung \<Rightarrow> (Inl Blocked_forever, s)
      | Dead e \<Rightarrow> (Inl e, s))"

text \<open>A step of a thread of a recorder: the snapshot recorder or the custom recorder \<open>j\<close>.\<close>

datatype thread_id = Snapshot_thread | Custom_thread nat

definition thread_status :: "rmach \<Rightarrow> status \<Rightarrow> status" where
  "thread_status m st = (case death m of Some e \<Rightarrow> Dead e | None \<Rightarrow> st)"

fun thread_step :: "environment \<Rightarrow> thread_id \<Rightarrow> rlabel \<Rightarrow> recorder_service \<Rightarrow> (rmach \<times> recorder_service) option" where
  "thread_step E Snapshot_thread l sv =
     (case snapshot_recorder sv of
        None \<Rightarrow> None
      | Some m \<Rightarrow> (case rec_exec (e_kernel E) (e_rec_xkb E) l m of
            None \<Rightarrow> None | Some m' \<Rightarrow> Some (m', sv\<lparr>snapshot_recorder := Some m'\<rparr>)))"
| "thread_step E (Custom_thread j) l sv =
     (if j < length (custom_recorders sv)
      then (case rec_exec (e_kernel E) (e_rec_xkb E) l (custom_recorders sv ! j) of
              None \<Rightarrow> None
            | Some m' \<Rightarrow> Some (m', sv\<lparr>custom_recorders := (custom_recorders sv)[j := m']\<rparr>))
      else None)"

text \<open>The threads end with the process. While a handler is blocked the threads of other recorders go on;
  those of the recorder it waits for have made their steps in the schedule of the call.\<close>

datatype server_label = Sl_call "rlabel list" service_request | Sl_thread thread_id rlabel

fun server_exec :: "environment \<Rightarrow> server_label \<Rightarrow> server \<Rightarrow> server option" where
  "server_exec E (Sl_call sched req) s = Some (snd (serve_request E sched req s))"
| "server_exec E (Sl_thread t l) s =
     (if thread_label l \<and> (status s = Serving \<or> status s = Hung)
      then (case thread_step E t l (recorder_part (obj s)) of
              None \<Rightarrow> None
            | Some (m', sv) \<Rightarrow>
                if status s = Hung \<and> mpc m' \<in> {Main_stopping, Main_joining} then None
                else Some \<lparr>obj = (obj s)\<lparr>recorder_part := sv\<rparr>, status = thread_status m' (status s)\<rparr>)
      else None)"

inductive server_step :: "environment \<Rightarrow> server \<Rightarrow> server_label \<Rightarrow> server \<Rightarrow> bool" for E :: environment where
  server_step: "server_exec E l s = Some s' \<Longrightarrow> server_step E s l s'"

inductive_simps server_step_iff: "server_step E s l s'"

definition server_init :: "environment \<Rightarrow> bool \<Rightarrow> bool \<Rightarrow> XkbConfig \<Rightarrow> server \<Rightarrow> bool" where
  "server_init E plugins snap cfg s \<longleftrightarrow>
     (\<exists>s0. construct_server E plugins snap cfg = Some s0 \<and> s = \<lparr>obj = s0, status = Serving\<rparr>)"

interpretation server_sys: transition_system "server_init E plugins snap cfg" "server_step E"
  for E plugins snap cfg .

end
