(* ===== verification/Handler_Errors.thy ===== *)
theory Handler_Errors
  imports Weston_Screenshooter
begin

text \<open>
  How the handlers of the plugins can fail. Whatever document the health daemon sends, filling a
  reply from it either succeeds, throws an exception that goes back to the caller, or converts a
  floating-point number that does not fit its field; no access is out of bounds. A capture fails
  beyond its error text only when the compositor refuses to bind an output or announces a width whose
  row size overflows.
\<close>

section \<open>Results with restricted errors\<close>

definition only_errors :: "(cxx_error \<Rightarrow> bool) \<Rightarrow> 'a result \<Rightarrow> bool" where
  "only_errors P r \<longleftrightarrow> (case r of Inl e \<Rightarrow> P e | Inr _ \<Rightarrow> True)"

lemma only_errors_simps [simp]: "only_errors P (Inr x)" "only_errors P (Inl e) = P e"
  by (simp_all add: only_errors_def)

lemma only_errors_bind [intro!]:
  "only_errors P r \<Longrightarrow> (\<And>x. r = Inr x \<Longrightarrow> only_errors P (f x)) \<Longrightarrow> only_errors P (bind_result r f)"
  by (cases r) simp_all

lemma only_errors_map_result:
  "(\<And>x. x \<in> set xs \<Longrightarrow> only_errors P (f x)) \<Longrightarrow> only_errors P (map_result f xs)"
  by (induction xs) auto

section \<open>Documents\<close>

text \<open>The errors a document can cause.\<close>

fun document_error :: "cxx_error \<Rightarrow> bool" where
  "document_error (Json_type_error n) = True"
| "document_error (Json_out_of_range n) = True"
| "document_error Json_parse_error = True"
| "document_error (Kj_exception msg) = True"
| "document_error Float_conversion = True"
| "document_error e = False"

abbreviation document_safe :: "'a result \<Rightarrow> bool" where
  "document_safe \<equiv> only_errors document_error"

named_theorems document_intros

lemma unsigned_of_double_safe [simp]: "document_safe (unsigned_of_double q)"
  by (simp add: unsigned_of_double_def)

lemma get_safe [document_intros]:
  "document_safe (get_number_unsigned d)" "document_safe (get_double d)" "document_safe (get_string d)"
  "document_safe (get_arithmetic d)"
  by (cases d; simp)+

lemma json_value_safe: "(\<And>v. document_safe (conv v)) \<Longrightarrow> document_safe (json_value conv d k dflt)"
  by (simp add: json_value_def split: option.split)

lemma value_safe [document_intros]:
  "document_safe (value_u64 d k a)" "document_safe (value_u32 d k b)" "document_safe (value_double d k q)"
  "document_safe (value_string d k s)"
  by (rule json_value_safe, rule get_safe)+

lemma json_at_safe [document_intros]: "document_safe (json_at d k)"
  by (simp add: json_at_def split: option.split)

lemma init_list_safe [document_intros]: "document_safe (init_list words n)"
  by (simp add: init_list_def Let_def)

lemma json_index_safe: "i < json_size d \<Longrightarrow> document_safe (json_index d i)"
  by (cases d) simp_all

lemma fill_list_safe:
  assumes "\<And>d. document_safe (fill d)"
  shows "document_safe (fill_list fill n arr)"
  unfolding fill_list_def
  by (rule only_errors_map_result) (auto intro!: json_index_safe simp: assms)

section \<open>The handlers of the health plugin\<close>

lemma fill_memory_safe [document_intros]: "document_safe (fill_memory j)"
  unfolding fill_memory_def by (intro only_errors_bind document_intros) simp

lemma fill_core_safe [document_intros]: "document_safe (fill_core j)"
  unfolding fill_core_def by (intro only_errors_bind document_intros) simp

lemma fill_cores_safe [document_intros]: "document_safe (fill_list fill_core n arr)"
  by (intro fill_list_safe document_intros)

lemma fill_cpu_safe [document_intros]: "document_safe (fill_cpu j)"
  unfolding fill_cpu_def by (intro only_errors_bind document_intros) simp

lemma comm_bytes_safe [document_intros]: "document_safe (comm_bytes bs)"
  by (induction bs) (auto intro: get_safe)

lemma fill_comm_safe [document_intros]: "document_safe (fill_comm p)"
proof (cases "json_contains p ''comm'' \<and> (case json_key p ''comm'' of Inr v \<Rightarrow> is_array v | Inl _ \<Rightarrow> False)")
  case True
  then obtain v where "json_key p ''comm'' = Inr v" using json_key_contains by blast
  with True show ?thesis by (simp add: fill_comm_def comm_bytes_safe)
next
  case False
  then have "fill_comm p = value_string p ''comm'' []" unfolding fill_comm_def by (rule if_not_P)
  then show ?thesis by (simp add: value_safe)
qed

lemma fill_process_safe [document_intros]: "document_safe (fill_process j)"
  unfolding fill_process_def by (intro only_errors_bind document_intros) simp

lemma fill_processes_safe [document_intros]: "document_safe (fill_processes n arr)"
  unfolding fill_processes_def by (intro fill_list_safe document_intros)

lemma fill_iface_safe [document_intros]: "document_safe (fill_iface j)"
  unfolding fill_iface_def by (intro only_errors_bind document_intros) simp

lemma fill_ifaces_safe [document_intros]: "document_safe (fill_list fill_iface n arr)"
  by (intro fill_list_safe document_intros)

lemma fill_tcp_safe [document_intros]: "document_safe (fill_tcp j)"
  unfolding fill_tcp_def by (intro only_errors_bind document_intros) simp

lemma fill_network_safe [document_intros]: "document_safe (fill_network j)"
  unfolding fill_network_def by (intro only_errors_bind document_intros) simp

lemma fill_security_safe [document_intros]: "document_safe (fill_security j)"
  unfolding fill_security_def by (intro only_errors_bind document_intros) simp

lemma get_bucket_safe [document_intros]: "document_safe (get_bucket b i)"
  by (auto simp: get_bucket_def intro!: json_index_safe get_safe)

lemma fill_buckets_safe [document_intros]: "document_safe (fill_buckets b)"
  unfolding fill_buckets_def by (intro only_errors_bind document_intros) simp

lemma fill_scheduler_safe [document_intros]: "document_safe (fill_scheduler j)"
  unfolding fill_scheduler_def by (intro only_errors_bind document_intros) simp

lemma fill_metrics_safe [document_intros]: "document_safe (fill_metrics j)"
  unfolding fill_metrics_def by (intro only_errors_bind document_intros) simp

lemma fill_process_reply_safe [document_intros]: "document_safe (fill_process_reply j)"
  unfolding fill_process_reply_def by (intro only_errors_bind document_intros)

text \<open>A JSON parser that throws nothing but its own exception.\<close>

definition parser_ok :: "(string \<Rightarrow> json result) \<Rightarrow> bool" where
  "parser_ok parse \<longleftrightarrow> (\<forall>t. only_errors (\<lambda>e. e = Json_parse_error) (parse t))"

lemma query_safe:
  assumes "parser_ok parse" "\<And>d. document_safe (fill d)"
  shows "document_safe (fst (query curl parse path fill p))"
proof -
  have "document_safe (parse t)" for t
    using assms(1) by (cases "parse t") (auto simp: parser_ok_def dest: spec [of _ t])
  moreover have "document_safe (fst (fetchJson curl path p))"
    by (simp add: fetchJson_def Let_def split: prod.split)
  ultimately show ?thesis
    using assms(2) by (auto simp: query_def split: prod.split)
qed

lemma reply_with_safe: "document_safe (fst r) \<Longrightarrow> document_safe (fst (reply_with f r))"
  by (auto simp: reply_with_def)

lemma handle_agl_safe:
  assumes "parser_ok parse"
  shows "document_safe (fst (handle_agl curl parse r p))"
proof (cases r)
  case (SetDaemonUrl url)
  then show ?thesis by (simp add: reply_with_def setDaemonUrl_def)
qed (simp_all only: handle_agl.simps agl_handler_defs,
     (intro reply_with_safe query_safe [OF assms] document_intros)+)

section \<open>Captures\<close>

text \<open>A compositor whose outputs can be bound and whose widths are not absurd.\<close>

definition width_ok :: "wl_event \<Rightarrow> bool" where
  "width_ok ev = (case ev of Output_mode p flags wd ht \<Rightarrow> in_int32 (sint wd * 4) | _ \<Rightarrow> True)"

definition compositor_sane :: "wayland \<Rightarrow> bool" where
  "compositor_sane w \<longleftrightarrow> (\<forall>h. w_bind w h) \<and> list_all width_ok (w_globals w) \<and> list_all width_ok (w_flush w)"

definition widths_fit :: "CaptureState \<Rightarrow> bool" where
  "widths_fit s \<longleftrightarrow> (\<forall>x \<in> set (outputs s). in_int32 (sint (o_width x) * 4))"

lemma update_output_all:
  "\<forall>x \<in> set os. P x \<Longrightarrow> (\<And>x. P x \<Longrightarrow> P (f x)) \<Longrightarrow> \<forall>x \<in> set (update_output p f os). P x"
  by (induction os) auto

lemma handle_event_sane:
  assumes "\<forall>h. w_bind w h"
  shows "\<exists>s'. handle_event w ev s = Inr s' \<and> (width_ok ev \<and> widths_fit s \<longrightarrow> widths_fit s')"
proof (cases ev)
  case (Global nm iface version)
  have "in_int32 (sint (0 :: i32) * 4)" by (simp add: in_int32_def)
  with Global assms show ?thesis
    by (auto simp: on_registry_global_def bind_global_def acquire_def widths_fit_def Let_def)
next
  case (Output_geometry p mdl)
  then show ?thesis
    using update_output_all [where P = "\<lambda>x. in_int32 (sint (o_width x) * 4)" and os = "outputs s" and p = p
        and f = "\<lambda>x. x\<lparr>model := (case mdl of Some m \<Rightarrow> m | None \<Rightarrow> [])\<rparr>"]
    by (simp add: on_output_geometry_def widths_fit_def)
next
  case (Output_mode p flags wd ht)
  then show ?thesis
    using update_output_all [where P = "\<lambda>x. in_int32 (sint (o_width x) * 4)" and os = "outputs s" and p = p
        and f = "\<lambda>x. x\<lparr>o_width := wd, o_height := ht\<rparr>"]
    by (simp add: on_output_mode_def widths_fit_def width_ok_def)
qed (simp_all add: on_shoot_done_def widths_fit_def)

lemma handle_events_sane:
  assumes "\<forall>h. w_bind w h"
  shows "\<exists>s'. handle_events w evs s = Inr s' \<and> (list_all width_ok evs \<and> widths_fit s \<longrightarrow> widths_fit s')"
proof (induction evs arbitrary: s)
  case (Cons ev evs)
  obtain t where "handle_event w ev s = Inr t" "width_ok ev \<and> widths_fit s \<longrightarrow> widths_fit t"
    using handle_event_sane [OF assms] by blast
  with Cons.IH [of t] show ?case by auto
qed simp

lemma dispatch_loop_sane:
  assumes "dispatch_loop w n s = Some r" "\<forall>h. w_bind w h"
  shows "\<exists>s'. r = Inr s'"
proof -
  have "(\<forall>h. w_bind w h) \<longrightarrow> (\<exists>s'. r = Inr s')"
  proof (rule dispatch_loop.raw_induct [OF _ assms(1)])
    fix loop :: "wayland \<Rightarrow> nat \<Rightarrow> CaptureState \<Rightarrow> CaptureState result option" and w n s r
    assume IH: "\<And>w n s r. loop w n s = Some r \<Longrightarrow> (\<forall>h. w_bind w h) \<longrightarrow> (\<exists>s'. r = Inr s')"
      and eq: "(if finished s then Some (Inr s)
        else case w_dispatch w n of None \<Rightarrow> Some (Inr s)
          | Some es \<Rightarrow> (case handle_events w es s of Inl e \<Rightarrow> Some (Inl e) | Inr s' \<Rightarrow> loop w (Suc n) s')) = Some r"
    show "(\<forall>h. w_bind w h) \<longrightarrow> (\<exists>s'. r = Inr s')"
    proof
      assume ok: "\<forall>h. w_bind w h"
      show "\<exists>s'. r = Inr s'"
      proof (cases "finished s \<or> w_dispatch w n = None")
        case False
        then obtain es where es: "w_dispatch w n = Some es" by auto
        obtain t where "handle_events w es s = Inr t" using handle_events_sane [OF ok] by blast
        with eq es False IH ok show ?thesis by auto
      qed (use eq in \<open>auto split: if_splits\<close>)
    qed
  qed
  with assms(2) show ?thesis by blast
qed

lemma select_output_member: "select_output os = Some x \<Longrightarrow> x \<in> set os"
  by (auto simp: select_output_def find_Some_iff split: option.splits list.splits)

lemma shoot_output_sane:
  assumes "shoot_output w sel s = Some r" "\<forall>h. w_bind w h" "in_int32 (sint (o_width sel) * 4)"
  shows "\<exists>x. r = Inr x"
  using assms dispatch_loop_sane [OF _ assms(2)]
  by (fastforce simp: shoot_output_def Let_def split: if_splits option.splits sum.splits)

lemma capture_sane:
  assumes "compositor_sane w" "capture w = Some r"
  shows "\<exists>x. r = Inr x"
proof -
  have bind: "\<forall>h. w_bind w h" using assms(1) by (simp add: compositor_sane_def)
  let ?s0 = "\<lparr>shooter = None, shm = None, outputs = [], finished = False, acts = []\<rparr>"
  let ?s2 = "acquire (Proxy (length (acts (acquire Display ?s0)))) (acquire Display ?s0)"
  have fit: "widths_fit ?s2" by (simp add: widths_fit_def acquire_def)
  obtain s3 where s3: "handle_events w (w_globals w) ?s2 = Inr s3" "widths_fit s3"
    using handle_events_sane [OF bind, of "w_globals w" ?s2] fit assms(1) by (auto simp: compositor_sane_def)
  obtain s4 where s4: "handle_events w (w_flush w) s3 = Inr s4" "widths_fit s4"
    using handle_events_sane [OF bind, of "w_flush w" s3] s3(2) assms(1) by (auto simp: compositor_sane_def)
  have shoot: "\<exists>y. q = Inr y" if "select_output (outputs s4) = Some sel" "shoot_output w sel s4 = Some q" for sel q
    using shoot_output_sane [OF that(2) bind] select_output_member [OF that(1)] s4(2) by (simp add: widths_fit_def)
  show ?thesis
    using assms(2) s3(1) s4(1)
    by (auto simp: capture_def Let_def split: if_splits option.splits sum.splits dest: shoot)
qed

text \<open>A screenshot of such a compositor, when it returns, gives an image or an exception.\<close>

lemma takeScreenshot_sane:
  assumes "compositor_sane w" "capture w \<noteq> None"
  shows "(\<exists>x. takeScreenshot w = Inr x) \<or> (\<exists>msg. takeScreenshot w = Inl (Kj_exception msg))"
proof -
  obtain res s where "capture w = Some (Inr (res, s))" using assms capture_sane by fastforce
  then show ?thesis by (simp add: takeScreenshot_def setImageData_def)
qed

end
