(* ===== verification/Screenshot_Properties.thy ===== *)
theory Screenshot_Properties
  imports Weston_Screenshooter
begin

text \<open>
  What \<open>capture\<close> guarantees: on every path that returns, everything it obtained is given back,
  once, and the display last; the result has the size of the selected output; the call returns
  when the compositor answers or hangs up.
\<close>

section \<open>The resource discipline\<close>

fun live :: "act list \<Rightarrow> resource multiset" where
  "live [] = {#}"
| "live (Acquire r # h) = add_mset r (live h)"
| "live (Release r # h) = live h - {#r#}"
| "live (Shoot p b # h) = live h"

text \<open>Nothing is released that is not held, and the display only when nothing else is held.\<close>

fun clean :: "act list \<Rightarrow> bool" where
  "clean [] = True"
| "clean (Release r # h) = (r \<in># live h \<and> (r = Display \<longrightarrow> live h = {#Display#}) \<and> clean h)"
| "clean (_ # h) = clean h"

definition opt_res :: "nat option \<Rightarrow> resource multiset" where
  "opt_res p = (case p of None \<Rightarrow> {#} | Some q \<Rightarrow> {#Proxy q#})"

definition held :: "CaptureState \<Rightarrow> resource multiset" where
  "held s = opt_res (shooter s) + opt_res (shm s) + sum_list (map (\<lambda>x. opt_res (o_output x)) (outputs s))"

definition owns :: "resource multiset \<Rightarrow> CaptureState \<Rightarrow> bool" where
  "owns base s \<longleftrightarrow> clean (acts s) \<and> live (acts s) = base + held s"

lemma opt_res_simps [simp]: "opt_res None = {#}" "opt_res (Some q) = {#Proxy q#}"
  by (simp_all add: opt_res_def)

lemma field_simps [simp]:
  "shooter (acquire r s) = shooter s" "shm (acquire r s) = shm s" "outputs (acquire r s) = outputs s"
  "finished (acquire r s) = finished s" "acts (acquire r s) = Acquire r # acts s"
  "shooter (release r s) = shooter s" "shm (release r s) = shm s" "outputs (release r s) = outputs s"
  "finished (release r s) = finished s" "acts (release r s) = Release r # acts s"
  by (simp_all add: acquire_def release_def)

lemma held_cong [simp]:
  "held (acquire r s) = held s" "held (release r s) = held s" "held (s\<lparr>acts := h\<rparr>) = held s"
  by (simp_all add: held_def)

lemma owns_acquire: "owns base s \<Longrightarrow> owns (add_mset r base) (acquire r s)"
  by (simp add: owns_def)

lemma owns_release: "owns (add_mset r base) s \<Longrightarrow> r \<noteq> Display \<Longrightarrow> owns base (release r s)"
  by (simp add: owns_def)

lemma owns_shoot: "owns base s \<Longrightarrow> owns base (s\<lparr>acts := Shoot p b # acts s\<rparr>)"
  by (simp add: owns_def)

lemma owns_release_opt: "owns (opt_res p + base) s \<Longrightarrow> owns base (destroy_opt p s)"
  by (cases p) (simp_all add: destroy_opt_def owns_release)

subsection \<open>Events\<close>

fun announces :: "string \<Rightarrow> wl_event \<Rightarrow> bool" where
  "announces iface (Global nm i v) = (i = iface)"
| "announces iface _ = False"

text \<open>How often a global is announced, and whether the client can take it without dropping an
  object it holds.\<close>

definition announced :: "string \<Rightarrow> wl_event list \<Rightarrow> nat" where
  "announced iface es = length (filter (announces iface) es)"

definition room :: "nat option \<Rightarrow> nat" where
  "room p = (case p of None \<Rightarrow> 1 | Some _ \<Rightarrow> 0)"

definition allowed :: "CaptureState \<Rightarrow> wl_event list \<Rightarrow> bool" where
  "allowed s es \<longleftrightarrow> announced ''weston_screenshooter'' es \<le> room (shooter s) \<and>
     announced ''wl_shm'' es \<le> room (shm s)"

lemma update_output_held:
  assumes "\<And>x. o_output (f x) = o_output x"
  shows "map (\<lambda>x. opt_res (o_output x)) (update_output p f os) = map (\<lambda>x. opt_res (o_output x)) os"
  by (induction os) (simp_all add: assms)

lemma bind_global_owns:
  assumes "bind_global w s = (p, s')" "owns base s"
  shows "clean (acts s')" "live (acts s') = base + opt_res p + held s" "shooter s' = shooter s" "shm s' = shm s"
    "outputs s' = outputs s" "finished s' = finished s"
  using assms by (auto simp: bind_global_def Let_def owns_def split: if_splits)

lemma on_registry_global_cases:
  assumes "on_registry_global w iface s = Inr s'"
  obtains (shooter) p t where "iface = ''weston_screenshooter''" "bind_global w s = (p, t)" "s' = t\<lparr>shooter := p\<rparr>"
  | (shm) p t where "iface = ''wl_shm''" "bind_global w s = (p, t)" "s' = t\<lparr>shm := p\<rparr>"
  | (screen) p t where "iface = ''wl_output''" "bind_global w s = (Some p, t)"
      "s' = t\<lparr>outputs := outputs t @ [\<lparr>o_output = Some p, model = [], o_width = 0, o_height = 0\<rparr>]\<rparr>"
  | (other) "iface \<noteq> ''weston_screenshooter''" "iface \<noteq> ''wl_shm''" "s' = s"
  using assms unfolding on_registry_global_def
  by (cases "bind_global w s") (auto split: if_splits option.splits)

lemma on_registry_global_owns:
  assumes "on_registry_global w iface s = Inr s'" "owns base s" "allowed s (Global nm iface v # es)"
  shows "owns base s' \<and> allowed s' es"
  using assms(1)
proof (cases rule: on_registry_global_cases)
  case (shooter p t)
  then have "shooter s = None" "announced ''weston_screenshooter'' es = 0" "announced ''wl_shm'' es \<le> room (shm s)"
    using assms(3) by (auto simp: allowed_def announced_def room_def split: option.splits)
  with bind_global_owns [OF shooter(2) assms(2)] shooter(3) show ?thesis
    by (simp add: owns_def held_def allowed_def room_def split: option.split)
next
  case (shm p t)
  then have "shm s = None" "announced ''wl_shm'' es = 0" "announced ''weston_screenshooter'' es \<le> room (shooter s)"
    using assms(3) by (auto simp: allowed_def announced_def room_def split: option.splits)
  with bind_global_owns [OF shm(2) assms(2)] shm(3) show ?thesis
    by (simp add: owns_def held_def allowed_def room_def split: option.split)
next
  case (screen p t)
  with bind_global_owns [OF screen(2) assms(2)] assms(3) show ?thesis
    by (simp add: owns_def held_def allowed_def announced_def)
next
  case other
  with assms(2,3) show ?thesis by (simp add: allowed_def announced_def)
qed

lemma handle_event_owns:
  assumes "handle_event w e s = Inr s'" "owns base s" "allowed s (e # es)"
  shows "owns base s' \<and> allowed s' es"
proof (cases e)
  case (Global nm iface v)
  then show ?thesis using assms on_registry_global_owns [of w iface s s' base nm v es] by simp
next
  case (Output_mode p flags wd ht)
  then show ?thesis
    using assms by (auto simp: on_output_mode_def owns_def held_def allowed_def announced_def update_output_held)
qed (use assms in \<open>auto simp: on_output_geometry_def on_shoot_done_def owns_def held_def
      allowed_def announced_def update_output_held\<close>)

lemma handle_events_owns:
  "handle_events w es s = Inr s' \<Longrightarrow> owns base s \<Longrightarrow> allowed s (es @ fs) \<Longrightarrow> owns base s' \<and> allowed s' fs"
proof (induction es arbitrary: s)
  case (Cons e es)
  then obtain t where t: "handle_event w e s = Inr t" "handle_events w es t = Inr s'" by auto
  with handle_event_owns [OF t(1) Cons.prems(2), of "es @ fs"] Cons.prems(3) Cons.IH [OF t(2)]
  show ?case by simp
qed simp

lemma handle_events_append:
  "handle_events w (es @ fs) s = bind_result (handle_events w es s) (handle_events w fs)"
proof (induction es arbitrary: s)
  case (Cons e es)
  then show ?case by (cases "handle_event w e s") simp_all
qed simp

lemma handle_event_finished:
  assumes "handle_event w e s = Inr s'"
  shows "finished s' \<longleftrightarrow> finished s \<or> e = Shoot_done"
proof (cases e)
  case (Global nm iface v)
  then have "on_registry_global w iface s = Inr s'" using assms by simp
  then have "finished s' = finished s"
    by (cases rule: on_registry_global_cases) (auto simp: bind_global_def Let_def split: if_splits)
  with Global show ?thesis by simp
qed (use assms in \<open>auto simp: on_output_geometry_def on_output_mode_def on_shoot_done_def split: if_splits\<close>)

lemma handle_events_finished:
  "handle_events w es s = Inr s' \<Longrightarrow> finished s' \<longleftrightarrow> finished s \<or> Shoot_done \<in> set es"
proof (induction es arbitrary: s)
  case (Cons e es)
  then obtain t where t: "handle_event w e s = Inr t" "handle_events w es t = Inr s'" by auto
  from Cons.IH [OF t(2)] handle_event_finished [OF t(1)] show ?case by auto
qed simp

subsection \<open>The dispatch loop\<close>

text \<open>After the start, the two globals of which the client keeps one object are not announced
  again.\<close>

definition settled :: "wayland \<Rightarrow> bool" where
  "settled w \<longleftrightarrow> (\<forall>n es. w_dispatch w n = Some es \<longrightarrow>
     announced ''weston_screenshooter'' es = 0 \<and> announced ''wl_shm'' es = 0)"

lemma settled_allowed: "settled w \<Longrightarrow> w_dispatch w n = Some es \<Longrightarrow> allowed s es"
  by (auto simp: settled_def allowed_def)

lemma dispatch_loop_owns:
  assumes "dispatch_loop w n s = Some r"
  shows "settled w \<longrightarrow> owns base s \<longrightarrow> (\<forall>s'. r = Inr s' \<longrightarrow> owns base s')"
proof (rule dispatch_loop.raw_induct [OF _ assms])
  fix loop :: "wayland \<Rightarrow> nat \<Rightarrow> CaptureState \<Rightarrow> CaptureState result option" and w n s r
  assume IH: "\<And>w n s r. loop w n s = Some r \<Longrightarrow>
      settled w \<longrightarrow> owns base s \<longrightarrow> (\<forall>s'. r = Inr s' \<longrightarrow> owns base s')"
    and body: "(if finished s then Some (Inr s)
      else case w_dispatch w n of None \<Rightarrow> Some (Inr s)
        | Some es \<Rightarrow> (case handle_events w es s of Inl e \<Rightarrow> Some (Inl e) | Inr s' \<Rightarrow> loop w (Suc n) s')) = Some r"
  show "settled w \<longrightarrow> owns base s \<longrightarrow> (\<forall>s'. r = Inr s' \<longrightarrow> owns base s')"
  proof (intro impI)
    assume settled: "settled w" and own: "owns base s"
    have next_own: "owns base t" if "w_dispatch w n = Some es" "handle_events w es s = Inr t" for es t
      using handle_events_owns [OF that(2) own, of "[]"] settled_allowed [OF settled that(1), of s] by simp
    show "\<forall>s'. r = Inr s' \<longrightarrow> owns base s'"
      using body own next_own IH settled by (auto split: if_splits option.splits sum.splits)
  qed
qed

lemma dispatch_loop_returns:
  assumes "w_dispatch w (n + d) = None \<or> (\<exists>es. w_dispatch w (n + d) = Some es \<and> Shoot_done \<in> set es)"
  shows "\<exists>r. dispatch_loop w n s = Some r"
  using assms
proof (induction d arbitrary: n s)
  case 0
  then show ?case
    by (subst dispatch_loop.simps)
      (auto split: option.split sum.split simp: dispatch_loop.simps [of w "Suc n"] dest: handle_events_finished)
next
  case (Suc d)
  then have "\<exists>r. dispatch_loop w (Suc n) t = Some r" for t by simp
  then show ?case by (subst dispatch_loop.simps) (auto split: option.split sum.split)
qed

text \<open>A compositor that keeps dispatching and never reports the shot ends the loop only by an event that fails.\<close>

definition failing :: "wayland \<Rightarrow> bool" where
  "failing w \<longleftrightarrow> (\<exists>n es s e. w_dispatch w n = Some es \<and> handle_events w es s = Inl e)"

lemma dispatch_loop_silent:
  assumes "dispatch_loop w n s = Some r"
  shows "(\<forall>n. \<exists>es. w_dispatch w n = Some es \<and> Shoot_done \<notin> set es) \<longrightarrow> \<not> finished s \<longrightarrow> failing w"
proof (rule dispatch_loop.raw_induct [OF _ assms])
  fix loop :: "wayland \<Rightarrow> nat \<Rightarrow> CaptureState \<Rightarrow> CaptureState result option" and w n s r
  assume IH: "\<And>w n s r. loop w n s = Some r \<Longrightarrow>
      (\<forall>n. \<exists>es. w_dispatch w n = Some es \<and> Shoot_done \<notin> set es) \<longrightarrow> \<not> finished s \<longrightarrow> failing w"
    and body: "(if finished s then Some (Inr s)
      else case w_dispatch w n of None \<Rightarrow> Some (Inr s)
        | Some es \<Rightarrow> (case handle_events w es s of Inl e \<Rightarrow> Some (Inl e) | Inr s' \<Rightarrow> loop w (Suc n) s')) = Some r"
  show "(\<forall>n. \<exists>es. w_dispatch w n = Some es \<and> Shoot_done \<notin> set es) \<longrightarrow> \<not> finished s \<longrightarrow> failing w"
  proof (intro impI)
    assume silent: "\<forall>n. \<exists>es. w_dispatch w n = Some es \<and> Shoot_done \<notin> set es" and unfinished: "\<not> finished s"
    then obtain es where es: "w_dispatch w n = Some es" "Shoot_done \<notin> set es" by blast
    show "failing w"
    proof (cases "handle_events w es s")
      case (Inr t)
      then have "\<not> finished t" using handle_events_finished [OF Inr] unfinished es by simp
      with IH [of w "Suc n" t r] body silent unfinished es Inr show ?thesis by simp
    qed (use es in \<open>auto simp: failing_def\<close>)
  qed
qed

subsection \<open>The way out\<close>

lemma destroy_outputs:
  assumes "clean (acts s)" "live (acts s) = base + sum_list (map (\<lambda>x. opt_res (o_output x)) os)"
  shows "clean (acts (fold (\<lambda>x. destroy_opt (o_output x)) os s)) \<and>
    live (acts (fold (\<lambda>x. destroy_opt (o_output x)) os s)) = base \<and>
    shm (fold (\<lambda>x. destroy_opt (o_output x)) os s) = shm s \<and>
    shooter (fold (\<lambda>x. destroy_opt (o_output x)) os s) = shooter s"
  using assms
proof (induction os arbitrary: s)
  case (Cons x os)
  let ?t = "destroy_opt (o_output x) s"
  have "clean (acts ?t) \<and> live (acts ?t) = base + sum_list (map (\<lambda>x. opt_res (o_output x)) os) \<and>
      shm ?t = shm s \<and> shooter ?t = shooter s"
    using Cons.prems by (cases "o_output x") (simp_all add: destroy_opt_def)
  with Cons.IH [of ?t] show ?case by simp
qed simp

lemma cleanup_clean:
  assumes "owns {#Proxy registry, Display#} s"
  shows "clean (acts (cleanup registry s)) \<and> live (acts (cleanup registry s)) = {#}"
proof -
  let ?s1 = "fold (\<lambda>x. destroy_opt (o_output x)) (outputs s) s"
  have "clean (acts ?s1) \<and> live (acts ?s1) = {#Proxy registry, Display#} + opt_res (shooter s) + opt_res (shm s) \<and>
      shm ?s1 = shm s \<and> shooter ?s1 = shooter s"
    using assms by (intro destroy_outputs) (simp_all add: owns_def held_def ac_simps)
  then show ?thesis
    by (cases "shm s"; cases "shooter s") (simp_all add: cleanup_def Let_def destroy_opt_def)
qed

text \<open>The state before the dispatch loop: the mapping and the buffer are held beside what was
  held before.\<close>

definition shot :: "wayland \<Rightarrow> OutputInfo \<Rightarrow> CaptureState \<Rightarrow> nat option \<Rightarrow> CaptureState" where
  "shot w sel s buffer =
     (let s2 = acquire Mapping (acquire (Fd (w_memfd w)) s);
          pool = length (acts s2);
          s3 = acquire (Proxy pool) s2;
          s4 = (case buffer of None \<Rightarrow> s3 | Some b \<Rightarrow> acquire (Proxy b) s3);
          s6 = release (Fd (w_memfd w)) (release (Proxy pool) s4)
      in s6\<lparr>acts := Shoot (o_output sel) buffer # acts s6\<rparr>)"

lemma shot_owns:
  assumes "owns base s"
  shows "owns (opt_res buffer + add_mset Mapping base) (shot w sel s buffer)"
  using assms by (cases buffer) (simp_all add: shot_def owns_def Let_def ac_simps)

lemma shoot_output_cases:
  assumes "shoot_output w sel s = Some (Inr (res, s'))"
  obtains (early) "error res \<noteq> []" "imageData res = []" "img_width res = 0" "img_height res = 0"
      "s' = s \<or> s' = release (Fd (w_memfd w)) (acquire (Fd (w_memfd w)) s)"
  | (taken) buffer t where "in_int32 (sint (o_width sel) * 4)" "dispatch_loop w 0 (shot w sel s buffer) = Some (Inr t)"
      "s' = release Mapping (destroy_opt buffer t)"
      "res = \<lparr>imageData = map (w_shm_byte w) [0..<nat (sint (o_width sel) * 4) * nat (sint (o_height sel))],
         img_width = o_width sel, img_height = o_height sel, error = []\<rparr>"
proof -
  let ?buffer = "if w_buffer w then Some (Suc (Suc (Suc (length (acts s))))) else None"
  show thesis
    using assms early taken [of ?buffer] 
    by (auto simp: shoot_output_def Let_def no_result_def shot_def split: if_splits option.splits sum.splits)
qed

lemma shoot_output_owns:
  assumes "shoot_output w sel s = Some (Inr (res, s'))" "settled w" "owns base s"
  shows "owns base s'"
  using assms(1)
proof (cases rule: shoot_output_cases)
  case early
  then show ?thesis
    using assms(3) owns_release [OF owns_acquire, of base s "Fd (w_memfd w)"] by auto
next
  case (taken buffer t)
  have "owns (opt_res buffer + add_mset Mapping base) t"
    using dispatch_loop_owns [OF taken(2)] assms(2) shot_owns [OF assms(3)] by blast
  with taken(3) show ?thesis by (simp add: owns_release owns_release_opt)
qed

subsection \<open>The whole capture\<close>

text \<open>The state the two round trips leave.\<close>

definition startup :: "wayland \<Rightarrow> CaptureState result" where
  "startup w = handle_events w (w_globals w @ w_flush w)
     \<lparr>shooter = None, shm = None, outputs = [], finished = False, acts = [Acquire (Proxy 1), Acquire Display]\<rparr>"

definition announces_once :: "wayland \<Rightarrow> bool" where
  "announces_once w \<longleftrightarrow> announced ''weston_screenshooter'' (w_globals w @ w_flush w) \<le> 1 \<and>
     announced ''wl_shm'' (w_globals w @ w_flush w) \<le> 1"

lemma startup_owns:
  assumes "startup w = Inr s" "announces_once w"
  shows "owns {#Proxy 1, Display#} s"
  using handle_events_owns [OF assms(1) [unfolded startup_def], of "{#Proxy 1, Display#}" "[]"] assms(2)
  by (simp add: owns_def held_def allowed_def room_def announces_once_def)

lemma capture_unfold:
  "capture w =
     (if \<not> w_connect w
      then Some (Inr (no_result\<lparr>error := no_display_error\<rparr>,
        \<lparr>shooter = None, shm = None, outputs = [], finished = False, acts = []\<rparr>))
      else case startup w of
        Inl e \<Rightarrow> Some (Inl e)
      | Inr s \<Rightarrow>
          if shooter s = None
          then Some (Inr (no_result\<lparr>error := ''weston_screenshooter global not found''\<rparr>, cleanup 1 s))
          else if shm s = None
          then Some (Inr (no_result\<lparr>error := ''wl_shm global not found''\<rparr>, cleanup 1 s))
          else (case select_output (outputs s) of
                  None \<Rightarrow> Some (Inr (no_result\<lparr>error := ''no wl_output found''\<rparr>, cleanup 1 s))
                | Some sel \<Rightarrow>
                    if sint (o_width sel) \<le> 0 \<or> sint (o_height sel) \<le> 0
                    then Some (Inr (no_result\<lparr>error := ''wl_output dimensions not received''\<rparr>, cleanup 1 s))
                    else (case shoot_output w sel s of
                            None \<Rightarrow> None
                          | Some (Inl e) \<Rightarrow> Some (Inl e)
                          | Some (Inr rs) \<Rightarrow> Some (Inr (fst rs, cleanup 1 (snd rs))))))"
  unfolding capture_def startup_def handle_events_append
  by (simp add: Let_def acquire_def case_prod_beta cong: if_cong sum.case_cong option.case_cong)

lemma capture_cases:
  assumes "capture w = Some (Inr (res, s'))"
  obtains (no_display) "acts s' = []" "error res = no_display_error" "imageData res = []"
  | (failed) s where "startup w = Inr s" "s' = cleanup 1 s" "error res \<noteq> []" "imageData res = []"
  | (shot) s sel t where "startup w = Inr s" "select_output (outputs s) = Some sel"
      "0 < sint (o_width sel)" "0 < sint (o_height sel)" "shoot_output w sel s = Some (Inr (res, t))" "s' = cleanup 1 t"
  using assms unfolding capture_unfold
  by (auto simp: no_result_def not_le split: if_splits sum.splits option.splits)

section \<open>A concrete compositor\<close>

text \<open>One output of one by two pixels, named DP-1.\<close>

definition desk_compositor :: "(nat \<Rightarrow> wl_event list option) \<Rightarrow> wayland" where
  "desk_compositor dispatch =
     \<lparr>w_connect = True,
      w_globals = [Global 1 ''weston_screenshooter'' 1, Global 2 ''wl_shm'' 1, Global 3 ''wl_output'' 3],
      w_flush = [Output_geometry 4 (Some ''DP-1''), Output_mode 4 1 1 2],
      w_dispatch = dispatch, w_bind = (\<lambda>_. True), w_buffer = True, w_memfd = 5, w_ftruncate = 0,
      w_mmap = True, w_shm_byte = (\<lambda>i. word_of_nat i)\<rparr>"

definition desk_output :: OutputInfo where
  "desk_output = \<lparr>o_output = Some 4, model = ''DP-1'', o_width = 1, o_height = 2\<rparr>"

lemma desk_output_sel [simp]:
  "o_output desk_output = Some 4" "model desk_output = ''DP-1''" "o_width desk_output = 1" "o_height desk_output = 2"
  by (simp_all add: desk_output_def)

definition desk_image :: ScreenshotResult where
  "desk_image = \<lparr>imageData = [0, 1, 2, 3, 4, 5, 6, 7], img_width = 1, img_height = 2, error = []\<rparr>"

definition one_answer :: "nat \<Rightarrow> wl_event list option" where
  "one_answer n = (if n = 0 then Some [Shoot_done] else None)"

lemma desk_startup:
  "startup (desk_compositor f) = Inr \<lparr>shooter = Some 2, shm = Some 3, outputs = [desk_output], finished = False,
     acts = [Acquire (Proxy 4), Acquire (Proxy 3), Acquire (Proxy 2), Acquire (Proxy 1), Acquire Display]\<rparr>"
  by (simp add: startup_def desk_compositor_def on_registry_global_def bind_global_def acquire_def
      on_output_geometry_def on_output_mode_def WL_OUTPUT_MODE_CURRENT_def desk_output_def)

lemma desk_select: "select_output [desk_output] = Some desk_output"
  by (simp add: select_output_def desk_output_def)

lemma desk_once: "announces_once (desk_compositor f)"
  by (simp add: announces_once_def desk_compositor_def announced_def)

lemma desk_settled: "settled (desk_compositor one_answer)"
  by (simp add: settled_def desk_compositor_def one_answer_def announced_def)

lemma desk_size: "[0..<8] = [0, 1, 2, 3, 4, 5, 6, 7 :: nat]"
  by (simp add: upt_rec)

lemma desk_capture: "\<exists>s. capture (desk_compositor one_answer) = Some (Inr (desk_image, s))"
  unfolding capture_unfold desk_startup
  by (simp add: desk_select shoot_output_def in_int32_def Let_def acquire_def release_def
      desk_compositor_def one_answer_def dispatch_loop.simps on_shoot_done_def desk_image_def desk_size)

lemma desk_silent: "takeScreenshot (desk_compositor (\<lambda>_. Some [])) = Inl Blocked_forever"
proof -
  let ?w = "desk_compositor (\<lambda>_. Some [])"
  have w: "w_dispatch ?w n = Some []" for n by (simp add: desk_compositor_def)
  then have "\<not> failing ?w" by (simp add: failing_def)
  with w have "dispatch_loop ?w n s = None" if "\<not> finished s" for n s
    using that dispatch_loop_silent [of ?w n s] by (cases "dispatch_loop ?w n s") auto
  then show ?thesis
    unfolding takeScreenshot_def capture_unfold desk_startup
    by (simp add: desk_select shoot_output_def in_int32_def Let_def acquire_def release_def desk_compositor_def)
qed

section \<open>Properties\<close>

text \<open>C16: Resource discipline of a capture: with a compositor that announces the screenshot interface
  and the shared-memory interface at most once, on every path on which \<open>capture\<close> returns (each
  failure of a call, a missing global or output, a broken connection, success) every object,
  descriptor and mapping it obtained has been released exactly once, nothing was released that was
  not held, and the display was disconnected after everything else.\<close>

theorem capture_releases_everything:
  assumes "capture w = Some (Inr (res, s))" and "announces_once w" and "settled w"
  shows "live (acts s) = {#} \<and> clean (acts s)"
  using assms(1)
proof (cases rule: capture_cases)
  case (failed t)
  then show ?thesis using cleanup_clean [OF startup_owns [OF _ assms(2)]] by blast
next
  case (shot t sel u)
  have "owns {#Proxy 1, Display#} u"
    using shoot_output_owns [OF shot(5) assms(3) startup_owns [OF shot(1) assms(2)]] .
  from cleanup_clean [OF this] shot(6) show ?thesis by simp
qed simp

theorem capture_releases_everything_witness:
  "\<exists>s. capture (desk_compositor one_answer) = Some (Inr (desk_image, s)) \<and> live (acts s) = {#} \<and> clean (acts s)"
  using desk_capture capture_releases_everything [OF _ desk_once desk_settled] by blast

text \<open>C25: The image: a capture that reports no error has the positive width and height of the selected
  output, which is one whose model is DP-1 if there is such an output and else the first output,
  and exactly four bytes per pixel; a capture that reports an error carries no image.\<close>

theorem capture_image:
  assumes "capture w = Some (Inr (res, s))"
  shows "(error res \<noteq> [] \<longrightarrow> imageData res = []) \<and>
    (error res = [] \<longrightarrow> (\<exists>t sel. startup w = Inr t \<and> sel \<in> set (outputs t) \<and>
       (if \<exists>x \<in> set (outputs t). model x = ''DP-1'' then model sel = ''DP-1'' else sel = hd (outputs t)) \<and>
       img_width res = o_width sel \<and> img_height res = o_height sel \<and>
       0 < sint (img_width res) \<and> 0 < sint (img_height res) \<and>
       int (length (imageData res)) = 4 * sint (img_width res) * sint (img_height res)))"
  using assms
proof (cases rule: capture_cases)
  case (shot t sel u)
  have sel: "sel \<in> set (outputs t) \<and>
      (if \<exists>x \<in> set (outputs t). model x = ''DP-1'' then model sel = ''DP-1'' else sel = hd (outputs t))"
    using shot(2) by (auto simp: select_output_def find_Some_iff find_None_iff split: option.splits list.splits)
  from shot(5) show ?thesis
  proof (cases rule: shoot_output_cases)
    case (taken buffer v)
    then have "int (length (imageData res)) = 4 * sint (img_width res) * sint (img_height res)"
      using shot(3,4) by (simp add: ac_simps)
    with taken(4) shot(1,3,4) sel show ?thesis
      by (intro conjI impI exI [of _ t] exI [of _ sel]) simp_all
  qed simp
qed (simp_all add: no_display_error_def)

theorem capture_image_witness:
  "\<exists>s t sel. capture (desk_compositor one_answer) = Some (Inr (desk_image, s)) \<and>
     startup (desk_compositor one_answer) = Inr t \<and> sel \<in> set (outputs t) \<and> model sel = ''DP-1'' \<and>
     int (length (imageData desk_image)) = 8"
proof -
  obtain s where s: "capture (desk_compositor one_answer) = Some (Inr (desk_image, s))"
    using desk_capture by blast
  from capture_image [OF this] s show ?thesis
    by (auto simp: desk_image_def desk_startup desk_output_def)
qed

text \<open>C26: The wait of a capture ends: if the compositor's answer arrives with some dispatch, or some
  dispatch fails, \<open>capture\<close> returns.\<close>

theorem capture_returns:
  assumes "w_dispatch w n = None \<or> (\<exists>es. w_dispatch w n = Some es \<and> Shoot_done \<in> set es)"
  shows "\<exists>r. capture w = Some r"
proof -
  have loop: "(dispatch_loop w 0 s = None) = False" for s
    using dispatch_loop_returns [of w 0 n s] assms by auto
  have shoot: "(shoot_output w sel s = None) = False" for sel s
    by (simp add: shoot_output_def Let_def loop split: option.split sum.split)
  have "(capture w = None) = False"
    unfolding capture_unfold by (simp add: shoot split: sum.split option.split)
  then show ?thesis by blast
qed

theorem capture_returns_witness: "\<exists>r. capture (desk_compositor one_answer) = Some r"
  by (rule capture_returns [of _ 0]) (simp add: desk_compositor_def one_answer_def)

text \<open>C38: A compositor that hangs up before it has answered is not noticed: when the first dispatch
  after the request fails, the call succeeds with whatever the shared memory holds (an image that
  fits the message), although the answer never came.\<close>

theorem lost_compositor_reports_success:
  assumes "w_connect w" and "startup w = Inr s" and "shooter s \<noteq> None" and "shm s \<noteq> None"
    and "select_output (outputs s) = Some sel" and "0 < sint (o_width sel)" and "0 < sint (o_height sel)"
    and "in_int32 (sint (o_width sel) * 4)" and "0 \<le> w_memfd w" and "0 \<le> w_ftruncate w" and "w_mmap w"
    and "w_dispatch w 0 = None" and "nat (sint (o_width sel) * 4) * nat (sint (o_height sel)) < 2 ^ 29"
  shows "takeScreenshot w = Inr \<lparr>
    r_imageData = map (w_shm_byte w) [0..<nat (sint (o_width sel) * 4) * nat (sint (o_height sel))],
    r_width = o_width sel, r_height = o_height sel\<rparr>"
proof -
  have "dispatch_loop w 0 t = Some (Inr t)" for t
    using assms(12) by (simp add: dispatch_loop.simps)
  then show ?thesis
    using assms unfolding takeScreenshot_def capture_unfold
    by (simp add: shoot_output_def Let_def setImageData_def)
qed

theorem lost_compositor_reports_success_witness:
  "takeScreenshot ((desk_compositor (\<lambda>_. None))\<lparr>w_shm_byte := (\<lambda>_. 0)\<rparr>) =
     Inr \<lparr>r_imageData = replicate 8 0, r_width = 1, r_height = 2\<rparr>"
proof -
  let ?w = "(desk_compositor (\<lambda>_. None))\<lparr>w_shm_byte := (\<lambda>_. 0)\<rparr>"
  have "startup ?w = startup (desk_compositor (\<lambda>_. None))"
    by (simp add: startup_def desk_compositor_def on_registry_global_def bind_global_def acquire_def
      on_output_geometry_def on_output_mode_def WL_OUTPUT_MODE_CURRENT_def)
  then have start: "startup ?w = Inr \<lparr>shooter = Some 2, shm = Some 3, outputs = [desk_output], finished = False,
     acts = [Acquire (Proxy 4), Acquire (Proxy 3), Acquire (Proxy 2), Acquire (Proxy 1), Acquire Display]\<rparr>"
    by (simp only: desk_startup)
  have "takeScreenshot ?w = Inr \<lparr>
    r_imageData = map (w_shm_byte ?w) [0..<nat (sint (o_width desk_output) * 4) * nat (sint (o_height desk_output))],
    r_width = o_width desk_output, r_height = o_height desk_output\<rparr>"
    by (rule lost_compositor_reports_success [OF _ start])
      (simp_all add: desk_select, simp_all add: desk_compositor_def desk_output_def in_int32_def)
  then show ?thesis by (simp add: desk_output_def desk_compositor_def map_replicate_const)
qed

text \<open>C27: A screenshot through the client: a call of a connected client whose messages the transport
  carries returns exactly the image, width and height of a capture that reported no error, as long
  as the image fits a blob of the message (less than 512 MiB; a larger one is refused with an
  exception); the error text of a failed capture arrives as the exception of the call, and the
  connection stays.\<close>

theorem screenshot_end_to_end:
  assumes "client_sys.reachable c" and "isConnected c" and "capture w = Some (Inr (res, s))"
  shows "client_TakeScreenshot (deliver serve_screenshot Delivered) (c, w) =
    (if error res \<noteq> [] then Inl (Kj_exception (error res))
     else if length (imageData res) < 2 ^ 29 then Inr res
     else Inl (Kj_exception ''text blob too big''), c, w)"
  using assms(3)
  by (cases res)
    (simp add: client_TakeScreenshot_def rpc_call_connected [OF client_reachable_inv [OF assms(1)] assms(2)]
      serve_screenshot_def takeScreenshot_def setImageData_def waitWithTimeout_def map_reply_def)

theorem screenshot_end_to_end_witness:
  "client_TakeScreenshot (deliver serve_screenshot Delivered) (desk_client, desk_compositor one_answer) =
     (Inr desk_image, desk_client, desk_compositor one_answer)"
proof -
  obtain s where "capture (desk_compositor one_answer) = Some (Inr (desk_image, s))" using desk_capture by blast
  from screenshot_end_to_end [OF desk_client_reachable desk_client_connected this] show ?thesis
    by (simp add: desk_image_def)
qed

end
