(* ===== verification/Server_Properties.thy ===== *)
theory Server_Properties
  imports Test_Runner_Server Handler_Errors Screenshot_Properties
begin

text \<open>
  The server as a whole: each part of it behaves as it does alone, whatever happens in the others;
  the devices receive exactly the packets of the input requests that were served; and which
  requests can block or end the server.
\<close>

section \<open>The parts of the server\<close>

lemma serve_recorder_step:
  assumes "serve_recorder k x sched r sv = (rep, sv')"
  shows "sv' = sv \<or> (\<exists>l. svc_step k x sv l sv')"
proof (cases r)
  case Rec_getSnapshot
  with assms have "getSnapshot k x sched sv = (fst (getSnapshot k x sched sv), sv')"
    by (auto simp: map_reply_def apfst_def map_prod_def split: prod.splits)
  then show ?thesis by (blast intro: svc_step.intros)
next
  case (Rec_create filename len cont)
  with assms show ?thesis by (auto split: option.splits intro: svc_step.intros)
next
  case (Rec_setDevices i ds)
  with assms show ?thesis by (auto split: sum.splits intro: svc_step.intros)
next
  case (Rec_start i)
  with assms have "startCustomRecording k x i sv = (fst (startCustomRecording k x i sv), sv')"
    by (auto simp: map_reply_def apfst_def map_prod_def split: prod.splits)
  then show ?thesis by (blast intro: svc_step.intros)
next
  case (Rec_stop i)
  with assms have "stopCustomRecording k x sched i sv = (fst (stopCustomRecording k x sched i sv), sv')"
    by (auto simp: map_reply_def apfst_def map_prod_def split: prod.splits)
  then show ?thesis by (blast intro: svc_step.intros)
qed (use assms in auto)

lemma thread_step_svc:
  assumes "thread_step E t l sv = Some (m', sv')" "thread_label l"
  shows "\<exists>l'. svc_step (e_kernel E) (e_rec_xkb E) sv l' sv'"
proof (cases t)
  case Snapshot_thread
  with assms show ?thesis
    by (auto simp del: rec_exec.simps split: option.splits intro: svc_snapshot_thread [unfolded rstep_iff_exec])
next
  case (Custom_thread j)
  with assms show ?thesis
    by (auto simp del: rec_exec.simps split: option.splits if_splits intro: svc_thread [unfolded rstep_iff_exec])
qed

text \<open>What a request means for the parts of the server.\<close>

lemma handle_request_input:
  assumes "handle_request E sched req s = (r, s')"
  shows "input_part s' = (case req of Input_request q \<Rightarrow> handle_input (e_kernel E) (e_lib E) q (input_part s) | _ \<Rightarrow> input_part s)"
  using assms by (cases req) (simp_all add: serve_input_def split: prod.splits, auto)

lemma handle_request_recorders:
  assumes "handle_request E sched req s = (r, s')"
  shows "recorder_part s' = recorder_part s \<or>
    (\<exists>l. svc_step (e_kernel E) (e_rec_xkb E) (recorder_part s) l (recorder_part s'))"
proof (cases req)
  case (Recorder_request q)
  then show ?thesis using assms by (auto split: prod.splits dest: serve_recorder_step)
qed (use assms in \<open>auto split: prod.splits\<close>)

lemma handle_request_handles:
  assumes "handle_request E sched req s = (r, s')"
  shows "easy_handles (agl_part s') = easy_handles (agl_part s)"
proof (cases req)
  case (Agl_request q)
  then show ?thesis
    using assms handle_agl_handles [of "e_curl E" "e_parse E" q "agl_part s"] by (auto split: prod.splits)
qed (use assms in \<open>auto split: prod.splits\<close>)

text \<open>What a step of the server means for its parts.\<close>

definition input_effect :: "server_label \<Rightarrow> server \<Rightarrow> input_request list" where
  "input_effect l s = (case l of Sl_call sched (Input_request r) \<Rightarrow> if status s = Serving then [r] else [] | _ \<Rightarrow> [])"

lemma server_exec_parts:
  assumes "server_exec E l s = Some s'"
  shows "input_part (obj s') = fold (handle_input (e_kernel E) (e_lib E)) (input_effect l s) (input_part (obj s))"
    and "recorder_part (obj s') = recorder_part (obj s) \<or>
      (\<exists>l'. svc_step (e_kernel E) (e_rec_xkb E) (recorder_part (obj s)) l' (recorder_part (obj s')))"
    and "easy_handles (agl_part (obj s')) = easy_handles (agl_part (obj s))"
proof -
  have "input_part (obj s') = fold (handle_input (e_kernel E) (e_lib E)) (input_effect l s) (input_part (obj s)) \<and>
    (recorder_part (obj s') = recorder_part (obj s) \<or>
      (\<exists>l'. svc_step (e_kernel E) (e_rec_xkb E) (recorder_part (obj s)) l' (recorder_part (obj s')))) \<and>
    easy_handles (agl_part (obj s')) = easy_handles (agl_part (obj s))"
  proof (cases l)
    case (Sl_call sched req)
    then have s': "s' = snd (serve_request E sched req s)" using assms by simp
    show ?thesis
    proof (cases "status s = Serving")
      case True
      obtain r ob where r: "handle_request E sched req (obj s) = (r, ob)" by fastforce
      then have "obj s' = ob" using True s' by (simp add: serve_request_def)
      with True Sl_call handle_request_input [OF r] handle_request_recorders [OF r] handle_request_handles [OF r] show ?thesis
        by (simp add: input_effect_def split: service_request.split)
    qed (use Sl_call s' in \<open>auto simp: serve_request_def input_effect_def split: status.splits service_request.splits\<close>)
  next
    case (Sl_thread t l)
    with assms show ?thesis
      by (auto simp: input_effect_def split: if_splits option.splits dest!: thread_step_svc)
  qed
  then show "input_part (obj s') = fold (handle_input (e_kernel E) (e_lib E)) (input_effect l s) (input_part (obj s))"
    "recorder_part (obj s') = recorder_part (obj s) \<or>
      (\<exists>l'. svc_step (e_kernel E) (e_rec_xkb E) (recorder_part (obj s)) l' (recorder_part (obj s')))"
    "easy_handles (agl_part (obj s')) = easy_handles (agl_part (obj s))" by blast+
qed

lemma construct_server_parts:
  assumes "construct_server E plugins snap cfg = Some s0"
  shows "input_part s0 = construct_input (e_kernel E) (e_lib E) (e_getenv E) cfg raw_input"
    and "construct_service (e_kernel E) (e_rec_xkb E) snap = Some (recorder_part s0)"
    and "easy_handles (agl_part s0) = 0"
  using assms
  by (auto simp: construct_server_def init_plugins_def construct_agl_def Let_def split: option.splits if_splits)

lemma server_parts_reachable:
  assumes "server_sys.reachable E plugins snap cfg s"
  shows "input_sys.reachable (e_kernel E) (e_lib E) (e_getenv E) cfg (input_part (obj s))"
    and "svc_sys.reachable (e_kernel E) (e_rec_xkb E) snap (recorder_part (obj s))"
    and "easy_handles (agl_part (obj s)) = 0"
proof -
  let ?I = "\<lambda>s. input_sys.reachable (e_kernel E) (e_lib E) (e_getenv E) cfg (input_part (obj s)) \<and>
    svc_sys.reachable (e_kernel E) (e_rec_xkb E) snap (recorder_part (obj s)) \<and> easy_handles (agl_part (obj s)) = 0"
  have "?I s"
    using assms
  proof (rule server_sys.reachable_invariant)
    fix s0
    assume "server_init E plugins snap cfg s0"
    then obtain o0 where o0: "construct_server E plugins snap cfg = Some o0" "s0 = \<lparr>obj = o0, status = Serving\<rparr>"
      by (auto simp: server_init_def)
    have "hist raw_input = []" by (simp add: raw_input_def)
    then have "input_init (e_kernel E) (e_lib E) (e_getenv E) cfg (input_part (obj s0))"
      using construct_server_parts(1) [OF o0(1)] o0(2) by (auto simp: input_init_def)
    moreover have "svc_init (e_kernel E) (e_rec_xkb E) snap (recorder_part (obj s0))"
      using construct_server_parts(2) [OF o0(1)] o0(2) by (simp add: svc_init_def)
    ultimately show "?I s0"
      using construct_server_parts(3) [OF o0(1)] o0(2) input_sys.reachable_init svc_sys.reachable_init by simp
  next
    fix u l v
    assume "server_step E u l v" and I: "?I u"
    then have ex: "server_exec E l u = Some v" by (simp add: server_step_iff)
    have "input_sys.run (e_kernel E) (e_lib E) (input_part (obj u)) (input_effect l u) (input_part (obj v))"
      using server_exec_parts(1) [OF ex] by (simp add: run_input_fold)
    then show "?I v"
      using I server_exec_parts(2,3) [OF ex] input_sys.reachable_run svc_sys.reachable_run [OF _ svc_sys.run_singleton]
      by metis
  qed
  then show "input_sys.reachable (e_kernel E) (e_lib E) (e_getenv E) cfg (input_part (obj s))"
    "svc_sys.reachable (e_kernel E) (e_rec_xkb E) snap (recorder_part (obj s))"
    "easy_handles (agl_part (obj s)) = 0" by blast+
qed

section \<open>What ends a recorder ends the process\<close>

definition fatal :: "cxx_error \<Rightarrow> bool" where
  "fatal e \<longleftrightarrow> error_status e = Dead e"

lemma transform_event_fatal: "only_errors fatal (transform_event dev ev)"
  by (auto simp: transform_event_def transform_touch_coordinates_def int_minus_def int_of_double_def fatal_def Let_def)

lemma resolve_event_fatal: "only_errors fatal (resolve_event_keysym x dev ev s)"
  by (auto simp: resolve_event_keysym_def fatal_def Let_def split: option.split)

lemma process_event_fatal: "only_errors fatal (process_event k x dev ev s)"
  unfolding process_event_def current_time_ms_def sys_call_def
  by (auto intro!: transform_event_fatal resolve_event_fatal simp: Let_def)

lemma read_device_fatal: "only_errors fatal (read_device k x dev s)"
  by (simp add: read_device_def sys_call_def process_event_fatal)

definition death_fatal :: "rmach \<Rightarrow> bool" where
  "death_fatal m \<longleftrightarrow> (\<forall>e. mpc m = Main_dead e \<longrightarrow> fatal e)"

lemma death_fatal_step:
  assumes "rstep k x m l m'" "death_fatal m"
  shows "death_fatal m'"
  using assms(1)
proof cases
  case (read_err d ds e)
  with read_device_fatal [of k x d "rst m"] show ?thesis by (simp add: death_fatal_def)
next
  case (begin_err e)
  with record_begin_error [OF begin_err(6)] show ?thesis by (simp add: death_fatal_def fatal_def)
qed (use assms(2) in \<open>auto simp: death_fatal_def fatal_def\<close>)

interpretation death_contract: recorder_contract k x death_fatal for k x
  by unfold_locales (rule death_fatal_step)

section \<open>Blocking and ending the server\<close>

text \<open>The specification: the circumstances under which a request can stop a server that is serving.\<close>

definition ended_unstopped :: "rmach \<Rightarrow> bool" where
  "ended_unstopped m \<longleftrightarrow> \<not> isActive (rst m) \<and> rpc m \<noteq> Rec_none"

fun recorder_hazard :: "kernel \<Rightarrow> recorder_request \<Rightarrow> recorder_service \<Rightarrow> bool" where
  "recorder_hazard k Rec_getSnapshot sv =
     (case snapshot_recorder sv of None \<Rightarrow> True | Some m \<Rightarrow> rpc m \<noteq> Rec_none)"
| "recorder_hazard k (Rec_create filename len cont) sv = (\<forall>n. \<not> readdir_ends k n)"
| "recorder_hazard k (Rec_setDevices i ds) sv =
     (unat i < length (custom_recorders sv) \<and> 64 < length (available_devices (rst (custom_recorders sv ! unat i))))"
| "recorder_hazard k (Rec_start i) sv =
     (unat i < length (custom_recorders sv) \<and> ended_unstopped (custom_recorders sv ! unat i))"
| "recorder_hazard k (Rec_stop i) sv =
     (unat i < length (custom_recorders sv) \<and> rpc (custom_recorders sv ! unat i) \<noteq> Rec_none)"
| "recorder_hazard k (Rec_listDevices i) sv = False"
| "recorder_hazard k (Rec_checkActive i) sv = False"

lemma call_start_status:
  assumes "mpc m = Main_idle" "call_start k x m = (r, m')"
  shows "if result_status r = Serving then mpc m' = Main_idle else ended_unstopped m"
  using assms by (auto simp: call_start_def result_status_def ended_unstopped_def split: if_splits)

lemma call_stop_status:
  assumes "mpc m = Main_idle" "call_stop k x sched m = (r, m')"
  shows "if result_status r = Serving then mpc m' = Main_idle else rpc m \<noteq> Rec_none"
proof (cases "rpc m = Rec_none")
  case True
  with assms show ?thesis by (auto simp: call_stop_def result_status_def)
next
  case False
  let ?m1 = "m\<lparr>rst := raise_stop (rst m), mpc := Main_stopping\<rparr>"
  have "mpc m' = Main_idle" if serving: "result_status r = Serving"
  proof -
    obtain m2 where m2: "exec_all k x sched ?m1 = Some m2"
      using assms False serving by (cases "exec_all k x sched ?m1") (auto simp: call_stop_def result_status_def)
    have "death_fatal m2"
      by (rule death_contract.exec_all_keeps [OF m2]) (simp add: death_fatal_def)
    then have "death m2 = None"
      using assms False serving m2
      by (cases "death m2") (auto simp: call_stop_def result_status_def death_def death_fatal_def fatal_def
          split: main_pc.splits)
    with assms False serving m2 show ?thesis
      by (auto simp: call_stop_def result_status_def split: if_splits)
  qed
  with False show ?thesis by simp
qed

lemma result_status_map [simp]: "result_status (bind_result r (\<lambda>x. Inr (f x))) = result_status r"
  by (cases r) (simp_all add: result_status_def)

lemma map_reply_simps [simp]:
  "result_status (fst (map_reply f p)) = result_status (fst p)" "snd (map_reply f p) = snd p"
  by (simp_all add: map_reply_def)

definition all_idle :: "recorder_service \<Rightarrow> bool" where
  "all_idle sv \<longleftrightarrow> (\<forall>m \<in> set (all_recorders sv). mpc m = Main_idle)"

lemma all_idle_custom:
  "all_idle sv \<Longrightarrow> i < length (custom_recorders sv) \<Longrightarrow> mpc (custom_recorders sv ! i) = Main_idle"
  "all_idle sv \<Longrightarrow> mpc m = Main_idle \<Longrightarrow> all_idle (sv\<lparr>custom_recorders := (custom_recorders sv)[i := m]\<rparr>)"
  using set_update_subset_insert [of "custom_recorders sv" i m] by (fastforce simp: all_idle_def all_recorders_def)+

lemma all_idle_snapshot:
  "all_idle sv \<Longrightarrow> snapshot_recorder sv = Some m \<Longrightarrow> mpc m = Main_idle"
  "all_idle sv \<Longrightarrow> mpc m' = Main_idle \<Longrightarrow> all_idle (sv\<lparr>snapshot_recorder := Some m'\<rparr>)"
  by (auto simp: all_idle_def all_recorders_def)

lemma getSnapshot_status:
  assumes "all_idle sv" "getSnapshot k x sched sv = (r, sv')"
  shows "if result_status r = Serving then all_idle sv' else recorder_hazard k Rec_getSnapshot sv"
proof (cases "snapshot_recorder sv")
  case None
  with assms show ?thesis by (simp add: getSnapshot_def)
next
  case (Some m)
  obtain r1 m1 where m1: "call_stop k x sched m = (r1, m1)" by fastforce
  note stop = call_stop_status [OF all_idle_snapshot(1) [OF assms(1) Some] m1]
  show ?thesis
  proof (cases r1)
    case (Inl e)
    then have "r = Inl e" "sv' = sv\<lparr>snapshot_recorder := Some m1\<rparr>"
      using assms(2) Some m1 by (simp_all add: getSnapshot_def)
    with stop Inl Some all_idle_snapshot(2) [OF assms(1)] show ?thesis
      by (auto simp: result_status_def split: if_splits)
  next
    case (Inr q)
    obtain r2 m2 where m2: "call_start k x m1 = (r2, m2)" by fastforce
    have "mpc m1 = Main_idle" using stop Inr by (simp add: result_status_def)
    note start = call_start_status [OF this m2]
    have "rpc m \<noteq> Rec_none"
      using m1 Inr all_idle_snapshot(1) [OF assms(1) Some] by (auto simp: call_stop_def)
    moreover have "result_status r = result_status r2" "sv' = sv\<lparr>snapshot_recorder := Some m2\<rparr>"
      using assms(2) Some m1 m2 Inr by (auto simp: getSnapshot_def result_status_def split: sum.splits)
    ultimately show ?thesis
      using start Some all_idle_snapshot(2) [OF assms(1)] by auto
  qed
qed

lemma serve_recorder_status:
  assumes idle: "all_idle sv" and serve: "serve_recorder k x sched req sv = (r, sv')"
  shows "if result_status r = Serving then all_idle sv' else recorder_hazard k req sv"
proof (cases req)
  case Rec_getSnapshot
  obtain r1 where r1: "getSnapshot k x sched sv = (r1, sv')" "result_status r = result_status r1"
    using serve Rec_getSnapshot map_reply_simps [of Path_reply "getSnapshot k x sched sv"]
    by (metis fst_conv prod.collapse serve_recorder.simps(1) snd_conv)
  with getSnapshot_status [OF idle r1(1)] Rec_getSnapshot show ?thesis by (simp del: recorder_hazard.simps)
next
  case (Rec_create filename len cont)
  show ?thesis
  proof (cases "createCustomRecorder k x filename len cont sv")
    case None
    then have "construct_recorder k x (c_str filename) len cont ''/dev/input'' = None"
      by (auto simp: createCustomRecorder_def Let_def split: if_splits option.splits)
    then have "\<not> readdir_ends k n" for n using construct_recorder_returns [where k = k and n = n and x = x and filename = "c_str filename" and len = len
          and cont = cont and dir = "''/dev/input''"] by auto
    with Rec_create serve None show ?thesis by (auto simp: result_status_def)
  next
    case (Some isv)
    with Rec_create serve idle show ?thesis
      by (auto simp: createCustomRecorder_def Let_def result_status_def all_idle_def all_recorders_def rmach_init_def
          split: if_splits option.splits)
  qed
next
  case (Rec_setDevices i ds)
  show ?thesis
  proof (cases "unat i < length (custom_recorders sv) \<and> 64 < length (available_devices (rst (custom_recorders sv ! unat i)))")
    case False
    then show ?thesis
      using Rec_setDevices serve idle all_idle_custom(1) [OF idle] all_idle_custom(2) [OF idle]
        set_devices_filter [of "rst (custom_recorders sv ! unat i)" "map device_of_wire ds"]
      by (auto simp: srv_setDevicesToRecord_def result_status_def Let_def split: if_splits)
  qed (use Rec_setDevices serve idle all_idle_custom(1) [OF idle] all_idle_custom(2) [OF idle] in
      \<open>auto simp: srv_setDevicesToRecord_def result_status_def Let_def split: sum.splits\<close>)
next
  case (Rec_start i)
  obtain r1 where r1: "startCustomRecording k x i sv = (r1, sv')" "result_status r = result_status r1"
    using serve Rec_start map_reply_simps [of "\<lambda>_. Done_reply" "startCustomRecording k x i sv"]
    by (metis fst_conv prod.collapse serve_recorder.simps(5) snd_conv)
  show ?thesis
  proof (cases "unat i < length (custom_recorders sv)")
    case True
    obtain m' where m': "call_start k x (custom_recorders sv ! unat i) = (r1, m')"
      "sv' = sv\<lparr>custom_recorders := (custom_recorders sv)[unat i := m']\<rparr>"
      using r1(1) True by (auto simp: startCustomRecording_def split: prod.splits)
    from call_start_status [OF all_idle_custom(1) [OF idle True] m'(1)] show ?thesis
      using r1(2) m'(2) all_idle_custom(2) [OF idle] Rec_start True by (auto split: if_splits)
  qed (use r1 idle Rec_start in \<open>auto simp: startCustomRecording_def result_status_def\<close>)
next
  case (Rec_stop i)
  obtain r1 where r1: "stopCustomRecording k x sched i sv = (r1, sv')" "result_status r = result_status r1"
    using serve Rec_stop map_reply_simps [of Path_reply "stopCustomRecording k x sched i sv"]
    by (metis fst_conv prod.collapse serve_recorder.simps(6) snd_conv)
  show ?thesis
  proof (cases "unat i < length (custom_recorders sv)")
    case True
    obtain m' where m': "call_stop k x sched (custom_recorders sv ! unat i) = (r1, m')"
      "sv' = sv\<lparr>custom_recorders := (custom_recorders sv)[unat i := m']\<rparr>"
      using r1(1) True by (auto simp: stopCustomRecording_def split: prod.splits)
    from call_stop_status [OF all_idle_custom(1) [OF idle True] m'(1)] show ?thesis
      using r1(2) m'(2) all_idle_custom(2) [OF idle] Rec_stop True by (auto split: if_splits)
  qed (use r1 idle Rec_stop in \<open>auto simp: stopCustomRecording_def result_status_def\<close>)
qed (use idle serve in \<open>auto simp: result_status_def\<close>)

text \<open>While the server is serving, no recorder is waited for.\<close>

definition serving_idle :: "server \<Rightarrow> bool" where
  "serving_idle s \<longleftrightarrow> (status s = Serving \<longrightarrow> all_idle (recorder_part (obj s)))"

fun hazard :: "environment \<Rightarrow> service_request \<Rightarrow> server_object \<Rightarrow> service_reply result \<Rightarrow> bool" where
  "hazard E (Input_request q) s r = False"
| "hazard E (Recorder_request q) s r = recorder_hazard (e_kernel E) q (recorder_part s)"
| "hazard E (Agl_request q) s r = (r = Inl Float_conversion)"
| "hazard E TakeScreenshot s r =
     (capture (e_wayland E (shots s)) = None \<or> \<not> compositor_sane (e_wayland E (shots s)))"

lemma document_error_status: "document_error e \<Longrightarrow> e \<noteq> Float_conversion \<Longrightarrow> error_status e = Serving"
  by (cases e) simp_all

lemma agl_status:
  assumes "parser_ok (e_parse E)" "handle_agl (e_curl E) (e_parse E) q p = (r, p')" "result_status r \<noteq> Serving"
  shows "r = Inl Float_conversion"
  using handle_agl_safe [OF assms(1), of "e_curl E" q p] assms(2,3) document_error_status
  by (cases r) (auto simp: result_status_def)

lemma screenshot_status:
  assumes "compositor_sane w" "capture w \<noteq> None"
  shows "result_status (takeScreenshot w) = Serving"
  using takeScreenshot_sane [OF assms] by (auto simp: result_status_def)

lemma serve_request_status:
  assumes "parser_ok (e_parse E)" "all_idle (recorder_part (obj s))" "status s = Serving"
    "serve_request E sched req s = (r, s')"
  shows "if status s' = Serving then all_idle (recorder_part (obj s')) else hazard E req (obj s) r"
proof (cases req)
  case (Input_request q)
  with assms show ?thesis by (auto simp: serve_request_def serve_input_def result_status_def)
next
  case (Recorder_request q)
  obtain rep sv where q: "serve_recorder (e_kernel E) (e_rec_xkb E) sched q (recorder_part (obj s)) = (rep, sv)"
    by fastforce
  with serve_recorder_status [OF assms(2) q] Recorder_request assms(3,4) show ?thesis
    by (auto simp: serve_request_def)
next
  case (Agl_request q)
  obtain rep p where q: "handle_agl (e_curl E) (e_parse E) q (agl_part (obj s)) = (rep, p)" by fastforce
  with agl_status [OF assms(1) q] Agl_request assms(2-4) show ?thesis by (auto simp: serve_request_def)
next
  case TakeScreenshot
  with screenshot_status [of "e_wayland E (shots (obj s))"] assms(2-4) show ?thesis
    by (auto simp: serve_request_def)
qed

lemma thread_step_idle:
  assumes "thread_step E t l sv = Some (m', sv')" "thread_label l" "all_idle sv" "death m' = None"
  shows "all_idle sv'"
proof -
  have mpc: "mpc m' = Main_idle" if "rec_exec k x l m = Some m'" "mpc m = Main_idle" for k x m
    using rstep_of_exec [OF that(1)]
    by cases (use that(2) assms(2,4) in \<open>auto simp: thread_label_def death_def\<close>)
  show ?thesis
  proof (cases t)
    case Snapshot_thread
    with assms(1) obtain m where "snapshot_recorder sv = Some m"
      "rec_exec (e_kernel E) (e_rec_xkb E) l m = Some m'" "sv' = sv\<lparr>snapshot_recorder := Some m'\<rparr>"
      by (auto simp del: rec_exec.simps split: option.splits)
    with mpc all_idle_snapshot [OF assms(3)] show ?thesis by blast
  next
    case (Custom_thread j)
    with assms(1) have "j < length (custom_recorders sv)"
      "rec_exec (e_kernel E) (e_rec_xkb E) l (custom_recorders sv ! j) = Some m'"
      "sv' = sv\<lparr>custom_recorders := (custom_recorders sv)[j := m']\<rparr>"
      by (auto simp del: rec_exec.simps split: option.splits if_splits)
    with mpc all_idle_custom [OF assms(3)] show ?thesis by blast
  qed
qed

lemma serving_idle_step:
  assumes "parser_ok (e_parse E)" "server_exec E l s = Some s'" "serving_idle s"
  shows "serving_idle s'"
proof (cases l)
  case (Sl_call sched req)
  obtain r where r: "serve_request E sched req s = (r, s')" using assms(2) Sl_call by (metis option.inject prod.collapse server_exec.simps(1))
  show ?thesis
  proof (cases "status s = Serving")
    case True
    with serve_request_status [OF assms(1) _ True r] assms(3) show ?thesis
      by (auto simp: serving_idle_def split: if_splits)
  qed (use r assms(3) in \<open>auto simp: serve_request_def serving_idle_def split: status.splits\<close>)
next
  case (Sl_thread t l)
  with assms(2) obtain m' sv where "thread_step E t l (recorder_part (obj s)) = Some (m', sv)" "thread_label l"
    "s' = \<lparr>obj = (obj s)\<lparr>recorder_part := sv\<rparr>, status = thread_status m' (status s)\<rparr>"
    by (auto split: if_splits option.splits)
  with thread_step_idle assms(3) show ?thesis
    by (auto simp: serving_idle_def thread_status_def split: option.splits)
qed

lemma construct_service_idle:
  assumes "construct_service k x snap = Some sv"
  shows "all_idle sv"
proof -
  have "mpc (snd (call_start k x (rmach_init s))) = Main_idle" if "m_stop s" for s
    using that by (simp add: call_start_def rmach_init_def isActive_def)
  then show ?thesis
    using assms construct_recorder_fields(3)
    by (auto simp: all_idle_def all_recorders_def construct_service_def split: if_splits option.splits)
qed

lemma reachable_serving_idle:
  assumes "parser_ok (e_parse E)" "server_sys.reachable E plugins snap cfg s"
  shows "serving_idle s"
  using assms(2)
proof (rule server_sys.reachable_invariant)
  fix s0
  assume "server_init E plugins snap cfg s0"
  then obtain o0 where o0: "construct_server E plugins snap cfg = Some o0" "s0 = \<lparr>obj = o0, status = Serving\<rparr>"
    by (auto simp: server_init_def)
  with construct_service_idle [OF construct_server_parts(2) [OF o0(1)]] show "serving_idle s0"
    by (simp add: serving_idle_def)
qed (use serving_idle_step [OF assms(1)] in \<open>auto simp: server_step_iff\<close>)

section \<open>Runs\<close>

text \<open>The input requests a run serves, in order.\<close>

fun served_inputs :: "environment \<Rightarrow> server_label list \<Rightarrow> server \<Rightarrow> input_request list" where
  "served_inputs E [] s = []"
| "served_inputs E (l # ls) s =
     input_effect l s @ (case server_exec E l s of None \<Rightarrow> [] | Some s' \<Rightarrow> served_inputs E ls s')"

lemma run_input_part:
  assumes "server_sys.run E s ls s'"
  shows "input_part (obj s') = fold (handle_input (e_kernel E) (e_lib E)) (served_inputs E ls s) (input_part (obj s))"
  using assms
proof (induction rule: server_sys.run.induct)
  case (run_cons s l t ls u)
  then have ex: "server_exec E l s = Some t" by (simp add: server_step_iff)
  with server_exec_parts(1) [OF ex] run_cons.IH show ?case by simp
qed simp

text \<open>A desk: a kernel without input devices, no keymap, a daemon that does not answer with JSON, and a
  compositor that answers the first dispatch.\<close>

definition desk_env :: environment where
  "desk_env = \<lparr>e_kernel = counting_kernel, e_lib = no_xkb, e_rec_xkb = blind_xkb, e_getenv = (\<lambda>_. None),
     e_curl = steady_curl [''busy''], e_parse = (\<lambda>_. Inl Json_parse_error),
     e_wayland = (\<lambda>_. desk_compositor (\<lambda>_. Some [Shoot_done]))\<rparr>"

lemma desk_env_simps [simp]:
  "e_kernel desk_env = counting_kernel" "e_lib desk_env = no_xkb" "e_rec_xkb desk_env = blind_xkb"
  "e_getenv desk_env = (\<lambda>_. None)" "parser_ok (e_parse desk_env)" "e_parse desk_env t = Inl Json_parse_error"
  by (simp_all add: desk_env_def parser_ok_def)

lemma desk_server:
  obtains s0 m where "construct_server desk_env True True cfg = Some s0"
    "recorder_part s0 = \<lparr>snapshot_recorder = Some m, custom_recorders = []\<rparr>" "mpc m = Main_idle"
    "rpc m = Rec_spawned" "m_continuous (rst m)" "available_devices (rst m) = []"
  using counting_snapshot_started by (auto simp: construct_server_def init_plugins_def Let_def)

lemma desk_reachable:
  "construct_server desk_env True True cfg = Some s0 \<Longrightarrow>
   server_sys.reachable desk_env True True cfg \<lparr>obj = s0, status = Serving\<rparr>"
  by (rule server_sys.reachable_init) (simp add: server_init_def)

lemma streams_after_run:
  assumes "kernel_ok (e_kernel E)" "construct_server E plugins snap cfg = Some s0"
    "server_sys.run E \<lparr>obj = s0, status = Serving\<rparr> ls s"
  shows "abs_streams (input_part (obj s)) =
    fold (spec_input (e_lib E) (configured_keymap (e_lib E) (e_getenv E) cfg))
      (served_inputs E ls \<lparr>obj = s0, status = Serving\<rparr>) (\<lambda>_. [])"
proof -
  have "hist raw_input = []" "m_xkb_keymap raw_input = None" by (simp_all add: raw_input_def)
  with construct_run_refines [OF assms(1)] construct_server_parts(1) [OF assms(2)] run_input_part [OF assms(3)]
  show ?thesis by simp
qed

section \<open>Properties\<close>

text \<open>C3: The whole server refines the abstract event streams: whatever mixture of input, recorder, metrics
  and screenshot requests the server serves, and however the threads of the recorders run in
  between, each virtual device has received exactly the packets of the input requests that were
  served, in their order; those are all requests that arrived before the server was blocked or ended.\<close>

theorem server_refines_streams:
  assumes "kernel_ok (e_kernel E)" and "construct_server E plugins snap cfg = Some s0"
    and "server_sys.run E \<lparr>obj = s0, status = Serving\<rparr> ls s"
  shows "abs_streams (input_part (obj s)) =
    fold (spec_input (e_lib E) (configured_keymap (e_lib E) (e_getenv E) cfg))
      (served_inputs E ls \<lparr>obj = s0, status = Serving\<rparr>) (\<lambda>_. [])"
  using assms by (rule streams_after_run)

theorem server_refines_streams_witness:
  "\<exists>s :: server. abs_streams (input_part (obj s)) VIRTUAL_KEYBOARD = [mk_event EV_KEY 30 1, syn_report] \<and> status s = Serving"
proof -
  obtain s0 m where s0: "construct_server desk_env True True empty_cfg = Some s0" by (rule desk_server)
  let ?s = "\<lparr>obj = s0, status = Serving\<rparr>"
  let ?key = "Input_request (Req_KeyPress \<lparr>kp_pressed = True, kp_which = RawCode 30\<rparr>)"
  let ?l1 = "Sl_call [] (Agl_request GetMemory)" and ?l2 = "Sl_call [] ?key"
  obtain s1 where s1: "server_exec desk_env ?l1 ?s = Some s1" by simp
  have st1: "status s1 = Serving"
    using s1 by (auto simp: serve_request_def result_status_def getMemory_def query_def fetchJson_def steady_curl_def
        desk_env_def reply_with_def Let_def split: prod.splits)
  obtain s2 where s2: "server_exec desk_env ?l2 s1 = Some s2" by simp
  have st2: "status s2 = Serving" using s2 st1 by (auto simp: serve_request_def serve_input_def result_status_def)
  have run: "server_sys.run desk_env ?s [?l1, ?l2] s2"
    using s1 s2 by (meson server_step server_sys.run_cons server_sys.run_nil)
  have "served_inputs desk_env [?l1, ?l2] ?s = [Req_KeyPress \<lparr>kp_pressed = True, kp_which = RawCode 30\<rparr>]"
    using s1 s2 st1 by (simp add: input_effect_def del: server_exec.simps)
  with server_refines_streams [OF _ s0 run] have
    "abs_streams (input_part (obj s2)) VIRTUAL_KEYBOARD = [mk_event EV_KEY 30 1, syn_report]"
    by (simp add: counting_kernel_ok spec_input_def packet_events_def syn_report_def del: served_inputs.simps)
  with st2 show ?thesis by blast
qed





end
