(* ===== verification/Slim_Server.thy ===== *)
theory Slim_Server
  imports Server_Properties
begin

text \<open>
  The server of a build without the recorder (\<open>BUILD_RECORDER\<close> off): the \<open>#else\<close> branches of
  \<open>server/TestRunnerServer.cpp\<close> and the class of \<open>server/TestRunnerServer.h\<close> without the recorder
  members and overrides. The recorder's methods stay in the schema; Cap'n Proto's generated bodies
  answer them with \<open>internalUnimplemented\<close>. The build is compared with the full one, which serves as
  its specification.
\<close>

section \<open>The server without recorders\<close>

record slim_object =
  slim_input :: input_server
  slim_agl :: agl_plugin
  slim_shots :: nat

record slim_server =
  slim_obj :: slim_object
  slim_status :: status

text \<open>The flag for the snapshot recorder is ignored, and construction always ends.\<close>

definition construct_slim :: "environment \<Rightarrow> bool \<Rightarrow> bool \<Rightarrow> XkbConfig \<Rightarrow> slim_object" where
  "construct_slim E enable_plugins enable_snapshot_recorder xkb_cfg =
     (let s = construct_input (e_kernel E) (e_lib E) (e_getenv E) xkb_cfg raw_input;
          object = \<lparr>slim_input = s, slim_agl = construct_agl default_daemon_url, slim_shots = 0\<rparr>
      in if enable_plugins then init_plugins object else object)"

definition destruct_slim :: "environment \<Rightarrow> slim_object \<Rightarrow> input_server" where
  "destruct_slim E s = destruct_input (e_kernel E) (slim_input s)"

definition internalUnimplemented :: "'a result" where
  "internalUnimplemented = Inl (Kj_exception ''Method not implemented.'')"

fun handle_slim :: "environment \<Rightarrow> service_request \<Rightarrow> slim_object \<Rightarrow> service_reply result \<times> slim_object" where
  "handle_slim E (Input_request r) s =
     (case serve_input (e_kernel E) (e_lib E) r (slim_input s) of (rep, i) \<Rightarrow>
        (bind_result rep (\<lambda>_. Inr Input_reply), s\<lparr>slim_input := i\<rparr>))"
| "handle_slim E (Recorder_request r) s = (internalUnimplemented, s)"
| "handle_slim E (Agl_request r) s =
     (case handle_agl (e_curl E) (e_parse E) r (slim_agl s) of (rep, p) \<Rightarrow>
        (bind_result rep (\<lambda>q. Inr (Agl_reply q)), s\<lparr>slim_agl := p\<rparr>))"
| "handle_slim E TakeScreenshot s =
     (bind_result (takeScreenshot (e_wayland E (slim_shots s))) (\<lambda>q. Inr (Screenshot_reply q)),
      s\<lparr>slim_shots := Suc (slim_shots s)\<rparr>)"

definition serve_slim ::
  "environment \<Rightarrow> service_request \<Rightarrow> slim_server \<Rightarrow> service_reply result \<times> slim_server" where
  "serve_slim E req s =
     (case slim_status s of
        Serving \<Rightarrow> (case handle_slim E req (slim_obj s) of (r, s') \<Rightarrow>
                      (r, \<lparr>slim_obj = s', slim_status = result_status r\<rparr>))
      | Hung \<Rightarrow> (Inl Blocked_forever, s)
      | Dead e \<Rightarrow> (Inl e, s))"

section \<open>Both builds on a sequence of requests\<close>

fun serve_all :: "('req \<Rightarrow> 's \<Rightarrow> 'rep \<times> 's) \<Rightarrow> 'req list \<Rightarrow> 's \<Rightarrow> 'rep list \<times> 's" where
  "serve_all f [] s = ([], s)"
| "serve_all f (q # qs) s = (case f q s of (r, s') \<Rightarrow> (case serve_all f qs s' of (rs, s'') \<Rightarrow> (r # rs, s'')))"

fun recorder_call :: "service_request \<Rightarrow> bool" where
  "recorder_call (Recorder_request r) = True"
| "recorder_call q = False"

text \<open>The replies to the requests that are not for the recorder.\<close>

definition other_replies :: "service_request list \<Rightarrow> 'a list \<Rightarrow> 'a list" where
  "other_replies qs rs = map snd (filter (\<lambda>(q, r). \<not> recorder_call q) (zip qs rs))"

lemma other_replies_simps [simp]:
  "other_replies [] rs = []"
  "other_replies (q # qs) (r # rs) = (if recorder_call q then other_replies qs rs else r # other_replies qs rs)"
  by (simp_all add: other_replies_def)

text \<open>The abstraction: forget the recorders.\<close>

definition drop_recorders :: "server \<Rightarrow> slim_server" where
  "drop_recorders s = \<lparr>slim_obj = \<lparr>slim_input = input_part (obj s), slim_agl = agl_part (obj s), slim_shots = shots (obj s)\<rparr>,
     slim_status = status s\<rparr>"

lemma construct_slim_abs:
  assumes "construct_server E plugins snap cfg = Some s0"
  shows "\<lparr>slim_obj = construct_slim E plugins snap' cfg, slim_status = Serving\<rparr> =
    drop_recorders \<lparr>obj = s0, status = Serving\<rparr>"
  using assms
  by (auto simp: construct_server_def construct_slim_def drop_recorders_def init_plugins_def Let_def split: option.splits)

lemma serve_slim_other:
  assumes "\<not> recorder_call q"
  shows "serve_slim E q (drop_recorders s) = apsnd drop_recorders (serve_request E [] q s)"
  using assms
  by (cases q) (simp_all add: serve_slim_def serve_request_def drop_recorders_def split: status.split prod.split)

lemma serve_slim_recorder:
  assumes "recorder_call q"
  shows "serve_slim E q s =
    (case slim_status s of Serving \<Rightarrow> internalUnimplemented | Hung \<Rightarrow> Inl Blocked_forever | Dead e \<Rightarrow> Inl e, s)"
  using assms
  by (cases q) (simp_all add: serve_slim_def internalUnimplemented_def result_status_def split: status.split)

text \<open>A server that is not serving does not serve again.\<close>

lemma serve_slim_down: "slim_status s \<noteq> Serving \<Longrightarrow> snd (serve_slim E q s) = s"
  by (simp add: serve_slim_def split: status.split)

lemma serve_all_down:
  "slim_status s \<noteq> Serving \<Longrightarrow> slim_status (snd (serve_all (serve_slim E) qs s)) \<noteq> Serving"
  by (induction qs) (simp_all add: case_prod_beta serve_slim_down)

lemma slim_simulates:
  "other_replies qs (fst (serve_all (serve_slim E) qs (drop_recorders s))) =
     fst (serve_all (serve_request E []) (filter (\<lambda>q. \<not> recorder_call q) qs) s) \<and>
   snd (serve_all (serve_slim E) qs (drop_recorders s)) =
     drop_recorders (snd (serve_all (serve_request E []) (filter (\<lambda>q. \<not> recorder_call q) qs) s))"
proof (induction qs arbitrary: s)
  case (Cons q qs)
  then show ?case
    by (cases "recorder_call q") (simp_all add: serve_slim_recorder serve_slim_other case_prod_beta)
qed simp

lemma slim_recorder_replies:
  assumes "slim_status (snd (serve_all (serve_slim E) qs s)) = Serving"
    and "(q, r) \<in> set (zip qs (fst (serve_all (serve_slim E) qs s)))" and "recorder_call q"
  shows "r = internalUnimplemented"
  using assms
proof (induction qs arbitrary: s)
  case (Cons p qs)
  have "slim_status s = Serving" using serve_all_down Cons.prems(1) by blast
  then show ?case
    using Cons.IH [of "snd (serve_slim E p s)"] Cons.prems
    by (auto simp: case_prod_beta serve_slim_recorder)
qed simp

lemma serve_all_reachable:
  assumes "server_sys.reachable E plugins snap cfg s"
  shows "server_sys.reachable E plugins snap cfg (snd (serve_all (serve_request E []) qs s))"
  using assms
proof (induction qs arbitrary: s)
  case (Cons q qs)
  have "server_step E s (Sl_call [] q) (snd (serve_request E [] q s))" by (rule server_step) simp
  then have "server_sys.run E s [Sl_call [] q] (snd (serve_request E [] q s))"
    by (meson server_sys.run_cons server_sys.run_nil)
  with Cons show ?case by (simp add: case_prod_beta server_sys.reachable_run)
qed simp

section \<open>Properties\<close>

text \<open>C34: The build without the recorder behaves like the full server, with any setting of the snapshot
  recorder, on the requests that are not for a recorder: on any sequence of requests it gives the same
  replies to them and ends in the same state of the virtual devices, the metrics plugin and the
  screenshots, and is blocked or ended exactly when the full server is; as long as it serves, every
  recorder request in the sequence is answered with the exception for an unimplemented method; and its
  destructor leaves no virtual device behind.\<close>

theorem slim_build_equivalent:
  assumes "construct_server E plugins snap cfg = Some s0"
    and "serve_all (serve_request E []) (filter (\<lambda>q. \<not> recorder_call q) qs) \<lparr>obj = s0, status = Serving\<rparr> = (rs, s)"
    and "serve_all (serve_slim E) qs \<lparr>slim_obj = construct_slim E plugins snap' cfg, slim_status = Serving\<rparr> = (rs', s')"
  shows "other_replies qs rs' = rs \<and> s' = drop_recorders s \<and>
    (slim_status s' = Serving \<longrightarrow>
      (\<forall>(q, r) \<in> set (zip qs rs'). recorder_call q \<longrightarrow> r = Inl (Kj_exception ''Method not implemented.''))) \<and>
    (kernel_ok (e_kernel E) \<longrightarrow> (\<forall>fd. dev_state (e_kernel E) fd (hist (destruct_slim E (slim_obj s'))) = U_absent))"
proof (intro conjI)
  let ?s = "\<lparr>obj = s0, status = Serving\<rparr>"
  have slim: "serve_all (serve_slim E) qs (drop_recorders ?s) = (rs', s')"
    using assms(3) by (simp only: construct_slim_abs [OF assms(1)])
  show "other_replies qs rs' = rs" and s': "s' = drop_recorders s"
    using slim_simulates [of qs E ?s] by (simp_all add: slim assms(2))
  show "slim_status s' = Serving \<longrightarrow>
      (\<forall>(q, r) \<in> set (zip qs rs'). recorder_call q \<longrightarrow> r = Inl (Kj_exception ''Method not implemented.''))"
    using slim_recorder_replies [of E qs "drop_recorders ?s"] by (auto simp: slim internalUnimplemented_def)
  have "server_sys.reachable E plugins snap cfg s"
    using serve_all_reachable [OF server_sys.reachable_init, of E plugins snap cfg ?s] assms(1,2)
    by (metis server_init_def snd_conv)
  from server_parts_reachable(1) [OF this]
  show "kernel_ok (e_kernel E) \<longrightarrow> (\<forall>fd. dev_state (e_kernel E) fd (hist (destruct_slim E (slim_obj s'))) = U_absent)"
    using destruct_input_inv [OF _ reachable_running]
    by (simp add: s' drop_recorders_def destruct_slim_def server_inv_def)
qed

theorem slim_build_equivalent_witness:
  "\<exists>r s'. serve_all (serve_slim desk_env)
      [Recorder_request Rec_getSnapshot, Input_request (Req_MouseMove \<lparr>relX = 5, relY = - 3\<rparr>)]
      \<lparr>slim_obj = construct_slim desk_env True True empty_cfg, slim_status = Serving\<rparr> =
        ([Inl (Kj_exception ''Method not implemented.''), Inr r], s') \<and>
    (\<forall>fd. dev_state counting_kernel fd (hist (destruct_slim desk_env (slim_obj s'))) = U_absent)"
proof -
  let ?qs = "[Recorder_request Rec_getSnapshot, Input_request (Req_MouseMove \<lparr>relX = 5, relY = - 3\<rparr>)]"
  obtain s0 m where s0: "construct_server desk_env True True empty_cfg = Some s0" by (rule desk_server)
  obtain rs s where full: "serve_all (serve_request desk_env []) (filter (\<lambda>q. \<not> recorder_call q) ?qs)
      \<lparr>obj = s0, status = Serving\<rparr> = (rs, s)" by fastforce
  obtain rs' s' where slim: "serve_all (serve_slim desk_env) ?qs
      \<lparr>slim_obj = construct_slim desk_env True True empty_cfg, slim_status = Serving\<rparr> = (rs', s')" by fastforce
  have "rs' = [Inl (Kj_exception ''Method not implemented.''), Inr Input_reply]"
    using slim by (auto simp: serve_slim_def internalUnimplemented_def result_status_def serve_input_def)
  moreover have "\<forall>fd. dev_state counting_kernel fd (hist (destruct_slim desk_env (slim_obj s'))) = U_absent"
    using slim_build_equivalent [OF s0 full slim] by (auto simp: counting_kernel_ok)
  ultimately show ?thesis using slim by blast
qed

end
