(* ===== verification/Remote_Server.thy ===== *)
theory Remote_Server
  imports Server_Properties Client_Properties
begin

text \<open>
  The client library and the whole server together, over a network that may lose or delay any call: what a
  session of calls of all interfaces does to the server, and what a client knows of a recording whose path
  it receives.
\<close>

section \<open>The server behind the network\<close>

text \<open>Between two requests the threads of the recorders make steps; one that cannot be made is left out.\<close>

definition thread_event :: "environment \<Rightarrow> thread_id \<times> rlabel \<Rightarrow> server \<Rightarrow> server" where
  "thread_event E ev s = (case server_exec E (Sl_thread (fst ev) (snd ev)) s of None \<Rightarrow> s | Some s' \<Rightarrow> s')"

type_synonym timed_request = "(thread_id \<times> rlabel) list \<times> rlabel list \<times> service_request"

definition serve_call :: "environment \<Rightarrow> timed_request \<Rightarrow> server \<Rightarrow> service_reply result \<times> server" where
  "serve_call E tr s = (case tr of (ths, sched, req) \<Rightarrow> serve_request E sched req (fold (thread_event E) ths s))"

text \<open>The methods of the recorder interface, whose replies have their own type.\<close>

definition recorder_server ::
  "environment \<Rightarrow> (thread_id \<times> rlabel) list \<Rightarrow> rlabel list \<Rightarrow> recorder_request \<Rightarrow> server \<Rightarrow> recorder_reply result \<times> server" where
  "recorder_server E ths sched r s =
     (case serve_call E (ths, sched, Recorder_request r) s of (rep, s') \<Rightarrow>
        (bind_result rep (\<lambda>q. case q of Recorder_reply p \<Rightarrow> Inr p | _ \<Rightarrow> Inl (Kj_exception ''unexpected reply'')), s'))"

section \<open>Steps between the requests\<close>

lemma thread_event_keeps:
  assumes "server_sys.reachable E plugins snap cfg s"
  shows "server_sys.reachable E plugins snap cfg (thread_event E ev s)"
  using server_sys.reachable_run [OF assms server_sys.run_singleton [OF server_step]] assms
  by (auto simp: thread_event_def simp del: server_exec.simps split: option.split)

lemma thread_events_keep:
  "server_sys.reachable E plugins snap cfg s \<Longrightarrow> server_sys.reachable E plugins snap cfg (fold (thread_event E) ths s)"
  by (induction ths arbitrary: s) (simp_all add: thread_event_keeps)

lemma serve_request_keeps:
  assumes "server_sys.reachable E plugins snap cfg s"
  shows "server_sys.reachable E plugins snap cfg (snd (serve_request E sched req s))"
  by (rule server_sys.reachable_run [OF assms server_sys.run_singleton [OF server_step [of _ "Sl_call sched req"]]]) simp

interpretation server_remote: remote_service "serve_call E" "server_sys.reachable E plugins snap cfg"
  for E plugins snap cfg
  by unfold_locales (simp add: serve_call_def serve_request_keeps thread_events_keep split: prod.split)

text \<open>The threads of the recorders never touch the virtual devices, nor the number of recorders.\<close>

lemma thread_step_length:
  "thread_step E t l sv = Some (m', sv') \<Longrightarrow> length (custom_recorders sv') = length (custom_recorders sv)"
  by (cases t) (auto simp del: rec_exec.simps split: if_splits option.splits)

lemma thread_event_parts:
  "input_part (obj (thread_event E ev s)) = input_part (obj s)"
  "length (custom_recorders (recorder_part (obj (thread_event E ev s)))) = length (custom_recorders (recorder_part (obj s)))"
proof -
  have "input_part (obj (thread_event E ev s)) = input_part (obj s) \<and>
      length (custom_recorders (recorder_part (obj (thread_event E ev s)))) = length (custom_recorders (recorder_part (obj s)))"
  proof (cases "server_exec E (Sl_thread (fst ev) (snd ev)) s")
    case (Some s')
    then obtain m' sv where step: "thread_step E (fst ev) (snd ev) (recorder_part (obj s)) = Some (m', sv)"
      and s': "s' = \<lparr>obj = (obj s)\<lparr>recorder_part := sv\<rparr>, status = thread_status m' (status s)\<rparr>"
      by (auto split: if_splits option.splits)
    have "thread_event E ev s = s'" unfolding thread_event_def Some by (rule option.case(2))
    with thread_step_length [OF step] s' show ?thesis by simp
  qed (simp add: thread_event_def del: server_exec.simps)
  then show "input_part (obj (thread_event E ev s)) = input_part (obj s)"
    "length (custom_recorders (recorder_part (obj (thread_event E ev s)))) = length (custom_recorders (recorder_part (obj s)))"
    by (rule conjunct1, rule conjunct2)
qed

lemma thread_events_parts:
  "input_part (obj (fold (thread_event E) ths s)) = input_part (obj s)"
  "length (custom_recorders (recorder_part (obj (fold (thread_event E) ths s)))) =
     length (custom_recorders (recorder_part (obj s)))"
  by (induction ths arbitrary: s) (simp_all add: thread_event_parts)

section \<open>Sessions\<close>

fun input_of :: "timed_request \<Rightarrow> input_request list" where
  "input_of (ths, sched, Input_request r) = [r]"
| "input_of (ths, sched, _) = []"

lemma serve_call_input:
  shows "input_part (obj (snd (serve_call E tr s))) =
     fold (handle_input (e_kernel E) (e_lib E)) (input_of tr) (input_part (obj s)) \<or>
   \<not> ok_result (fst (serve_call E tr s)) \<and> input_part (obj (snd (serve_call E tr s))) = input_part (obj s)"
proof -
  obtain ths sched req where tr: "tr = (ths, sched, req)" by (cases tr)
  let ?s = "fold (thread_event E) ths s"
  show ?thesis
  proof (cases "status ?s")
    case Serving
    obtain r ob where r: "handle_request E sched req (obj ?s) = (r, ob)" by fastforce
    then have "serve_call E tr s = (r, \<lparr>obj = ob, status = result_status r\<rparr>)"
      using Serving by (simp add: tr serve_call_def serve_request_def)
    with handle_request_input [OF r] show ?thesis by (cases req) (simp_all add: tr thread_events_parts)
  qed (simp_all add: tr serve_call_def serve_request_def thread_events_parts)
qed

text \<open>The input requests of the calls that a mask selects.\<close>

fun chosen_inputs :: "bool list \<Rightarrow> (fate \<times> timed_request result) list \<Rightarrow> input_request list" where
  "chosen_inputs (b # bs) ((f, request) # calls) =
     (if b then (case request of Inr tr \<Rightarrow> input_of tr | Inl e \<Rightarrow> []) else []) @ chosen_inputs bs calls"
| "chosen_inputs _ _ = []"

lemma remote_call_input:
  assumes "rpc_call (deliver (serve_call E) f) request (c, s) = (r, c', s')"
  shows "\<exists>b. (ok_result r \<longrightarrow> b) \<and> input_part (obj s') =
    fold (handle_input (e_kernel E) (e_lib E)) (chosen_inputs [b] [(f, request)]) (input_part (obj s))"
proof (cases "ok_result r")
  case True
  then obtain rep where "r = Inr rep" by (auto simp: ok_result_def split: sum.splits)
  with rpc_call_Inr(2) [of "serve_call E" f request c s rep c' s'] assms obtain tr where
    "request = Inr tr" "serve_call E tr s = (Inr rep, s')" by auto
  with serve_call_input [of E tr s] show ?thesis by auto
next
  case False
  have skip: "input_part (obj s') = input_part (obj s) \<Longrightarrow> ?thesis"
    using False by (intro exI [of _ False]) simp
  from rpc_call_effect [of "serve_call E" f request c s] assms consider "s' = s"
    | tr where "request = Inr tr" "s' = snd (serve_call E tr s)" by auto
  then show ?thesis
  proof cases
    case 2
    from serve_call_input [of E tr s] show ?thesis
    proof
      assume "input_part (obj (snd (serve_call E tr s))) =
        fold (handle_input (e_kernel E) (e_lib E)) (input_of tr) (input_part (obj s))"
      with 2 show ?thesis by (intro exI [of _ True]) simp
    qed (use 2 skip in blast)
  qed (use skip in simp)
qed

lemma remote_session_input:
  assumes "rpc_session (serve_call E) calls (c, s) = (rs, c', s')"
  shows "\<exists>bs. length bs = length calls \<and> length rs = length calls \<and> (\<forall>i < length calls. ok_result (rs ! i) \<longrightarrow> bs ! i) \<and>
    input_part (obj s') = fold (handle_input (e_kernel E) (e_lib E)) (chosen_inputs bs calls) (input_part (obj s))"
  using assms
proof (induction calls arbitrary: c s rs)
  case (Cons call calls)
  obtain f request where call: "call = (f, request)" by (cases call)
  obtain r c1 s1 where r: "rpc_call (deliver (serve_call E) f) request (c, s) = (r, c1, s1)" by (metis prod.exhaust)
  obtain rs1 where rs1: "rpc_session (serve_call E) calls (c1, s1) = (rs1, c', s')" "rs = r # rs1"
    using Cons.prems by (auto simp: call r split: prod.splits)
  obtain b where b: "ok_result r \<longrightarrow> b" "input_part (obj s1) =
      fold (handle_input (e_kernel E) (e_lib E)) (chosen_inputs [b] [(f, request)]) (input_part (obj s))"
    using remote_call_input [OF r] by blast
  obtain bs where bs: "length bs = length calls" "length rs1 = length calls" "\<forall>i < length calls. ok_result (rs1 ! i) \<longrightarrow> bs ! i"
    "input_part (obj s') = fold (handle_input (e_kernel E) (e_lib E)) (chosen_inputs bs calls) (input_part (obj s1))"
    using Cons.IH [OF rs1(1)] by blast
  have "\<forall>i < length (call # calls). ok_result (rs ! i) \<longrightarrow> (b # bs) ! i"
    using b(1) bs(3) rs1(2) by (auto simp: less_Suc_eq_0_disj)
  with b(2) bs rs1(2) show ?case by (intro exI [of _ "b # bs"]) (simp add: call)
qed (simp add: exI [of _ "[]"])

section \<open>Recordings\<close>

lemma recorder_server_Inr:
  assumes "recorder_server E ths sched r s = (Inr q, s')"
  obtains sv where "serve_recorder (e_kernel E) (e_rec_xkb E) sched r (recorder_part (obj (fold (thread_event E) ths s))) = (Inr q, sv)"
    "recorder_part (obj s') = sv" "status s' = Serving"
proof -
  let ?s = "fold (thread_event E) ths s"
  obtain rep sv where sv: "serve_recorder (e_kernel E) (e_rec_xkb E) sched r (recorder_part (obj ?s)) = (rep, sv)" by fastforce
  with assms have "rep = Inr q \<and> recorder_part (obj s') = sv \<and> status s' = Serving"
    by (cases "status ?s"; cases rep) (auto simp: recorder_server_def serve_call_def serve_request_def result_status_def)
  with sv that show thesis by blast
qed

lemma map_reply_Inr: "map_reply g x = (Inr p, y) \<longleftrightarrow> (\<exists>q. x = (Inr q, y) \<and> p = g q)"
  by (cases x; cases "fst x") (auto simp: map_reply_def)

text \<open>The desk's server after its snapshot recorder has begun.\<close>

lemma desk_begun_exec:
  assumes "recorder_part s0 = \<lparr>snapshot_recorder = Some m, custom_recorders = []\<rparr>" "mpc m = Main_idle"
    "rpc m = Rec_spawned" "m_continuous (rst m)" "available_devices (rst m) = []"
  obtains m' where "mpc m' = Main_idle" "rpc m' = Rec_loop" "bpc m' = Buf_check" "m_continuous (rst m')"
    "thread_event desk_env (Snapshot_thread, L_begin) \<lparr>obj = s0, status = Serving\<rparr> =
       \<lparr>obj = s0\<lparr>recorder_part := \<lparr>snapshot_recorder = Some m', custom_recorders = []\<rparr>\<rparr>, status = Serving\<rparr>"
proof -
  have "length (available_devices (rst m)) \<le> 64" by (simp add: assms(5))
  then obtain m' where m': "rec_exec counting_kernel blind_xkb L_begin m = Some m'" "mpc m' = Main_idle"
    "rpc m' = Rec_loop" "bpc m' = Buf_check" "m_continuous (rst m')"
    by (rule snapshot_begins [OF assms(2-4)])
  then show thesis
    using assms(1) by (intro that [of m'])
      (simp_all add: thread_event_def thread_label_def thread_status_def del: rec_exec.simps)
qed

lemma desk_begun:
  assumes "recorder_part s0 = \<lparr>snapshot_recorder = Some m, custom_recorders = []\<rparr>" "mpc m = Main_idle"
    "rpc m = Rec_spawned" "m_continuous (rst m)" "available_devices (rst m) = []"
  shows "status (thread_event desk_env (Snapshot_thread, L_begin) \<lparr>obj = s0, status = Serving\<rparr>) = Serving"
proof -
  obtain m' where "thread_event desk_env (Snapshot_thread, L_begin) \<lparr>obj = s0, status = Serving\<rparr> =
       \<lparr>obj = s0\<lparr>recorder_part := \<lparr>snapshot_recorder = Some m', custom_recorders = []\<rparr>\<rparr>, status = Serving\<rparr>"
    using desk_begun_exec [OF assms] by metis
  then show ?thesis by simp
qed

section \<open>Properties\<close>

text \<open>C5: A session of calls of all interfaces over an unreliable network: whatever the network does to the calls and
  however the threads of the recorders run in between, each virtual device has received the packets of a
  selection of the session's input calls, each at most once and in their order, and the selection contains
  every call that was answered; this also holds when another call of the session blocks or ends the server.\<close>

theorem remote_session_streams:
  assumes "kernel_ok (e_kernel E)" and "construct_server E plugins snap cfg = Some s0"
    and "rpc_session (serve_call E) calls (c, \<lparr>obj = s0, status = Serving\<rparr>) = (rs, c', s)"
  shows "\<exists>bs. length bs = length calls \<and> (\<forall>i < length calls. ok_result (rs ! i) \<longrightarrow> bs ! i) \<and>
    abs_streams (input_part (obj s)) = fold (spec_input (e_lib E) (configured_keymap (e_lib E) (e_getenv E) cfg))
      (chosen_inputs bs calls) (\<lambda>_. [])"
proof -
  have raw: "hist raw_input = []" "m_xkb_keymap raw_input = None" by (simp_all add: raw_input_def)
  obtain bs where "length bs = length calls" "\<forall>i < length calls. ok_result (rs ! i) \<longrightarrow> bs ! i"
    "input_part (obj s) = fold (handle_input (e_kernel E) (e_lib E)) (chosen_inputs bs calls) (input_part s0)"
    using remote_session_input [OF assms(3)] by auto
  with construct_run_refines [OF assms(1) raw] construct_server_parts(1) [OF assms(2)] show ?thesis by auto
qed

theorem remote_session_streams_witness:
  "\<exists>s0 rs c' s. construct_server desk_env True True empty_cfg = Some s0 \<and>
     rpc_session (serve_call desk_env)
       [(Delivered, Inr ([(Snapshot_thread, L_begin)], [], Input_request (Req_KeyPress \<lparr>kp_pressed = True, kp_which = RawCode 30\<rparr>)))]
       (desk_client, \<lparr>obj = s0, status = Serving\<rparr>) = (rs, c', s) \<and>
     abs_streams (input_part (obj s)) VIRTUAL_KEYBOARD = [mk_event EV_KEY 30 1, syn_report]"
proof -
  obtain s0 m where s0: "construct_server desk_env True True empty_cfg = Some s0" and s0_part:
    "recorder_part s0 = \<lparr>snapshot_recorder = Some m, custom_recorders = []\<rparr>"
    and m: "mpc m = Main_idle" "rpc m = Rec_spawned" "m_continuous (rst m)" "available_devices (rst m) = []"
    by (rule desk_server)
  let ?s = "\<lparr>obj = s0, status = Serving\<rparr>"
  let ?key = "Input_request (Req_KeyPress \<lparr>kp_pressed = True, kp_which = RawCode 30\<rparr>)"
  let ?calls = "[(Delivered, Inr ([(Snapshot_thread, L_begin)], [], ?key))]"
  obtain rs c' s where r: "rpc_session (serve_call desk_env) ?calls (desk_client, ?s) = (rs, c', s)" by (metis prod.exhaust)
  have "status (thread_event desk_env (Snapshot_thread, L_begin) ?s) = Serving"
    by (rule desk_begun [OF s0_part m])
  then have "fst (serve_call desk_env ([(Snapshot_thread, L_begin)], [], ?key) ?s) = Inr Input_reply"
    by (simp add: serve_call_def serve_request_def serve_input_def split: prod.split)
  then have "ok_result (rs ! 0)"
    using r by (auto simp: rpc_call_connected [OF client_reachable_inv [OF desk_client_reachable] desk_client_connected]
        waitWithTimeout_def apfst_def map_prod_def split: prod.splits)
  moreover obtain bs where bs: "length bs = length ?calls" "\<forall>i < length ?calls. ok_result (rs ! i) \<longrightarrow> bs ! i"
    "abs_streams (input_part (obj s)) = fold (spec_input (e_lib desk_env)
       (configured_keymap (e_lib desk_env) (e_getenv desk_env) empty_cfg)) (chosen_inputs bs ?calls) (\<lambda>_. [])"
    using remote_session_streams [OF _ s0 r] by (auto simp: counting_kernel_ok)
  ultimately have "bs = [True]" by (cases bs) auto
  with bs(3) have "abs_streams (input_part (obj s)) VIRTUAL_KEYBOARD = [mk_event EV_KEY 30 1, syn_report]"
    by (simp add: spec_input_def packet_events_def syn_report_def)
  with s0 r show ?thesis by blast
qed



end
