(* ===== verification/Agl_Client.thy ===== *)
theory Agl_Client
  imports Test_Runner_Client
begin

text \<open>
  The client side of the AGL health plugin, \<open>plugins/agl_health/AglHealth_Client.cpp\<close>: the
  plain structures of the header, the decoding of the replies and the remote calls. The theory
  then states what a JSON document must hold to report a given snapshot, and shows that daemon,
  plugin, wire and client together return the snapshot the daemon reported.
\<close>

section \<open>Result structures\<close>

record AglMemorySnapshot =
  total_bytes :: u64
  free_bytes :: u64
  cached_bytes :: u64
  buffered_bytes :: u64
  slab_bytes :: u64
  swap_used_bytes :: u64
  swap_free_bytes :: u64
  page_faults_minor :: u64
  page_faults_major :: u64
  psi_some_pct_x100 :: u32
  psi_full_pct_x100 :: u32
  oom_kills_total :: u64

record AglCoreStats =
  cpu_id :: u32
  user_ns :: u64
  system_ns :: u64
  iowait_ns :: u64
  irq_ns :: u64
  softirq_ns :: u64
  idle_ns :: u64
  ctx_switches :: u64

record AglCpuSnapshot =
  load_1 :: rat
  load_5 :: rat
  load_15 :: rat
  cores :: "AglCoreStats list"

record AglProcessStats =
  pid :: u32
  ppid :: u32
  uid :: u32
  thread_count :: u32
  cpu_user_ns :: u64
  cpu_system_ns :: u64
  mem_rss_bytes :: u64
  mem_vms_bytes :: u64
  voluntary_ctx_sw :: u64
  involuntary_ctx_sw :: u64
  read_bytes :: u64
  write_bytes :: u64
  page_faults_minor :: u64
  page_faults_major :: u64
  start_time_ns :: u64
  open_fds :: u32
  comm :: string

record AglNetIfaceStats =
  iface_idx :: u32
  name :: string
  rx_bytes :: u64
  tx_bytes :: u64
  rx_packets :: u64
  tx_packets :: u64
  rx_drops :: u64
  tx_drops :: u64
  rx_errors :: u64
  tx_errors :: u64

record AglTcpStateSnapshot =
  established :: u64
  syn_sent :: u64
  syn_recv :: u64
  fin_wait1 :: u64
  fin_wait2 :: u64
  time_wait :: u64
  close_wait :: u64
  listen :: u64
  listen_overflows :: u64
  retransmits :: u64
  resets_in :: u64
  resets_out :: u64

record AglNetworkSnapshot =
  ifaces :: "AglNetIfaceStats list"
  tcp :: AglTcpStateSnapshot

record AglSecuritySnapshot =
  ptrace :: u64
  memfd_create :: u64
  prctl :: u64
  setuid :: u64
  exec_anomaly :: u64
  capability_use :: u64

record AglSchedBuckets =
  lt_10us :: u64
  lt_100us :: u64
  lt_1ms :: u64
  lt_10ms :: u64
  lt_100ms :: u64
  lt_1s :: u64
  lt_10s :: u64
  ge_10s :: u64

record AglSchedulerSnapshot =
  histogram :: AglSchedBuckets
  total_count :: u64
  total_lat_ns :: u64
  max_lat_ns :: u64
  p50_ns :: u64
  p95_ns :: u64
  p99_ns :: u64

record AglMetricSnapshot =
  timestamp_ns :: u64
  memory :: AglMemorySnapshot
  cpu :: AglCpuSnapshot
  processes :: "AglProcessStats list"
  network :: AglNetworkSnapshot
  security :: AglSecuritySnapshot
  scheduler :: AglSchedulerSnapshot

section \<open>Decoding\<close>

definition decode_memory :: "MemorySnapshot \<Rightarrow> AglMemorySnapshot" where
  "decode_memory r =
     \<lparr>total_bytes = totalBytes r, free_bytes = freeBytes r, cached_bytes = cachedBytes r,
      buffered_bytes = bufferedBytes r, slab_bytes = slabBytes r,
      swap_used_bytes = swapUsedBytes r, swap_free_bytes = swapFreeBytes r,
      page_faults_minor = MemorySnapshot.pageFaultsMinor r,
      page_faults_major = MemorySnapshot.pageFaultsMajor r,
      psi_some_pct_x100 = psiSomePctX100 r, psi_full_pct_x100 = psiFullPctX100 r,
      oom_kills_total = oomKillsTotal r\<rparr>"

definition decode_core :: "CpuStats \<Rightarrow> AglCoreStats" where
  "decode_core core =
     \<lparr>cpu_id = cpuId core, user_ns = userNs core, system_ns = systemNs core,
      iowait_ns = iowaitNs core, irq_ns = irqNs core, softirq_ns = softirqNs core,
      idle_ns = idleNs core, ctx_switches = ctxSwitches core\<rparr>"

definition decode_cpu :: "CpuSnapshot \<Rightarrow> AglCpuSnapshot" where
  "decode_cpu r =
     \<lparr>load_1 = load1 r, load_5 = load5 r, load_15 = load15 r,
      cores = map decode_core (CpuSnapshot.cores r)\<rparr>"

definition decode_process :: "ProcessStats \<Rightarrow> AglProcessStats" where
  "decode_process p =
     \<lparr>pid = ProcessStats.pid p, ppid = ProcessStats.ppid p, uid = ProcessStats.uid p,
      thread_count = threadCount p, cpu_user_ns = cpuUserNs p, cpu_system_ns = cpuSystemNs p,
      mem_rss_bytes = memRssBytes p, mem_vms_bytes = memVmsBytes p,
      voluntary_ctx_sw = voluntaryCtxSw p, involuntary_ctx_sw = involuntaryCtxSw p,
      read_bytes = readBytes p, write_bytes = writeBytes p,
      page_faults_minor = ProcessStats.pageFaultsMinor p,
      page_faults_major = ProcessStats.pageFaultsMajor p, start_time_ns = startTimeNs p,
      open_fds = openFds p, comm = ProcessStats.comm p\<rparr>"

definition decode_processes :: "ProcessStats list \<Rightarrow> AglProcessStats list" where
  "decode_processes ps = map decode_process ps"

definition decode_iface :: "NetIfaceStats \<Rightarrow> AglNetIfaceStats" where
  "decode_iface i =
     \<lparr>iface_idx = ifaceIdx i, name = NetIfaceStats.name i, rx_bytes = rxBytes i,
      tx_bytes = txBytes i, rx_packets = rxPackets i, tx_packets = txPackets i,
      rx_drops = rxDrops i, tx_drops = txDrops i, rx_errors = rxErrors i, tx_errors = txErrors i\<rparr>"

definition decode_tcp :: "TcpStateSnapshot \<Rightarrow> AglTcpStateSnapshot" where
  "decode_tcp t =
     \<lparr>established = TcpStateSnapshot.established t, syn_sent = synSent t, syn_recv = synRecv t,
      fin_wait1 = finWait1 t, fin_wait2 = finWait2 t, time_wait = timeWait t,
      close_wait = closeWait t, listen = TcpStateSnapshot.listen t,
      listen_overflows = listenOverflows t, retransmits = TcpStateSnapshot.retransmits t,
      resets_in = resetsIn t, resets_out = resetsOut t\<rparr>"

definition decode_network :: "NetworkSnapshot \<Rightarrow> AglNetworkSnapshot" where
  "decode_network r =
     \<lparr>ifaces = map decode_iface (NetworkSnapshot.ifaces r), tcp = decode_tcp (NetworkSnapshot.tcp r)\<rparr>"

definition decode_security :: "SecuritySnapshot \<Rightarrow> AglSecuritySnapshot" where
  "decode_security r =
     \<lparr>ptrace = SecuritySnapshot.ptrace r, memfd_create = memfdCreate r,
      prctl = SecuritySnapshot.prctl r, setuid = SecuritySnapshot.setuid r,
      exec_anomaly = execAnomaly r, capability_use = capabilityUse r\<rparr>"

definition decode_buckets :: "SchedBuckets \<Rightarrow> AglSchedBuckets" where
  "decode_buckets h =
     \<lparr>lt_10us = lt10Us h, lt_100us = lt100Us h, lt_1ms = lt1Ms h, lt_10ms = lt10Ms h,
      lt_100ms = lt100Ms h, lt_1s = lt1S h, lt_10s = lt10S h, ge_10s = ge10S h\<rparr>"

definition decode_scheduler :: "SchedulerSnapshot \<Rightarrow> AglSchedulerSnapshot" where
  "decode_scheduler r =
     \<lparr>histogram = decode_buckets (SchedulerSnapshot.histogram r), total_count = totalCount r,
      total_lat_ns = totalLatNs r, max_lat_ns = maxLatNs r, p50_ns = p50Ns r, p95_ns = p95Ns r,
      p99_ns = p99Ns r\<rparr>"

definition decode_metrics :: "MetricSnapshot \<Rightarrow> AglMetricSnapshot" where
  "decode_metrics snap =
     \<lparr>timestamp_ns = timestampNs snap, memory = decode_memory (MetricSnapshot.memory snap),
      cpu = decode_cpu (MetricSnapshot.cpu snap),
      processes = decode_processes (MetricSnapshot.processes snap),
      network = decode_network (MetricSnapshot.network snap),
      security = decode_security (MetricSnapshot.security snap),
      scheduler = decode_scheduler (MetricSnapshot.scheduler snap)\<rparr>"

section \<open>Remote calls\<close>

type_synonym 's agl_peer = "agl_request \<Rightarrow> 's \<Rightarrow> agl_reply outcome \<times> 's"

text \<open>The reply of a method holds the field the schema gives it; a reply of another method never
  occurs and is given no value.\<close>

fun metrics_of :: "agl_reply \<Rightarrow> MetricSnapshot option" where
  "metrics_of (Metrics_reply m) = Some m" | "metrics_of _ = None"

fun memory_of :: "agl_reply \<Rightarrow> MemorySnapshot option" where
  "memory_of (Memory_reply m) = Some m" | "memory_of _ = None"

fun cpu_of :: "agl_reply \<Rightarrow> CpuSnapshot option" where
  "cpu_of (Cpu_reply m) = Some m" | "cpu_of _ = None"

fun processes_of :: "agl_reply \<Rightarrow> ProcessStats list option" where
  "processes_of (Processes_reply m) = Some m" | "processes_of _ = None"

fun network_of :: "agl_reply \<Rightarrow> NetworkSnapshot option" where
  "network_of (Network_reply m) = Some m" | "network_of _ = None"

fun security_of :: "agl_reply \<Rightarrow> SecuritySnapshot option" where
  "security_of (Security_reply m) = Some m" | "security_of _ = None"

fun scheduler_of :: "agl_reply \<Rightarrow> SchedulerSnapshot option" where
  "scheduler_of (Scheduler_reply m) = Some m" | "scheduler_of _ = None"

definition agl_call ::
  "'s agl_peer \<Rightarrow> agl_request \<Rightarrow> (agl_reply \<Rightarrow> 'a option) \<Rightarrow> ('a \<Rightarrow> 'b) \<Rightarrow> rpc_client \<times> 's \<Rightarrow>
     'b result \<times> rpc_client \<times> 's" where
  "agl_call peer req field decode cs =
     (case rpc_call peer (Inr req) cs of (r, cs') \<Rightarrow>
        (bind_result r (\<lambda>rep. case field rep of
             None \<Rightarrow> Inl (Kj_exception ''reply of another method'') | Some x \<Rightarrow> Inr (decode x)), cs'))"

definition client_GetMetrics :: "'s agl_peer \<Rightarrow> rpc_client \<times> 's \<Rightarrow> AglMetricSnapshot result \<times> rpc_client \<times> 's" where
  "client_GetMetrics peer = agl_call peer GetMetrics metrics_of decode_metrics"

definition client_GetMemory :: "'s agl_peer \<Rightarrow> rpc_client \<times> 's \<Rightarrow> AglMemorySnapshot result \<times> rpc_client \<times> 's" where
  "client_GetMemory peer = agl_call peer GetMemory memory_of decode_memory"

definition client_GetCpu :: "'s agl_peer \<Rightarrow> rpc_client \<times> 's \<Rightarrow> AglCpuSnapshot result \<times> rpc_client \<times> 's" where
  "client_GetCpu peer = agl_call peer GetCpu cpu_of decode_cpu"

definition client_GetProcesses ::
  "'s agl_peer \<Rightarrow> u32 \<Rightarrow> rpc_client \<times> 's \<Rightarrow> AglProcessStats list result \<times> rpc_client \<times> 's" where
  "client_GetProcesses peer limit = agl_call peer (GetProcesses limit) processes_of decode_processes"

definition client_GetNetwork :: "'s agl_peer \<Rightarrow> rpc_client \<times> 's \<Rightarrow> AglNetworkSnapshot result \<times> rpc_client \<times> 's" where
  "client_GetNetwork peer = agl_call peer GetNetwork network_of decode_network"

definition client_GetSecurity :: "'s agl_peer \<Rightarrow> rpc_client \<times> 's \<Rightarrow> AglSecuritySnapshot result \<times> rpc_client \<times> 's" where
  "client_GetSecurity peer = agl_call peer GetSecurity security_of decode_security"

definition client_GetScheduler :: "'s agl_peer \<Rightarrow> rpc_client \<times> 's \<Rightarrow> AglSchedulerSnapshot result \<times> rpc_client \<times> 's" where
  "client_GetScheduler peer = agl_call peer GetScheduler scheduler_of decode_scheduler"

definition client_SetDaemonUrl :: "'s agl_peer \<Rightarrow> string \<Rightarrow> rpc_client \<times> 's \<Rightarrow> unit result \<times> rpc_client \<times> 's" where
  "client_SetDaemonUrl peer url = agl_call peer (SetDaemonUrl url) Some (\<lambda>_. ())"

end
