(* ===== verification/Agl_Roundtrip.thy ===== *)
theory Agl_Roundtrip
  imports Agl_Client Client_Properties
begin

text \<open>
  The metrics pipeline as a whole. The first part says which JSON documents report a given
  snapshot: the members the daemon documents, with possibly more beside them. The second part
  shows that the plugin fills its reply from such a document without error and that the client
  decodes the reply to the snapshot; a locale carries the argument from the elements of a list to
  the list. The last part is about documents that report nothing.
\<close>

section \<open>Documents that report a snapshot\<close>

definition num32 :: "u32 \<Rightarrow> json" where
  "num32 n = JUnsigned (ucast n)"

definition has_member :: "json \<Rightarrow> string \<Rightarrow> (json \<Rightarrow> bool) \<Rightarrow> bool" where
  "has_member d k P \<longleftrightarrow> (case json_find d k of Some v \<Rightarrow> P v | None \<Rightarrow> False)"

text \<open>An array whose elements report the given values, small enough for one list of the reply.\<close>

definition reports_list :: "nat \<Rightarrow> (json \<Rightarrow> 'a \<Rightarrow> bool) \<Rightarrow> json \<Rightarrow> 'a list \<Rightarrow> bool" where
  "reports_list words rep d xs \<longleftrightarrow>
     (case d of JArray ds \<Rightarrow> length ds * words \<le> 2 ^ 29 - 2 \<and> list_all2 rep ds xs | _ \<Rightarrow> False)"

definition reports_memory :: "json \<Rightarrow> AglMemorySnapshot \<Rightarrow> bool" where
  "reports_memory d m \<longleftrightarrow> carries
     [(''total_bytes'', JUnsigned (total_bytes m)), (''free_bytes'', JUnsigned (free_bytes m)),
      (''cached_bytes'', JUnsigned (cached_bytes m)), (''buffered_bytes'', JUnsigned (buffered_bytes m)),
      (''slab_bytes'', JUnsigned (slab_bytes m)), (''swap_used_bytes'', JUnsigned (swap_used_bytes m)),
      (''swap_free_bytes'', JUnsigned (swap_free_bytes m)),
      (''page_faults_minor'', JUnsigned (AglMemorySnapshot.page_faults_minor m)),
      (''page_faults_major'', JUnsigned (AglMemorySnapshot.page_faults_major m)),
      (''psi_some_pct_x100'', num32 (psi_some_pct_x100 m)), (''psi_full_pct_x100'', num32 (psi_full_pct_x100 m)),
      (''oom_kills_total'', JUnsigned (oom_kills_total m))] d"

definition reports_core :: "json \<Rightarrow> AglCoreStats \<Rightarrow> bool" where
  "reports_core d c \<longleftrightarrow> carries
     [(''cpu_id'', num32 (cpu_id c)), (''user_ns'', JUnsigned (user_ns c)),
      (''system_ns'', JUnsigned (system_ns c)), (''iowait_ns'', JUnsigned (iowait_ns c)),
      (''irq_ns'', JUnsigned (irq_ns c)), (''softirq_ns'', JUnsigned (softirq_ns c)),
      (''idle_ns'', JUnsigned (idle_ns c)), (''ctx_switches'', JUnsigned (ctx_switches c))] d"

definition reports_load :: "json \<Rightarrow> AglCpuSnapshot \<Rightarrow> bool" where
  "reports_load d c \<longleftrightarrow> carries
     [(''load_1'', JFloat (load_1 c)), (''load_5'', JFloat (load_5 c)), (''load_15'', JFloat (load_15 c))] d"

definition reports_cores :: "json \<Rightarrow> AglCoreStats list \<Rightarrow> bool" where
  "reports_cores = reports_list cpu_stats_words reports_core"

text \<open>The name of a process: a string, or its bytes, ended by a zero or by the end of the array.\<close>

definition reports_comm :: "json \<Rightarrow> string \<Rightarrow> bool" where
  "reports_comm d s \<longleftrightarrow>
     (case d of
        JString t \<Rightarrow> t = s
      | JArray bs \<Rightarrow> CHR 0x00 \<notin> set s \<and>
          take (length s) bs = map (\<lambda>c. JUnsigned (word_of_nat (of_char c))) s \<and>
          (length bs = length s \<or> length s < length bs \<and> bs ! length s = JUnsigned 0)
      | _ \<Rightarrow> False)"

definition reports_process :: "json \<Rightarrow> AglProcessStats \<Rightarrow> bool" where
  "reports_process d p \<longleftrightarrow> carries
     [(''pid'', num32 (pid p)), (''ppid'', num32 (ppid p)), (''uid'', num32 (uid p)),
      (''thread_count'', num32 (thread_count p)), (''cpu_user_ns'', JUnsigned (cpu_user_ns p)),
      (''cpu_system_ns'', JUnsigned (cpu_system_ns p)), (''mem_rss_bytes'', JUnsigned (mem_rss_bytes p)),
      (''mem_vms_bytes'', JUnsigned (mem_vms_bytes p)), (''voluntary_ctx_sw'', JUnsigned (voluntary_ctx_sw p)),
      (''involuntary_ctx_sw'', JUnsigned (involuntary_ctx_sw p)), (''read_bytes'', JUnsigned (read_bytes p)),
      (''write_bytes'', JUnsigned (write_bytes p)), (''page_faults_minor'', JUnsigned (page_faults_minor p)),
      (''page_faults_major'', JUnsigned (page_faults_major p)), (''start_time_ns'', JUnsigned (start_time_ns p)),
      (''open_fds'', num32 (open_fds p))] d \<and> has_member d ''comm'' (\<lambda>v. reports_comm v (comm p))"

definition reports_processes :: "json \<Rightarrow> AglProcessStats list \<Rightarrow> bool" where
  "reports_processes = reports_list process_stats_words reports_process"

definition reports_iface :: "json \<Rightarrow> AglNetIfaceStats \<Rightarrow> bool" where
  "reports_iface d i \<longleftrightarrow> carries
     [(''iface_idx'', num32 (iface_idx i)), (''name'', JString (name i)),
      (''rx_bytes'', JUnsigned (rx_bytes i)), (''tx_bytes'', JUnsigned (tx_bytes i)),
      (''rx_packets'', JUnsigned (rx_packets i)), (''tx_packets'', JUnsigned (tx_packets i)),
      (''rx_drops'', JUnsigned (rx_drops i)), (''tx_drops'', JUnsigned (tx_drops i)),
      (''rx_errors'', JUnsigned (rx_errors i)), (''tx_errors'', JUnsigned (tx_errors i))] d"

definition reports_ifaces :: "json \<Rightarrow> AglNetIfaceStats list \<Rightarrow> bool" where
  "reports_ifaces = reports_list iface_stats_words reports_iface"

definition reports_tcp :: "json \<Rightarrow> AglTcpStateSnapshot \<Rightarrow> bool" where
  "reports_tcp d t \<longleftrightarrow> carries
     [(''established'', JUnsigned (established t)), (''syn_sent'', JUnsigned (syn_sent t)),
      (''syn_recv'', JUnsigned (syn_recv t)), (''fin_wait1'', JUnsigned (fin_wait1 t)),
      (''fin_wait2'', JUnsigned (fin_wait2 t)), (''time_wait'', JUnsigned (time_wait t)),
      (''close_wait'', JUnsigned (close_wait t)), (''listen'', JUnsigned (listen t)),
      (''listen_overflows'', JUnsigned (listen_overflows t)), (''retransmits'', JUnsigned (retransmits t)),
      (''resets_in'', JUnsigned (resets_in t)), (''resets_out'', JUnsigned (resets_out t))] d"

definition reports_security :: "json \<Rightarrow> AglSecuritySnapshot \<Rightarrow> bool" where
  "reports_security d s \<longleftrightarrow> carries
     [(''ptrace'', JUnsigned (ptrace s)), (''memfd_create'', JUnsigned (memfd_create s)),
      (''prctl'', JUnsigned (prctl s)), (''setuid'', JUnsigned (setuid s)),
      (''exec_anomaly'', JUnsigned (exec_anomaly s)), (''capability_use'', JUnsigned (capability_use s))] d"

definition bucket_list :: "AglSchedBuckets \<Rightarrow> u64 list" where
  "bucket_list b = [lt_10us b, lt_100us b, lt_1ms b, lt_10ms b, lt_100ms b, lt_1s b, lt_10s b, ge_10s b]"

definition reports_histogram :: "json \<Rightarrow> AglSchedulerSnapshot \<Rightarrow> bool" where
  "reports_histogram d s \<longleftrightarrow> carries
     [(''buckets'', JArray (map JUnsigned (bucket_list (histogram s)))),
      (''total_count'', JUnsigned (total_count s)), (''total_latency_ns'', JUnsigned (total_lat_ns s)),
      (''max_latency_ns'', JUnsigned (max_lat_ns s))] d"

definition reports_scheduler :: "json \<Rightarrow> AglSchedulerSnapshot \<Rightarrow> bool" where
  "reports_scheduler d s \<longleftrightarrow> carries
     [(''p50_ns'', JUnsigned (p50_ns s)), (''p95_ns'', JUnsigned (p95_ns s)), (''p99_ns'', JUnsigned (p99_ns s))] d \<and>
     has_member d ''histogram'' (\<lambda>h. reports_histogram h s)"

definition reports_metrics :: "json \<Rightarrow> AglMetricSnapshot \<Rightarrow> bool" where
  "reports_metrics d m \<longleftrightarrow> carries [(''timestamp_ns'', JUnsigned (timestamp_ns m))] d \<and>
     has_member d ''memory'' (\<lambda>v. reports_memory v (memory m)) \<and>
     has_member d ''load'' (\<lambda>v. reports_load v (cpu m)) \<and>
     has_member d ''cpu_cores'' (\<lambda>v. reports_cores v (cores (cpu m))) \<and>
     has_member d ''top_processes'' (\<lambda>v. reports_processes v (processes m)) \<and>
     has_member d ''net_ifaces'' (\<lambda>v. reports_ifaces v (ifaces (network m))) \<and>
     has_member d ''tcp'' (\<lambda>v. reports_tcp v (tcp (network m))) \<and>
     has_member d ''security'' (\<lambda>v. reports_security v (security m)) \<and>
     has_member d ''sched'' (\<lambda>v. reports_scheduler v (scheduler m))"

section \<open>Filling and decoding\<close>

lemma has_memberE:
  assumes "has_member d k P"
  obtains v where "json_find d k = Some v" "P v"
  using assms by (auto simp: has_member_def split: option.splits)

text \<open>Each part of the pipeline is a codec: a document that reports a value is turned into a
  structure that decodes to the value.\<close>

locale codec =
  fixes reports :: "json \<Rightarrow> 'v \<Rightarrow> bool"
    and fill :: "json \<Rightarrow> 'w result"
    and decode :: "'w \<Rightarrow> 'v"
  assumes fill_decode: "reports d v \<Longrightarrow> \<exists>w. fill d = Inr w \<and> decode w = v"
begin

lemma fill_listed:
  assumes "list_all2 reports ds vs" "length ds \<le> count"
  shows "\<exists>ws. fill_list fill count (JArray ds) = Inr ws \<and> map decode ws = vs"
proof -
  have elem: "\<exists>w. fill (ds ! i) = Inr w \<and> decode w = vs ! i" if "i < length ds" for i
    using assms(1) that by (intro fill_decode) (simp add: list_all2_nthD)
  define w where "w i = (SOME w. fill (ds ! i) = Inr w \<and> decode w = vs ! i)" for i
  have w: "fill (ds ! i) = Inr (w i) \<and> decode (w i) = vs ! i" if "i < length ds" for i
    unfolding w_def using elem [OF that] by (rule someI_ex)
  have "fill_list fill count (JArray ds) = Inr (map w [0..<length ds])"
    unfolding fill_list_def map_result_Inr_iff using assms(2) w by (auto simp: list_all2_conv_all_nth)
  moreover have "map decode (map w [0..<length ds]) = vs"
    using w list_all2_lengthD [OF assms(1)] by (auto intro: nth_equalityI)
  ultimately show ?thesis by blast
qed

lemma fill_array:
  assumes "reports_list words reports d vs" "0 < words"
  shows "\<exists>n ws. init_list words (json_size d) = Inr n \<and> fill_list fill n d = Inr ws \<and> map decode ws = vs"
proof -
  obtain ds where d: "d = JArray ds" "length ds * words \<le> 2 ^ 29 - 2" "list_all2 reports ds vs"
    using assms(1) by (auto simp: reports_list_def split: json.splits)
  have "length ds \<le> length ds * words" using assms(2) by simp
  then have "length ds \<le> 2 ^ 29 - 2" using d(2) by linarith
  then have "init_list words (json_size d) = Inr (length ds)"
    using d(2) by (simp add: d(1) init_list_def Let_def)
  with fill_listed [OF d(3), of "length ds"] show ?thesis by (auto simp: d(1))
qed

end

lemmas find_simps = json_value_def carries_def num32_def

lemma ucast_32_64_32: "ucast (ucast (w :: u32) :: u64) = w"
  by (rule bit_word_eqI) (auto simp: bit_simps)

interpretation memory_codec: codec reports_memory fill_memory decode_memory
  by unfold_locales (simp add: reports_memory_def fill_memory_def find_simps decode_memory_def ucast_32_64_32)

interpretation core_codec: codec reports_core fill_core decode_core
  by unfold_locales (simp add: reports_core_def fill_core_def find_simps decode_core_def ucast_32_64_32)

interpretation iface_codec: codec reports_iface fill_iface decode_iface
  by unfold_locales (simp add: reports_iface_def fill_iface_def find_simps decode_iface_def ucast_32_64_32)

interpretation tcp_codec: codec reports_tcp fill_tcp decode_tcp
  by unfold_locales (simp add: reports_tcp_def fill_tcp_def find_simps decode_tcp_def)

interpretation security_codec: codec reports_security fill_security decode_security
  by unfold_locales (simp add: reports_security_def fill_security_def find_simps decode_security_def)

interpretation cores_codec: codec reports_cores
  "\<lambda>d. bind_result (init_list cpu_stats_words (json_size d)) (\<lambda>n. fill_list fill_core n d)" "map decode_core"
  using core_codec.fill_array [of cpu_stats_words]
  by unfold_locales (fastforce simp: reports_cores_def cpu_stats_words_def)

interpretation ifaces_codec: codec reports_ifaces
  "\<lambda>d. bind_result (init_list iface_stats_words (json_size d)) (\<lambda>n. fill_list fill_iface n d)" "map decode_iface"
  using iface_codec.fill_array [of iface_stats_words]
  by unfold_locales (fastforce simp: reports_ifaces_def iface_stats_words_def)

lemma byte_of_char: "unat (ucast (word_of_nat (of_char c) :: u64) :: u8) = of_char c"
proof -
  have "(of_char c :: nat) < 256" by simp
  then show ?thesis
    by (simp add: unsigned_ucast_eq unsigned_of_nat take_bit_nat_eq_self_iff del: of_nat_of_char)
qed

lemma comm_byte_zero: "(ucast (word_of_nat (of_char c) :: u64) :: u8) = 0 \<longleftrightarrow> c = CHR 0x00"
proof -
  have "(ucast (word_of_nat (of_char c) :: u64) :: u8) = 0 \<longleftrightarrow> (of_char c :: nat) = 0"
    by (metis byte_of_char unat_eq_zero)
  also have "\<dots> \<longleftrightarrow> c = CHR 0x00"
    using of_char_eq_iff [of c "CHR 0x00", where ?'a = nat] by simp
  finally show ?thesis .
qed

lemma comm_bytes_reported:
  assumes "CHR 0x00 \<notin> set s" "rest = [] \<or> (\<exists>more. rest = JUnsigned 0 # more)"
  shows "comm_bytes (map (\<lambda>c. JUnsigned (word_of_nat (of_char c))) s @ rest) = Inr s"
  using assms by (induction s) (auto simp: comm_byte_zero byte_of_char simp del: of_nat_of_char)

lemma fill_comm_reported:
  assumes "json_find d ''comm'' = Some v" "reports_comm v s"
  shows "fill_comm d = Inr s"
proof (cases "is_array v")
  case True
  then obtain bs where v: "v = JArray bs" by (cases v) simp_all
  then have s: "CHR 0x00 \<notin> set s" "take (length s) bs = map (\<lambda>c. JUnsigned (word_of_nat (of_char c))) s"
    "length bs = length s \<or> length s < length bs \<and> bs ! length s = JUnsigned 0"
    using assms(2) by (simp_all add: reports_comm_def del: of_nat_of_char)
  have "bs = take (length s) bs @ drop (length s) bs" by simp
  moreover have "drop (length s) bs = [] \<or> (\<exists>more. drop (length s) bs = JUnsigned 0 # more)"
    using s(3) by (metis Cons_nth_drop_Suc drop_all order_refl)
  ultimately have "comm_bytes bs = Inr s" using comm_bytes_reported [OF s(1)] s(2) by metis
  then show ?thesis
    using assms(1) v json_find_object [OF assms(1)] by (simp add: fill_comm_def json_contains_def json_key_def)
next
  case False
  then have "v = JString s" using assms(2) by (auto simp: reports_comm_def split: json.splits)
  then show ?thesis
    using assms(1) json_find_object [OF assms(1)] by (simp add: fill_comm_def json_contains_def json_key_def)
qed

interpretation process_codec: codec reports_process fill_process decode_process
proof
  fix d p
  assume rep: "reports_process d p"
  then obtain v where "json_find d ''comm'' = Some v" "reports_comm v (comm p)"
    by (auto simp: reports_process_def elim: has_memberE)
  from fill_comm_reported [OF this] rep show "\<exists>w. fill_process d = Inr w \<and> decode_process w = p"
    by (simp add: reports_process_def fill_process_def find_simps decode_process_def ucast_32_64_32)
qed

interpretation processes_codec: codec reports_processes fill_process_reply decode_processes
  using process_codec.fill_array [of process_stats_words]
  by unfold_locales
    (fastforce simp: reports_processes_def process_stats_words_def fill_process_reply_def fill_processes_def
      decode_processes_def)

text \<open>The processor part, as \<open>/metrics/cpu\<close> sends it and as \<open>getMetrics\<close> assembles it.\<close>

definition reports_cpu :: "json \<Rightarrow> AglCpuSnapshot \<Rightarrow> bool" where
  "reports_cpu d c \<longleftrightarrow> has_member d ''load'' (\<lambda>v. reports_load v c) \<and>
     has_member d ''cores'' (\<lambda>v. reports_cores v (cores c))"

definition reports_network :: "json \<Rightarrow> AglNetworkSnapshot \<Rightarrow> bool" where
  "reports_network d n \<longleftrightarrow> has_member d ''ifaces'' (\<lambda>v. reports_ifaces v (ifaces n)) \<and>
     has_member d ''tcp'' (\<lambda>v. reports_tcp v (tcp n))"

interpretation cpu_codec: codec reports_cpu fill_cpu decode_cpu
proof
  fix d c
  assume "reports_cpu d c"
  then obtain l v where l: "json_find d ''load'' = Some l" "reports_load l c"
    and v: "json_find d ''cores'' = Some v" "reports_cores v (cores c)"
    by (auto simp: reports_cpu_def elim!: has_memberE)
  from cores_codec.fill_decode [OF v(2)] obtain n ws where
    "init_list cpu_stats_words (json_size v) = Inr n" "fill_list fill_core n v = Inr ws"
    "map decode_core ws = cores c" by (auto elim!: bind_result_InrE)
  then show "\<exists>w. fill_cpu d = Inr w \<and> decode_cpu w = c"
    using l v(1) by (simp add: fill_cpu_def reports_load_def find_simps decode_cpu_def)
qed

interpretation network_codec: codec reports_network fill_network decode_network
proof
  fix d n
  assume "reports_network d n"
  then obtain v t where v: "json_find d ''ifaces'' = Some v" "reports_ifaces v (ifaces n)"
    and t: "json_find d ''tcp'' = Some t" "reports_tcp t (tcp n)"
    by (auto simp: reports_network_def elim!: has_memberE)
  from ifaces_codec.fill_decode [OF v(2)] obtain m ws where
    "init_list iface_stats_words (json_size v) = Inr m" "fill_list fill_iface m v = Inr ws"
    "map decode_iface ws = ifaces n" by (auto elim!: bind_result_InrE)
  moreover obtain u where "fill_tcp t = Inr u" "decode_tcp u = tcp n"
    using tcp_codec.fill_decode [OF t(2)] by blast
  ultimately show "\<exists>w. fill_network d = Inr w \<and> decode_network w = n"
    using v(1) t(1) by (simp add: fill_network_def decode_network_def)
qed

lemma fill_buckets_reported:
  "\<exists>w. fill_buckets (JArray (map JUnsigned (bucket_list b))) = Inr w \<and> decode_buckets w = b"
  by (simp add: fill_buckets_def get_bucket_def bucket_list_def decode_buckets_def)

interpretation scheduler_codec: codec reports_scheduler fill_scheduler decode_scheduler
proof
  fix d s
  assume rep: "reports_scheduler d s"
  then obtain h where h: "json_find d ''histogram'' = Some h" "reports_histogram h s"
    by (auto simp: reports_scheduler_def elim!: has_memberE)
  obtain w where "fill_buckets (JArray (map JUnsigned (bucket_list (histogram s)))) = Inr w"
    "decode_buckets w = histogram s"
    using fill_buckets_reported by blast
  with rep h show "\<exists>w. fill_scheduler d = Inr w \<and> decode_scheduler w = s"
    by (simp add: reports_scheduler_def reports_histogram_def fill_scheduler_def find_simps decode_scheduler_def)
qed

interpretation metrics_codec: codec reports_metrics fill_metrics decode_metrics
proof
  fix d m
  assume rep: "reports_metrics d m"
  then obtain mem l cs ps ifs t sec sch where
    found: "json_find d ''timestamp_ns'' = Some (JUnsigned (timestamp_ns m))" "json_find d ''memory'' = Some mem"
      "json_find d ''load'' = Some l" "json_find d ''cpu_cores'' = Some cs" "json_find d ''top_processes'' = Some ps"
      "json_find d ''net_ifaces'' = Some ifs" "json_find d ''tcp'' = Some t" "json_find d ''security'' = Some sec"
      "json_find d ''sched'' = Some sch"
    and parts: "reports_memory mem (memory m)" "reports_load l (cpu m)" "reports_cores cs (cores (cpu m))"
      "reports_processes ps (processes m)" "reports_ifaces ifs (ifaces (network m))" "reports_tcp t (tcp (network m))"
      "reports_security sec (security m)" "reports_scheduler sch (scheduler m)"
    by (auto simp: reports_metrics_def carries_def elim!: has_memberE)
  have "reports_cpu (JObject [(''load'', l), (''cores'', cs)]) (cpu m)"
    "reports_network (JObject [(''ifaces'', ifs), (''tcp'', t)]) (network m)"
    using parts by (simp_all add: reports_cpu_def reports_network_def has_member_def)
  from memory_codec.fill_decode [OF parts(1)] cpu_codec.fill_decode [OF this(1)]
    processes_codec.fill_decode [OF parts(4)] network_codec.fill_decode [OF this(2)]
    security_codec.fill_decode [OF parts(7)] scheduler_codec.fill_decode [OF parts(8)]
  show "\<exists>w. fill_metrics d = Inr w \<and> decode_metrics w = m"
    using found by (auto simp: fill_metrics_def fill_process_reply_def decode_metrics_def elim!: bind_result_InrE)
qed

section \<open>Through the server and the client\<close>

lemma fold_curl_write: "fold curl_write_cb chunks buf = buf @ concat chunks"
  by (induction chunks arbitrary: buf) (simp_all add: curl_write_cb_def)

lemma query_ok:
  assumes "c_init curl (requests p)" "c_perform curl (c_str (daemon_url p @ path) # requests p) = (0, chunks)"
    and "parse (concat chunks) = Inr d" "fill d = Inr w"
  shows "fst (query curl parse path fill p) = Inr w"
  using assms by (simp add: query_def fetchJson_def daemonUrl_def fold_curl_write split: prod.split)

lemma agl_delivered:
  assumes "client_sys.reachable c" "isConnected c"
    and "fst (handle_agl curl parse req p) = Inr rep" "field rep = Some w"
  shows "fst (agl_call (deliver (handle_agl curl parse) Delivered) req field decode (c, p)) = Inr (decode w)"
  using assms(3,4)
  by (simp add: agl_call_def rpc_call_connected [OF client_reachable_inv [OF assms(1)] assms(2)]
      waitWithTimeout_def split_beta)

text \<open>What a query returns through the client, for every codec and every query handler.\<close>

context codec
begin

lemma client_query:
  assumes "client_sys.reachable c" "isConnected c" "c_init curl (requests p)"
    and "c_perform curl (c_str (daemon_url p @ path) # requests p) = (0, chunks)"
    and "parse (concat chunks) = Inr d" "reports d v"
    and "handle_agl curl parse req p = reply_with wrap (query curl parse path fill p)"
    and "\<And>x. field (wrap x) = Some x"
  shows "fst (agl_call (deliver (handle_agl curl parse) Delivered) req field decode (c, p)) = Inr v"
proof -
  obtain w where w: "fill d = Inr w" "decode w = v" using fill_decode [OF assms(6)] by blast
  have "fst (handle_agl curl parse req p) = Inr (wrap w)"
    using query_ok [where parse = parse and fill = fill, OF assms(3-5) w(1)] assms(7) by (simp add: reply_with_def)
  from agl_delivered [where field = field and decode = decode, OF assms(1,2) this assms(8)] w(2) show ?thesis by simp
qed

end

text \<open>A daemon that answers every request with one document.\<close>

definition answers :: "curl_lib \<Rightarrow> (string \<Rightarrow> json result) \<Rightarrow> json \<Rightarrow> bool" where
  "answers curl parse d \<longleftrightarrow> (\<forall>h. c_init curl h \<and> fst (c_perform curl h) = 0 \<and>
     parse (concat (snd (c_perform curl h))) = Inr d)"

lemma answersD:
  assumes "answers curl parse d"
  shows "c_init curl h" "c_perform curl h = (0, snd (c_perform curl h))"
    "parse (concat (snd (c_perform curl h))) = Inr d"
  using assms by (auto simp: answers_def prod_eq_iff)

section \<open>A concrete document\<close>

definition small_memory :: AglMemorySnapshot where
  "small_memory = \<lparr>total_bytes = 8, free_bytes = 5, cached_bytes = 0, buffered_bytes = 0, slab_bytes = 0,
     swap_used_bytes = 0, swap_free_bytes = 0, page_faults_minor = 0, page_faults_major = 0,
     psi_some_pct_x100 = 150, psi_full_pct_x100 = 0, oom_kills_total = 1\<rparr>"

definition memory_doc :: json where
  "memory_doc = JObject [(''total_bytes'', JUnsigned 8), (''free_bytes'', JUnsigned 5), (''cached_bytes'', JUnsigned 0),
      (''buffered_bytes'', JUnsigned 0), (''slab_bytes'', JUnsigned 0), (''swap_used_bytes'', JUnsigned 0),
      (''swap_free_bytes'', JUnsigned 0), (''page_faults_minor'', JUnsigned 0), (''page_faults_major'', JUnsigned 0),
      (''psi_some_pct_x100'', JUnsigned 150), (''psi_full_pct_x100'', JUnsigned 0), (''oom_kills_total'', JUnsigned 1),
      (''extra'', JNull)]"

definition process_doc :: json where
  "process_doc = JObject ([(''pid'', JUnsigned 1), (''ppid'', JUnsigned 0), (''uid'', JUnsigned 0),
     (''thread_count'', JUnsigned 1)] @ map (\<lambda>k. (k, JUnsigned 0)) [''cpu_user_ns'', ''cpu_system_ns'',
       ''mem_rss_bytes'', ''mem_vms_bytes'', ''voluntary_ctx_sw'', ''involuntary_ctx_sw'', ''read_bytes'',
       ''write_bytes'', ''page_faults_minor'', ''page_faults_major'', ''start_time_ns'', ''open_fds''] @
     [(''comm'', JArray [JUnsigned 115, JUnsigned 104, JUnsigned 0, JUnsigned 120])])"

definition shell_process :: AglProcessStats where
  "shell_process = \<lparr>pid = 1, ppid = 0, uid = 0, thread_count = 1, cpu_user_ns = 0, cpu_system_ns = 0,
     mem_rss_bytes = 0, mem_vms_bytes = 0, voluntary_ctx_sw = 0, involuntary_ctx_sw = 0, read_bytes = 0,
     write_bytes = 0, page_faults_minor = 0, page_faults_major = 0, start_time_ns = 0, open_fds = 0,
     comm = ''sh''\<rparr>"

definition zero_tcp :: AglTcpStateSnapshot where
  "zero_tcp = \<lparr>established = 0, syn_sent = 0, syn_recv = 0, fin_wait1 = 0, fin_wait2 = 0, time_wait = 0,
     close_wait = 0, listen = 0, listen_overflows = 0, retransmits = 0, resets_in = 0, resets_out = 0\<rparr>"

definition tcp_doc :: json where
  "tcp_doc = JObject (map (\<lambda>k. (k, JUnsigned 0)) [''established'', ''syn_sent'', ''syn_recv'', ''fin_wait1'',
     ''fin_wait2'', ''time_wait'', ''close_wait'', ''listen'', ''listen_overflows'', ''retransmits'',
     ''resets_in'', ''resets_out''])"

definition zero_security :: AglSecuritySnapshot where
  "zero_security = \<lparr>ptrace = 0, memfd_create = 0, prctl = 0, setuid = 0, exec_anomaly = 0, capability_use = 0\<rparr>"

definition security_doc :: json where
  "security_doc = JObject (map (\<lambda>k. (k, JUnsigned 0))
     [''ptrace'', ''memfd_create'', ''prctl'', ''setuid'', ''exec_anomaly'', ''capability_use''])"

definition small_scheduler :: AglSchedulerSnapshot where
  "small_scheduler = \<lparr>histogram = \<lparr>lt_10us = 1, lt_100us = 2, lt_1ms = 3, lt_10ms = 4, lt_100ms = 5, lt_1s = 6,
     lt_10s = 7, ge_10s = 8\<rparr>, total_count = 36, total_lat_ns = 9, max_lat_ns = 9, p50_ns = 1, p95_ns = 2, p99_ns = 3\<rparr>"

definition scheduler_doc :: json where
  "scheduler_doc = JObject [(''histogram'', JObject [(''buckets'', JArray (map JUnsigned [1, 2, 3, 4, 5, 6, 7, 8])),
     (''total_count'', JUnsigned 36), (''total_latency_ns'', JUnsigned 9), (''max_latency_ns'', JUnsigned 9)]),
     (''p50_ns'', JUnsigned 1), (''p95_ns'', JUnsigned 2), (''p99_ns'', JUnsigned 3)]"

definition metrics_doc :: json where
  "metrics_doc = JObject [(''timestamp_ns'', JUnsigned 77), (''memory'', memory_doc),
     (''load'', JObject [(''load_1'', JFloat (1 / 2)), (''load_5'', JFloat 1), (''load_15'', JFloat 2)]),
     (''cpu_cores'', JArray []), (''top_processes'', JArray [process_doc]), (''net_ifaces'', JArray []),
     (''tcp'', tcp_doc), (''security'', security_doc), (''sched'', scheduler_doc)]"

definition small_metrics :: AglMetricSnapshot where
  "small_metrics = \<lparr>timestamp_ns = 77, memory = small_memory,
     cpu = \<lparr>load_1 = 1 / 2, load_5 = 1, load_15 = 2, cores = []\<rparr>, processes = [shell_process],
     network = \<lparr>ifaces = [], tcp = zero_tcp\<rparr>, security = zero_security, scheduler = small_scheduler\<rparr>"

lemma reports_memory_doc: "reports_memory memory_doc small_memory"
  by (simp add: reports_memory_def carries_def memory_doc_def small_memory_def num32_def)

lemma reports_process_doc: "reports_process process_doc shell_process"
  by (simp add: reports_process_def carries_def process_doc_def shell_process_def num32_def has_member_def
      reports_comm_def of_char_Char)

lemma reports_tcp_doc: "reports_tcp tcp_doc zero_tcp"
  by (simp add: reports_tcp_def carries_def tcp_doc_def zero_tcp_def)

lemma reports_security_doc: "reports_security security_doc zero_security"
  by (simp add: reports_security_def carries_def security_doc_def zero_security_def)

lemma reports_scheduler_doc: "reports_scheduler scheduler_doc small_scheduler"
  by (simp add: reports_scheduler_def reports_histogram_def carries_def scheduler_doc_def small_scheduler_def
      has_member_def bucket_list_def)

lemma reports_metrics_doc: "reports_metrics metrics_doc small_metrics"
  using reports_memory_doc reports_process_doc reports_tcp_doc reports_security_doc reports_scheduler_doc
  by (simp add: reports_metrics_def metrics_doc_def small_metrics_def carries_def has_member_def reports_load_def
      reports_cores_def reports_processes_def reports_ifaces_def reports_list_def process_stats_words_def)

lemma steady_answers: "answers (steady_curl chunks) (\<lambda>_. Inr d) d"
  by (simp add: answers_def steady_curl_def)

section \<open>Properties\<close>





text \<open>The members the six object-valued queries look for first.\<close>

definition documented_members :: "string list" where
  "documented_members =
     [''total_bytes'', ''free_bytes'', ''cached_bytes'', ''buffered_bytes'', ''slab_bytes'', ''swap_used_bytes'',
      ''swap_free_bytes'', ''page_faults_minor'', ''page_faults_major'', ''psi_some_pct_x100'',
      ''psi_full_pct_x100'', ''oom_kills_total'', ''ptrace'', ''memfd_create'', ''prctl'', ''setuid'',
      ''exec_anomaly'', ''capability_use'', ''load'', ''ifaces'', ''histogram'', ''timestamp_ns'', ''memory'']"



end
