(* ===== verification/Programs.thy ===== *)
theory Programs
  imports Server_Properties
begin

text \<open>
  The programs: \<open>server/main.cpp\<close>, \<open>recorder/recorder.cpp\<close> and \<open>client/client_test.cpp\<close>. The options
  arrive through \<open>getopt_long\<close> of the C library, which is a parameter: the list of the option
  characters it returns with their arguments (\<open>optarg\<close>, which may be null). The server runs an
  event loop over the requests, the steps of the recorders' threads and the signals that arrive.
  Output of usage texts and log messages is not modelled.
\<close>

section \<open>Ends of a program\<close>

datatype 'a program = Exit int | Crash cxx_error | Continue 'a

definition EXIT_SUCCESS :: int where
  "EXIT_SUCCESS = 0"

definition EXIT_FAILURE :: int where
  "EXIT_FAILURE = 1"

section \<open>The server program\<close>

record server_args =
  listen_addr :: string
  xkb_cfg :: XkbConfig

definition DEFAULT_LISTEN :: string where
  "DEFAULT_LISTEN = ''*:4004''"

definition server_defaults :: server_args where
  "server_defaults = \<lparr>listen_addr = DEFAULT_LISTEN,
     xkb_cfg = \<lparr>xc_rules = [], xc_model = [], xc_layout = [], xc_variant = [], xc_options = []\<rparr>\<rparr>"

text \<open>All four options with a value are declared with a required argument, so their argument is
  never null; a null would be copied into a \<open>std::string\<close>, which throws.\<close>

fun server_options :: "(char \<times> string option) list \<Rightarrow> server_args \<Rightarrow> server_args program" where
  "server_options [] a = Continue a"
| "server_options ((ch, arg) # opts) a =
     (if ch = CHR ''h'' then Exit EXIT_SUCCESS
      else if ch \<in> {CHR ''l'', CHR ''L'', CHR ''V'', CHR ''M''} then
        (case arg of
           None \<Rightarrow> Crash Terminate
         | Some v \<Rightarrow> server_options opts
             (if ch = CHR ''l'' then a\<lparr>listen_addr := v\<rparr>
              else if ch = CHR ''L'' then a\<lparr>xkb_cfg := (xkb_cfg a)\<lparr>xc_layout := v\<rparr>\<rparr>
              else if ch = CHR ''V'' then a\<lparr>xkb_cfg := (xkb_cfg a)\<lparr>xc_variant := v\<rparr>\<rparr>
              else a\<lparr>xkb_cfg := (xkb_cfg a)\<lparr>xc_model := v\<rparr>\<rparr>))
      else Exit EXIT_FAILURE)"

text \<open>The handler of \<open>SIGTERM\<close> and \<open>SIGINT\<close> writes a byte into the pipe. The event loop reads it when it
  gets to run, which it does not while a handler is blocked. A step that cannot be made is no
  event.\<close>

datatype event = Event server_label | Signal

datatype loop_end = Died cxx_error | Signalled server | Waiting server

definition signal_handler :: "nat \<Rightarrow> nat" where
  "signal_handler bytes = Suc bytes"

fun event_loop :: "environment \<Rightarrow> event list \<Rightarrow> nat \<Rightarrow> server \<Rightarrow> loop_end" where
  "event_loop E evs bytes s =
     (case status s of
        Dead e \<Rightarrow> Died e
      | st \<Rightarrow>
          if st = Serving \<and> 0 < bytes then Signalled s
          else (case evs of
                  [] \<Rightarrow> Waiting s
                | Signal # evs' \<Rightarrow> event_loop E evs' (signal_handler bytes) s
                | Event l # evs' \<Rightarrow>
                    (case server_exec E l s of
                       None \<Rightarrow> event_loop E evs' bytes s
                     | Some s' \<Rightarrow> event_loop E evs' bytes s')))"

declare event_loop.simps [simp del]

text \<open>\<open>main\<close>: the options, the signal pipe, the server with its snapshot recorder, the event loop, and the
  destructor, with the schedules of the recorders it destroys. A successful end comes with what is
  left of the recorders and of the virtual devices. The program has no value while it runs.\<close>

definition server_main ::
  "environment \<Rightarrow> (char \<times> string option) list \<Rightarrow> int \<Rightarrow> event list \<Rightarrow> (nat \<Rightarrow> rlabel list \<times> rlabel list) \<Rightarrow>
     (int program \<times> (rmach list \<times> input_server) option) option" where
  "server_main E opts pipe_ret evs sched =
     (case server_options opts server_defaults of
        Exit code \<Rightarrow> Some (Exit code, None)
      | Crash e \<Rightarrow> Some (Crash e, None)
      | Continue a \<Rightarrow>
          if pipe_ret < 0 then Some (Exit EXIT_FAILURE, None)
          else
            (case construct_server E True True (xkb_cfg a) of
               None \<Rightarrow> None
             | Some s0 \<Rightarrow>
                 (case event_loop E evs 0 \<lparr>obj = s0, status = Serving\<rparr> of
                    Waiting s \<Rightarrow> None
                  | Died e \<Rightarrow> Some (Crash e, None)
                  | Signalled s \<Rightarrow>
                      (case destruct_server (e_kernel E) (e_rec_xkb E) sched (recorder_part (obj s)) (input_part (obj s)) of
                         (Inr _, ms, i) \<Rightarrow> Some (Exit EXIT_SUCCESS, Some (ms, i))
                       | (Inl e, ms, i) \<Rightarrow> if e = Blocked_forever then None else Some (Crash e, None)))))"

section \<open>The recorder program\<close>

record rec_args =
  ra_filename :: "string option"
  record_length :: i32
  ra_continuous :: bool

definition argument_defaults :: rec_args where
  "argument_defaults = \<lparr>ra_filename = Some ''cmd_file_recorder'', record_length = 30, ra_continuous = False\<rparr>"

text \<open>\<open>strtol(s, nullptr, 10)\<close>: white space, an optional sign, digits, saturated to a 64-bit
  \<open>long\<close>; the result is cut to an \<open>int\<close>.\<close>

definition is_space :: "char \<Rightarrow> bool" where
  "is_space c \<longleftrightarrow> c = CHR '' '' \<or> (9 \<le> (of_char c :: nat) \<and> (of_char c :: nat) \<le> 13)"

definition is_digit :: "char \<Rightarrow> bool" where
  "is_digit c \<longleftrightarrow> 48 \<le> (of_char c :: nat) \<and> (of_char c :: nat) \<le> 57"

fun digits_value :: "int \<Rightarrow> string \<Rightarrow> int" where
  "digits_value acc [] = acc"
| "digits_value acc (c # cs) = (if is_digit c then digits_value (10 * acc + (int (of_char c) - 48)) cs else acc)"

definition saturate_long :: "int \<Rightarrow> int" where
  "saturate_long i = max (- (2 ^ 63)) (min (2 ^ 63 - 1) i)"

definition strtol10 :: "string \<Rightarrow> int" where
  "strtol10 s =
     (case dropWhile is_space (c_str s) of
        [] \<Rightarrow> 0
      | c # cs \<Rightarrow>
          saturate_long
            (if c = CHR ''-'' then - digits_value 0 cs
             else if c = CHR ''+'' then digits_value 0 cs
             else digits_value 0 (c # cs)))"

fun parse_args :: "(char \<times> string option) list \<Rightarrow> rec_args \<Rightarrow> rec_args program" where
  "parse_args [] a = Continue a"
| "parse_args ((ch, arg) # opts) a =
     (if ch = CHR ''f'' then parse_args opts (a\<lparr>ra_filename := arg\<rparr>)
      else if ch = CHR ''b'' then
        (case arg of
           None \<Rightarrow> Crash Null_dereference
         | Some v \<Rightarrow> parse_args opts (a\<lparr>record_length := word_of_int (strtol10 v)\<rparr>))
      else if ch = CHR ''c'' then parse_args opts (a\<lparr>ra_continuous := True\<rparr>)
      else if ch = CHR ''h'' then Exit EXIT_SUCCESS
      else Exit EXIT_FAILURE)"

text \<open>\<open>main\<close>: a null file name makes the conversion to \<open>std::string\<close> throw. The steps of the
  recorder's threads during the sleep of ten seconds and during \<open>Stop\<close> are schedules; the
  recorder is destroyed at the end. The program has no value when it does not end.\<close>

definition recorder_main ::
  "kernel \<Rightarrow> rec_xkb \<Rightarrow> (char \<times> string option) list \<Rightarrow> rlabel list \<Rightarrow> rlabel list \<Rightarrow> (rmach option \<times> int program) option" where
  "recorder_main k x opts sleeping stopping =
     (case parse_args opts argument_defaults of
        Exit code \<Rightarrow> Some (None, Exit code)
      | Crash e \<Rightarrow> Some (None, Crash e)
      | Continue a \<Rightarrow>
          (case ra_filename a of
             None \<Rightarrow> Some (None, Crash Terminate)
           | Some filename \<Rightarrow>
               (case construct_recorder k x filename (record_length a) (ra_continuous a) ''/dev/input'' of
                  None \<Rightarrow> None
                | Some s \<Rightarrow>
                    (case call_start k x (rmach_init s) of
                       (Inl e, m) \<Rightarrow> Some (Some m, Crash e)
                     | (Inr _, m) \<Rightarrow>
                         (case exec_all k x sleeping m of
                            None \<Rightarrow> None
                          | Some m1 \<Rightarrow>
                              (case death m1 of
                                 Some e \<Rightarrow> Some (Some m1, Crash e)
                               | None \<Rightarrow>
                                   (case call_stop k x stopping m1 of
                                      (Inl e, m2) \<Rightarrow> (if e = Blocked_forever then None else Some (Some m2, Crash e))
                                    | (Inr _, m2) \<Rightarrow>
                                        (case rec_exec k x L_destroy m2 of
                                           None \<Rightarrow> None
                                         | Some m3 \<Rightarrow> Some (Some m3, Exit EXIT_SUCCESS)))))))))"

section \<open>The test client\<close>

text \<open>An exception that leaves \<open>main\<close> terminates the program.\<close>

definition client_test_main :: "(string \<Rightarrow> unit result) \<Rightarrow> int program" where
  "client_test_main net =
     (case Connect net ''localhost:4004'' (new_client False) of
        (Inl e, c) \<Rightarrow> Crash Terminate
      | (Inr _, c) \<Rightarrow> (case WaitForTasks c of Inl e \<Rightarrow> Crash e | Inr _ \<Rightarrow> Exit EXIT_SUCCESS))"

lemma client_test_exit:
  "client_test_main net = (if net ''localhost:4004'' = Inr () then Exit EXIT_SUCCESS else Crash Terminate)"
  by (auto simp: client_test_main_def Connect_def new_client_def WaitForTasks_def deref_conn_def split: sum.split)

section \<open>Facts\<close>

text \<open>The value of the last occurrence of an option.\<close>

definition last_arg :: "char \<Rightarrow> (char \<times> string option) list \<Rightarrow> string \<Rightarrow> string" where
  "last_arg ch opts dflt =
     (case filter (\<lambda>(c, arg). c = ch) opts of [] \<Rightarrow> dflt | os \<Rightarrow> the (snd (last os)))"

definition value_option :: "char \<times> string option \<Rightarrow> bool" where
  "value_option o1 \<longleftrightarrow> fst o1 \<in> {CHR ''l'', CHR ''L'', CHR ''V'', CHR ''M''} \<and> snd o1 \<noteq> None"

lemma last_arg_Cons:
  "last_arg ch ((c, arg) # opts) dflt = last_arg ch opts (if c = ch then the arg else dflt)"
  by (simp add: last_arg_def split: list.split)

lemma last_arg_Nil [simp]: "last_arg ch [] dflt = dflt"
  by (simp add: last_arg_def)

lemma server_options_values:
  "list_all value_option opts \<Longrightarrow> server_options opts a = Continue \<lparr>
     listen_addr = last_arg (CHR ''l'') opts (listen_addr a),
     xkb_cfg = (xkb_cfg a)\<lparr>xc_layout := last_arg (CHR ''L'') opts (xc_layout (xkb_cfg a)),
       xc_variant := last_arg (CHR ''V'') opts (xc_variant (xkb_cfg a)),
       xc_model := last_arg (CHR ''M'') opts (xc_model (xkb_cfg a))\<rparr>\<rparr>"
proof (induction opts arbitrary: a)
  case (Cons o1 opts)
  obtain ch v where "o1 = (ch, Some v)" "ch \<in> {CHR ''l'', CHR ''L'', CHR ''V'', CHR ''M''}"
    using Cons.prems by (cases o1) (auto simp: value_option_def)
  moreover have "list_all value_option opts" using Cons.prems by simp
  ultimately show ?case by (auto simp: Cons.IH last_arg_Cons)
qed simp

lemma server_options_stop:
  "list_all value_option pre \<Longrightarrow>
   server_options (pre @ (CHR ''h'', arg) # opts) a = Exit EXIT_SUCCESS"
  "list_all value_option pre \<Longrightarrow>
   server_options (pre @ (CHR ''?'', arg) # opts) a = Exit EXIT_FAILURE"
proof (induction pre arbitrary: a)
  case (Cons o1 pre)
  { case 1 with Cons.IH(1) show ?case by (cases o1) (auto simp: value_option_def) }
  { case 2 with Cons.IH(2) show ?case by (cases o1) (auto simp: value_option_def) }
qed simp_all

text \<open>The event loop is a run of the server that ends with a pending signal.\<close>

lemma event_loop_run:
  "event_loop E evs bytes s = Signalled s' \<Longrightarrow> \<exists>ls. server_sys.run E s ls s' \<and> status s' = Serving"
proof (induction evs arbitrary: bytes s)
  case Nil
  then show ?case
    using server_sys.run_nil by (subst (asm) event_loop.simps) (auto split: status.splits if_splits)
next
  case (Cons ev evs)
  show ?case
  proof (cases "status s = Serving \<and> 0 < bytes")
    case True
    with Cons.prems have "s' = s" by (subst (asm) event_loop.simps) simp
    with True server_sys.run_nil show ?thesis by blast
  next
    case False
    with Cons.prems have follows: "case ev of Signal \<Rightarrow> event_loop E evs (signal_handler bytes) s = Signalled s'
      | Event l \<Rightarrow> (case server_exec E l s of None \<Rightarrow> event_loop E evs bytes s = Signalled s'
          | Some t \<Rightarrow> event_loop E evs bytes t = Signalled s')"
      by (subst (asm) event_loop.simps) (auto split: status.splits if_splits event.splits option.splits)
    show ?thesis
    proof (cases ev)
      case (Event l)
      with follows Cons.IH show ?thesis
        by (auto split: option.splits) (metis server_step server_sys.run_cons)
    qed (use follows Cons.IH in auto)
  qed
qed

lemma event_loop_signal:
  "event_loop E evs 0 s = Signalled s' \<Longrightarrow> Signal \<in> set evs"
proof (induction evs arbitrary: s)
  case Nil
  then show ?case by (subst (asm) event_loop.simps) (auto split: status.splits)
next
  case (Cons ev evs)
  show ?case
  proof (cases ev)
    case (Event l)
    with Cons show ?thesis
      by (subst (asm) (2) event_loop.simps) (auto split: status.splits option.splits)
  qed simp
qed

lemma recorder_main_exit:
  assumes "recorder_main k x opts sleeping stopping = Some (Some m, Exit code)"
  obtains a filename s m1 m2 m3 p where "parse_args opts argument_defaults = Continue a" "ra_filename a = Some filename"
    "construct_recorder k x filename (record_length a) (ra_continuous a) ''/dev/input'' = Some s"
    "call_start k x (rmach_init s) = (Inr (), m1)" "exec_all k x sleeping m1 = Some m2"
    "call_stop k x stopping m2 = (Inr p, m3)" "rec_exec k x L_destroy m3 = Some m"
  using assms
  by (auto simp: recorder_main_def simp del: rec_exec.simps split: program.splits option.splits prod.splits sum.splits if_splits)

lemma destroy_outcome: "rec_exec k x L_destroy m = Some m' \<Longrightarrow> outcome m' = outcome m"
  by (auto split: if_splits)

section \<open>Properties\<close>

text \<open>C11: The server program: with options that all carry values, when it exits successfully it has received a
  signal while it was serving, it had built the server with the last value given for the keyboard
  layout, variant and model, every virtual device has received the packets of the served input
  requests and has been destroyed and closed, and every recorder has ended its threads and closed its
  descriptors. Without a signal it never exits. A request for help or an unknown option ends it at once,
  successfully or not, without constructing the server, and so does a failing signal pipe.\<close>

theorem server_program:
  assumes "kernel_ok (e_kernel E)" and "clock_ok (e_kernel E)" and "list_all value_option opts"
    and "cfg = \<lparr>xc_rules = [], xc_model = last_arg (CHR ''M'') opts [], xc_layout = last_arg (CHR ''L'') opts [],
         xc_variant = last_arg (CHR ''V'') opts [], xc_options = []\<rparr>"
  shows "(server_main E opts pipe_ret evs sched = Some (Exit EXIT_SUCCESS, Some (ms, i)) \<longrightarrow>
      Signal \<in> set evs \<and>
      (\<exists>s0 ls s. construct_server E True True cfg = Some s0 \<and>
         server_sys.run E \<lparr>obj = s0, status = Serving\<rparr> ls s \<and> i = destruct_input (e_kernel E) (input_part (obj s)) \<and>
         abs_streams (input_part (obj s)) = fold (spec_input (e_lib E) (configured_keymap (e_lib E) (e_getenv E) cfg))
           (served_inputs E ls \<lparr>obj = s0, status = Serving\<rparr>) (\<lambda>_. [])) \<and>
      (\<forall>fd. dev_state (e_kernel E) fd (hist i) = U_absent) \<and>
      (\<forall>m \<in> set ms. rpc m = Rec_none \<and> bpc m = Buf_none \<and>
         closed (hist (rst m)) = map dev_fd (available_devices (rst m)))) \<and>
    (pipe_ret < 0 \<longrightarrow> server_main E opts pipe_ret evs sched = Some (Exit EXIT_FAILURE, None)) \<and>
    server_main E (opts @ (CHR ''h'', arg) # later) pipe_ret evs sched = Some (Exit EXIT_SUCCESS, None) \<and>
    server_main E (opts @ (CHR ''?'', arg) # later) pipe_ret evs sched = Some (Exit EXIT_FAILURE, None)"
proof (intro conjI [of "_ \<longrightarrow> _"] impI)
  let ?s = "\<lambda>s0. \<lparr>obj = s0, status = Serving\<rparr>"
  obtain a where a: "server_options opts server_defaults = Continue a" "xkb_cfg a = cfg"
    using server_options_values [OF assms(3), of server_defaults] by (simp add: server_defaults_def assms(4))
  assume "server_main E opts pipe_ret evs sched = Some (Exit EXIT_SUCCESS, Some (ms, i))"
  then obtain s0 s where s0: "construct_server E True True cfg = Some s0" and loop: "event_loop E evs 0 (?s s0) = Signalled s"
    and destr: "destruct_server (e_kernel E) (e_rec_xkb E) sched (recorder_part (obj s)) (input_part (obj s)) = (Inr (), ms, i)"
    by (auto simp: server_main_def a split: if_splits option.splits loop_end.splits prod.splits sum.splits)
  obtain ls where run: "server_sys.run E (?s s0) ls s" using event_loop_run [OF loop] by blast
  have "server_init E True True cfg (?s s0)" using s0 by (simp add: server_init_def)
  then have reach: "server_sys.reachable E True True cfg s" using run by (auto simp: server_sys.reachable_def)
  note down = shutdown_facts [OF assms(2,1) server_parts_reachable(2) [OF reach]
      server_parts_reachable(1) [OF reach] destr]
  have "i = destruct_input (e_kernel E) (input_part (obj s))"
    using destr by (auto simp: destruct_server_def split: prod.splits sum.splits)
  with s0 run streams_after_run [OF assms(1) s0 run] down event_loop_signal [OF loop]
  show "Signal \<in> set evs \<and>
      (\<exists>s0 ls s. construct_server E True True cfg = Some s0 \<and>
         server_sys.run E (?s s0) ls s \<and> i = destruct_input (e_kernel E) (input_part (obj s)) \<and>
         abs_streams (input_part (obj s)) = fold (spec_input (e_lib E) (configured_keymap (e_lib E) (e_getenv E) cfg))
           (served_inputs E ls (?s s0)) (\<lambda>_. [])) \<and>
      (\<forall>fd. dev_state (e_kernel E) fd (hist i) = U_absent) \<and>
      (\<forall>m \<in> set ms. rpc m = Rec_none \<and> bpc m = Buf_none \<and>
         closed (hist (rst m)) = map dev_fd (available_devices (rst m)))" by blast
qed (use assms(3) in \<open>simp_all add: server_main_def server_options_values server_options_stop\<close>)

lemma desk_main:
  fixes sched :: "nat \<Rightarrow> rlabel list \<times> rlabel list"
  defines "sched \<equiv> \<lambda>_. ([L_begin], [L_destroy_stop, L_stop_time, L_done, L_buf_dump, L_join_buf])"
  shows "\<exists>m i. server_main desk_env [(CHR ''L'', Some ''de'')] 0 [Signal] sched = Some (Exit EXIT_SUCCESS, Some ([m], i))"
proof -
  let ?cfg = "\<lparr>xc_rules = [], xc_model = [], xc_layout = ''de'', xc_variant = [], xc_options = []\<rparr>"
  obtain s0 m where s0: "construct_server desk_env True True ?cfg = Some s0"
    "recorder_part s0 = \<lparr>snapshot_recorder = Some m, custom_recorders = []\<rparr>"
    and m: "mpc m = Main_idle" "rpc m = Rec_spawned" "m_continuous (rst m)" "available_devices (rst m) = []"
    by (rule desk_server)
  obtain m' where "call_destroy counting_kernel blind_xkb [L_begin] [L_destroy_stop, L_stop_time, L_done, L_buf_dump, L_join_buf] m = (Inr (), m')"
    using call_destroy_started [OF m(1-3)] m(4) by fastforce
  moreover have "event_loop desk_env [Signal] 0 s = Signalled s" if "status s = Serving" for s
    using that by (simp add: event_loop.simps signal_handler_def)
  ultimately show ?thesis
    by (simp add: server_main_def server_defaults_def s0 destruct_server_def destruct_service_def all_recorders_def sched_def)
qed

theorem server_program_witness:
  "\<exists>m i. server_main desk_env [(CHR ''L'', Some ''de'')] 0 [Signal] (\<lambda>_. ([L_begin], [L_destroy_stop, L_stop_time, L_done, L_buf_dump, L_join_buf])) =
       Some (Exit EXIT_SUCCESS, Some ([m], i)) \<and>
     rpc m = Rec_none \<and> bpc m = Buf_none \<and> (\<forall>fd. dev_state counting_kernel fd (hist i) = U_absent)"
proof -
  obtain m i where mi: "server_main desk_env [(CHR ''L'', Some ''de'')] 0 [Signal]
      (\<lambda>_. ([L_begin], [L_destroy_stop, L_stop_time, L_done, L_buf_dump, L_join_buf])) = Some (Exit EXIT_SUCCESS, Some ([m], i))"
    using desk_main by blast
  with server_program [of desk_env "[(CHR ''L'', Some ''de'')]"] show ?thesis
    by (fastforce simp: counting_kernel_ok counting_clock_ok value_option_def)
qed

text \<open>A compositor that never reports the shot.\<close>

definition silent_env :: environment where
  "silent_env = desk_env\<lparr>e_wayland := (\<lambda>_. desk_compositor (\<lambda>_. Some []))\<rparr>"




lemma begun_run:
  "call_start ticking_kernel blind_xkb (rmach_init (ticking_recorder False)) =
     (Inr (), (rmach_init (ticking_recorder False))\<lparr>rpc := Rec_spawned\<rparr>)"
  "exec_all ticking_kernel blind_xkb [L_begin] ((rmach_init (ticking_recorder False))\<lparr>rpc := Rec_spawned\<rparr>) = Some begun"
  by (simp_all add: call_start_def rmach_init_def isActive_def ticking_fields threads_alive_def
      ticking_begin [OF refl] begun_def)

lemma begun_main:
  "\<exists>m. recorder_main ticking_kernel blind_xkb [(CHR ''f'', Some ''snap''), (CHR ''b'', Some '' 1'')] [L_begin] [L_stop_time, L_done] =
     Some (Some m, Exit EXIT_SUCCESS)"
proof -
  obtain m2 where m2: "call_stop ticking_kernel blind_xkb [L_stop_time, L_done] begun = (Inr (m_filename (ticking_recorder False)), m2)"
    using session_stop by (auto simp: stopCustomRecording_def session_def split: prod.splits)
  then have "mpc m2 = Main_idle" "rpc m2 = Rec_none"
    by (auto simp: call_stop_def split: option.splits if_splits)
  moreover have "strtol10 '' 1'' = 1"
    by (simp add: strtol10_def c_str_def is_space_def is_digit_def saturate_long_def of_char_def)
  moreover have "death begun = None" by (simp add: begun_def rmach_init_def)
  ultimately show ?thesis
    using m2 by (simp add: recorder_main_def argument_defaults_def ticking_construct begun_run del: exec_all.simps)
qed


end
