(* ===== verification/Spec2Isabelle.thy ===== *)
theory Spec2Isabelle
  imports Libinput_Profiles Slim_Server Remote_Server Agl_Roundtrip Programs
begin

text \<open>
  Verification of test_runner: a remote-control server for user-interface tests on embedded Linux
  targets. A client sends input events over Cap'n Proto RPC; the server injects them through
  virtual \<open>uinput\<close> devices, records the input of the real devices for later replay, and serves
  two plugins, one for system metrics and one for screenshots.

  \<^bold>\<open>The parts and how they interact.\<close> \<open>server/TestRunnerServer.cpp\<close> owns four virtual devices
  (mouse, keyboard, single and multi touch) and turns every request of the \<open>Input\<close> interface into
  a packet of kernel events; a key symbol is first resolved to a key code through libxkbcommon. Its
  \<open>Recorder\<close> interface drives recorder objects of \<open>recorder/TestRunnerRecorder.cpp\<close>: one
  continuous snapshot recorder and up to twenty custom ones, each with a recording thread and, when
  continuous, a buffer thread. All access to the kernel goes through
  \<open>recorder/SyscallInterface.h\<close>. \<open>client/RPCClient.h\<close> holds the connection of a client and
  \<open>client/TestRunnerClient.cpp\<close> the remote calls. \<open>plugins/agl_health\<close> fetches JSON documents from
  the AGL health daemon and hands them on as typed structures; \<open>plugins/weston_screenshooter\<close> is a
  Wayland client that captures an output of the compositor. \<open>server/main.cpp\<close> and
  \<open>recorder/recorder.cpp\<close> are the programs.

  \<^bold>\<open>The theories.\<close>

  \<^item> \<open>Prelude\<close>: machine integers, run-time errors as values (\<open>cxx_error\<close>, \<open>result\<close>), C string
    helpers, and the locale \<open>transition_system\<close> with runs, reachability and the invariant rules
    that every state machine below is an instance of.
  \<^item> \<open>Input_Events\<close>, \<open>Syscalls\<close>: the kernel's numbers and structures, the structures of
    \<open>capnp/test_runner.capnp\<close>, and \<open>SyscallInterface\<close> as a datatype of calls. A program state
    carries the history of its calls, newest first; the parameter \<open>kernel\<close> answers a call from
    that history in any way.
  \<^item> \<open>Keymap\<close>: \<open>setup_xkb\<close> and the four nested loops of \<open>resolve_keysym\<close>.
  \<^item> \<open>Input_Server\<close>: constructor, \<open>emit\<close>, the six handlers and the destructor of the input side,
    on the record \<open>input_server\<close>. \<open>Input_Spec\<close> specifies the packets (\<open>request_packet\<close>), the
    contract of \<open>emit\<close> (the locale \<open>event_sink\<close>) and the abstract machine with one event stream per
    device; \<open>Uinput_Protocol\<close> is the automaton of a \<open>uinput\<close> descriptor and shows that the
    whole life of a server respects it; \<open>Input_Properties\<close> has the refinement, the slot semantics of
    multi-touch packets, the choice of key codes and the behaviour without \<open>/dev/uinput\<close>.
  \<^item> \<open>Touch_Transform\<close>: \<open>transform_touch_coordinates\<close> in IEEE double arithmetic (rationals rounded
    to 53 bits, ties to even), with its exact result and its monotonicity. \<open>Time_Format\<close>: the time stamps.
  \<^item> \<open>Device_Discovery\<close>: the record \<open>recorder\<close>, its constructor with the search for devices and
    their classification, the device table and the choice of devices. \<open>Recording\<close>: the bodies of
    the loops of \<open>Record\<close> and \<open>processBuffer\<close>, \<open>is_done\<close> and the lines of a recording.
    \<open>Recording_Format\<close>: a reader for these files and the round trip.
  \<^item> \<open>Recorder_Threads\<close>: the object with its threads as a step relation \<open>rstep\<close>, equal to the
    executable \<open>rec_exec\<close>. \<open>Recorder_Invariants\<close> and \<open>Recorder_Properties\<close>: invariants over all
    interleavings, what \<open>Stop\<close> returns and when, the window of a continuous recording (by the
    locale \<open>sliding_window\<close>), and the schedules that go wrong. \<open>Recorder_Shutdown\<close>: the
    destructor in every state of the threads.
  \<^item> \<open>Recorder_Service\<close>: the \<open>Recorder\<close> interface; its facts rest on the locale
    \<open>recorder_contract\<close>, what every call keeps of a predicate that every step keeps.
  \<^item> \<open>Libinput_Profiles\<close>: what the build option \<open>ENABLE_LIBINPUT\<close> adds to the recorder, the acceleration profiles
    of pointers, which the constructor flattens and the destructor restores.
  \<^item> \<open>Rpc_Client\<close>: the connection and the shape of a remote call; the locales \<open>remote_service\<close>
    and \<open>total_service\<close> say what a client knows of a server's state after a call.
    \<open>Test_Runner_Client\<close> and \<open>Client_Properties\<close>: the calls, composed with the handlers of the
    server over an unreliable network.
  \<^item> \<open>Json_Documents\<close>: the accessors of the vendored JSON library that the plugin uses, with their
    exceptions. \<open>Agl_Health\<close>, \<open>Agl_Service\<close>: the filling of the structures, the transfer and the
    methods. \<open>Agl_Client\<close>, \<open>Agl_Roundtrip\<close>: the decoding, and the pipeline from document to client,
    by the locale \<open>codec\<close> with an interpretation for each structure.
  \<^item> \<open>Weston_Screenshooter\<close>, \<open>Screenshot_Properties\<close>: the listeners and \<open>capture\<close> with every early
    exit, over a history of acquired and released resources.
  \<^item> \<open>Service_Properties\<close>: snapshots, and the destructor of the server with all its recorders.
  \<^item> \<open>Test_Runner_Server\<close>: the whole server object, the dispatch of a request of any of its interfaces
    (\<open>handle_request\<close>), what an error of a handler or of a recorder's thread does to the process
    (\<open>status\<close>), and the interleaving of requests and threads as the step relation \<open>server_step\<close>.
    \<open>Handler_Errors\<close>: which errors the handlers of the plugins can have. \<open>Server_Properties\<close>: every part of the
    server is reachable on its own (\<open>server_parts_reachable\<close>), which lifts the theorems on the parts to the
    server; which requests can block or end it (\<open>hazard\<close>).
  \<^item> \<open>Slim_Server\<close>: the server of a build without the recorder, compared with the full one.
  \<^item> \<open>Remote_Server\<close>: the client library and the whole server over an unreliable network, as an interpretation of
    \<open>remote_service\<close>: sessions of calls of all interfaces, and the recordings a client asks for.
  \<^item> \<open>Programs\<close>: option handling and the life of the three programs; the server's is an event loop over
    requests, thread steps and signals, followed by the destructor.
  \<^item> This theory: the replay of a recording, which spans recorder and server.

  \<^bold>\<open>Loops, schedules and fuel.\<close> No definition has fuel. Loops over data are structural or have a
  measure. The three loops that depend on the environment, \<open>entry_loop\<close> (the directory stream),
  \<open>dispatch_loop\<close> (the compositor) and \<open>li_event_loop\<close> (libinput), are \<open>partial_function (option)\<close>, and it
  is shown that they return when the stream ends, and when the compositor answers or hangs up.
  The loops of the recorder's threads are steps of the machine, which interleave at the accesses to shared
  members: the test at the head of a loop with the call of \<open>select\<close>, the reading of one ready device, a round
  of trimming, the dump, each of the two assignments of a stop request, and a join is one step, and a thread
  that needs \<open>stop_mtx\<close> waits while the caller is between its assignments. \<open>Stop\<close> blocks, so a handler that
  stops a recording takes the steps made meanwhile as an argument (\<open>exec_all\<close>); a schedule that does not end
  the recording makes it \<open>Blocked_forever\<close>, and \<open>stop_terminates\<close> bounds the length of those that do by six
  steps and one for each device that is still to be read.

  \<^bold>\<open>Parameters.\<close> Code outside the repository is an argument: the kernel (\<open>kernel\<close>), libxkbcommon
  (\<open>xkb_lib\<close>, \<open>rec_xkb\<close>), libcurl (\<open>curl_lib\<close>), libinput (\<open>libinput\<close>), the JSON text parser, the compositor with
  libwayland, the network between client and server (how each call ends), \<open>getopt_long\<close> (the options
  it returns) and the environment. Hypotheses about them are stated where they are needed: a clock that
  does not run backwards (\<open>clock_ok\<close>), a time stamp without a slash (\<open>stamp_ok\<close>), a directory
  stream that ends (\<open>readdir_ends\<close>), and each has a concrete instance.

  \<^bold>\<open>What the theorems show.\<close> The server respects the \<open>uinput\<close> protocol and refines the abstract event
  streams; a client's session has exactly the effect of the calls that were delivered; a recording
  is complete, is read back without loss and is reproduced by a replay; \<open>Stop\<close> and the destructor end
  once their request is seen, and the destructor closes the devices after the threads; files stay in
  \<open>/tmp\<close>; metrics and screenshots arrive unchanged; a capture releases what it acquired; the server keeps
  serving unless a request meets one of a short list of hazards; the program exits after a signal with its
  devices destroyed and its threads joined; and each error path does what its caller is told. Several
  theorems state behaviour the code should not have: a stop request that is overwritten, a restart that
  terminates the process, a keyboard state used after it was released, a lost compositor reported as
  success, a blocked server that no signal ends, an edge coordinate that is one too small, options that
  crash the recorder program.

  \<^bold>\<open>Not modelled.\<close> Interleaving inside a step, such as between the clock reading of an event and its
  insertion into the buffer, and the memory model; the JSON text parser and the rest of the vendored
  libraries; the exact size of an RPC message (whether one reaches the limit of the transport is chosen
  with the fate of the call, \<open>Oversized\<close>); log and usage output other than the messages kept in \<open>errs\<close>; the
  constant tables of the Wayland protocol and the unused \<open>taskSet_\<close> of the server; tests, scripts and
  build files.
\<close>

section \<open>Replaying a recording\<close>

text \<open>The request a player of recordings sends for a record: the device number of a recording is the
  number of the virtual device.\<close>

definition replay_request :: "input_record_s \<Rightarrow> input_request" where
  "replay_request r = Req_PassThrough \<lparr>pt_device = word_of_nat (device_type_num (rec_dev_type r)),
     pt_type = ucast (input_type r), pt_code = ucast (input_code r), pt_value = input_val r\<rparr>"

definition replay_lines :: "kernel \<Rightarrow> xkb_lib \<Rightarrow> string list \<Rightarrow> 'a input_server_scheme \<Rightarrow> 'a input_server_scheme" where
  "replay_lines k lib ls s =
     fold (\<lambda>l s. case parse_line l of None \<Rightarrow> s | Some r \<Rightarrow> handle_input k lib (replay_request r) s) ls s"

lemma replay_request_written:
  assumes "devices_open s" "rec_dev_type r \<noteq> UNKNOWN"
  shows "written (hist (handle_input k lib (replay_request r) s)) = written (hist s) @
    [(getDeviceFd (device_type_num (rec_dev_type r)) s,
      \<lparr>ev_type = input_type r, ev_code = input_code r, ev_value = input_val r\<rparr>)]"
proof -
  have d: "device_type_num (rec_dev_type r) < MAX_DEVICES" using assms(2) by (cases "rec_dev_type r") simp_all
  have "unat (word_of_nat (device_type_num (rec_dev_type r)) :: u32) = device_type_num (rec_dev_type r)"
    by (cases "rec_dev_type r") simp_all
  moreover have "scast (ucast w :: u32) = w" for w :: u16
    by (rule bit_word_eqI) (auto simp: bit_simps)
  ultimately show ?thesis
    using d devices_open_fd(2) [OF assms(1) d] unfolding handle_input_written replay_request_def
    by (simp add: packet_events_def mk_event_def)
qed

text \<open>C6: Replay: feeding the lines of a recording, in order, to the server as pass-through requests
  writes to the virtual device of each record's type an event with exactly the recorded type,
  code and value, and nothing else.\<close>

theorem replay_reproduces_recording:
  assumes "devices_open s" and "list_all (\<lambda>r. 0 \<le> ts_abs r \<and> rec_dev_type r \<noteq> UNKNOWN) rs"
  shows "written (hist (replay_lines k lib (map record_text rs) s)) = written (hist s) @
    map (\<lambda>r. (getDeviceFd (device_type_num (rec_dev_type r)) s,
              \<lparr>ev_type = input_type r, ev_code = input_code r, ev_value = input_val r\<rparr>)) rs"
  using assms
proof (induction rs arbitrary: s)
  case (Cons r rs)
  let ?r = "r\<lparr>ts_abs := ts_abs r mod 86400000\<rparr>"
  let ?s = "handle_input k lib (replay_request ?r) s"
  have "replay_lines k lib (map record_text (r # rs)) s = replay_lines k lib (map record_text rs) ?s"
    using Cons.prems by (simp add: replay_lines_def parse_record_text)
  moreover have "written (hist (replay_lines k lib (map record_text rs) ?s)) = written (hist ?s) @
      map (\<lambda>r. (getDeviceFd (device_type_num (rec_dev_type r)) ?s,
              \<lparr>ev_type = input_type r, ev_code = input_code r, ev_value = input_val r\<rparr>)) rs"
    by (rule Cons.IH) (use Cons.prems in \<open>simp_all add: frame_simps\<close>)
  moreover have "written (hist ?s) = written (hist s) @ [(getDeviceFd (device_type_num (rec_dev_type r)) s,
      \<lparr>ev_type = input_type r, ev_code = input_code r, ev_value = input_val r\<rparr>)]"
    using replay_request_written [of s ?r k lib] Cons.prems by simp
  ultimately show ?case by (simp add: getDeviceFd_handle_input)
qed (simp add: replay_lines_def)

theorem replay_reproduces_recording_witness:
  "written (hist (replay_lines counting_kernel no_xkb (map record_text
      [\<lparr>ts_abs = 5, rec_dev_type = KEYBOARD, input_type = 1, input_code = 30, input_val = 1, keysym = 97\<rparr>])
      (blank_server\<lparr>mDeviceFd := [3, 4, 5, 6]\<rparr>))) =
   [(4, \<lparr>ev_type = 1, ev_code = 30, ev_value = 1\<rparr>)]"
  using replay_reproduces_recording [of "blank_server\<lparr>mDeviceFd := [3, 4, 5, 6]\<rparr>"
      "[\<lparr>ts_abs = 5, rec_dev_type = KEYBOARD, input_type = 1, input_code = 30, input_val = 1, keysym = 97\<rparr>]"
      counting_kernel no_xkb]
  by (simp add: devices_open_def blank_server_def getDeviceFd_def)

end
